theory Spec2Isabelle
  imports Main "HOL-Library.AList"
begin

section \<open>Python values used by the workflow compiler\<close>

text \<open>
  Strings are \<open>string\<close> (lists of characters). The character functions \<open>isalnum\<close>,
  \<open>lower\<close>, \<open>upper\<close> and \<open>is_space\<close> follow Python on the ASCII range, which is what
  column names, keys and keywords of a workflow are made of. Labels are free text: for
  them \<open>str_isalnum\<close> and \<open>str_lower\<close> are Python's \<open>str.isalnum\<close> and \<open>str.lower\<close>,
  with what the Unicode database says outside ASCII as a parameter.

  A Python \<open>dict\<close> is an association list in insertion order: \<open>map_of\<close> reads a
  key, \<open>AList.update\<close> stores a value (a key that is already there keeps its place, a
  new key goes to the end), \<open>map fst\<close> is the order in which Python iterates over the
  keys.
\<close>

datatype error =
    KeyError string
  | IndexError
  | Raised string string

type_synonym ('k, 'v) dict = "('k \<times> 'v) list"

definition dict_get :: "('k, 'v) dict \<Rightarrow> 'k \<Rightarrow> 'v \<Rightarrow> 'v" where
  "dict_get d k dflt = (case map_of d k of None \<Rightarrow> dflt | Some v \<Rightarrow> v)"

definition ord :: "char \<Rightarrow> nat" where
  "ord c = of_char c"

definition is_digit :: "char \<Rightarrow> bool" where
  "is_digit c = (48 \<le> ord c \<and> ord c \<le> 57)"

definition is_upper :: "char \<Rightarrow> bool" where
  "is_upper c = (65 \<le> ord c \<and> ord c \<le> 90)"

definition is_lower :: "char \<Rightarrow> bool" where
  "is_lower c = (97 \<le> ord c \<and> ord c \<le> 122)"

definition isalnum :: "char \<Rightarrow> bool" where
  "isalnum c = (is_digit c \<or> is_upper c \<or> is_lower c)"

definition lower_char :: "char \<Rightarrow> char" where
  "lower_char c = (if is_upper c then char_of (ord c + 32) else c)"

definition lower :: "string \<Rightarrow> string" where
  "lower s = map lower_char s"

text \<open>
  The characters from 128 on stand for the characters outside ASCII. \<open>uc_isalnum\<close>
  says which of them are letters or digits for \<open>str.isalnum\<close>, and \<open>uc_lower\<close> is
  \<open>str.lower\<close> on a string that holds one of them (lowercasing such a string is not
  done character by character: it may change the length and depends on the
  neighbours of a character).
\<close>

record unicode =
  uc_isalnum :: "char \<Rightarrow> bool"
  uc_lower :: "string \<Rightarrow> string"

definition is_ascii :: "char \<Rightarrow> bool" where
  "is_ascii c = (ord c < 128)"

definition str_isalnum :: "unicode \<Rightarrow> char \<Rightarrow> bool" where
  "str_isalnum U c = (if is_ascii c then isalnum c else uc_isalnum U c)"


definition is_space :: "char \<Rightarrow> bool" where
  "is_space c = (ord c \<in> {9, 10, 11, 12, 13, 28, 29, 30, 31, 32})"

text \<open>\<open>s.strip(chars)\<close> for a predicate on characters, and \<open>s.strip()\<close>.\<close>

definition strip_chars :: "(char \<Rightarrow> bool) \<Rightarrow> string \<Rightarrow> string" where
  "strip_chars P s = rev (dropWhile P (rev (dropWhile P s)))"

definition strip :: "string \<Rightarrow> string" where
  "strip s = strip_chars is_space s"

text \<open>\<open>s.split(",")\<close>: the pieces between the separators, at least one piece.\<close>

fun split_on :: "char \<Rightarrow> string \<Rightarrow> string list" where
  "split_on sep [] = [[]]"
| "split_on sep (c # cs) =
     (if c = sep then [] # split_on sep cs
      else (case split_on sep cs of
              [] \<Rightarrow> [[c]]
            | p # ps \<Rightarrow> (c # p) # ps))"

text \<open>\<open>sep.join(xs)\<close>.\<close>

fun join :: "string \<Rightarrow> string list \<Rightarrow> string" where
  "join sep [] = []"
| "join sep [x] = x"
| "join sep (x # y # ys) = x @ sep @ join sep (y # ys)"

text \<open>\<open>[c.strip() for c in s.split(",") if c.strip()]\<close>, the parse of every comma list.\<close>

definition comma_list :: "string \<Rightarrow> string list" where
  "comma_list s = filter (\<lambda>c. c \<noteq> []) (map strip (split_on CHR '','' s))"

text \<open>\<open>str(n)\<close> for an integer.\<close>

fun str_nat :: "nat \<Rightarrow> string" where
  "str_nat n =
     (if n < 10 then [char_of (48 + n)]
      else str_nat (n div 10) @ [char_of (48 + n mod 10)])"

declare str_nat.simps [simp del]

definition str_int :: "int \<Rightarrow> string" where
  "str_int i = (if i < 0 then CHR ''-'' # str_nat (nat (- i)) else str_nat (nat i))"

text \<open>
  \<open>repr(s)\<close> of a string, and \<open>str(xs)\<close> of a list of strings: Python quotes with
  \<open>'\<close> unless the string holds a \<open>'\<close> and no \<open>"\<close>, and escapes the backslash, the
  chosen quote and the non-printable characters.
\<close>

definition hex_digit :: "nat \<Rightarrow> char" where
  "hex_digit d = (if d < 10 then char_of (48 + d) else char_of (87 + d))"

definition repr_char :: "char \<Rightarrow> char \<Rightarrow> string" where
  "repr_char q c =
     (if c = CHR 0x5C then [CHR 0x5C, CHR 0x5C]
      else if c = q then [CHR 0x5C, q]
      else if c = CHR 0x0A then [CHR 0x5C, CHR ''n'']
      else if c = CHR 0x0D then [CHR 0x5C, CHR ''r'']
      else if c = CHR 0x09 then [CHR 0x5C, CHR ''t'']
      else if ord c < 32 \<or> ord c = 127
        then [CHR 0x5C, CHR ''x'', hex_digit (ord c div 16), hex_digit (ord c mod 16)]
      else [c])"

definition repr_str :: "string \<Rightarrow> string" where
  "repr_str s =
     (let q = (if CHR 0x27 \<in> set s \<and> CHR 0x22 \<notin> set s then CHR 0x22 else CHR 0x27)
      in [q] @ concat (map (repr_char q) s) @ [q])"

definition str_list :: "string list \<Rightarrow> string" where
  "str_list xs = ''['' @ join '', '' (map repr_str xs) @ '']''"

section \<open>Differential validator: signatures (server.py)\<close>

text \<open>
  \<open>df_signature\<close> returns a dict with the keys \<open>columns\<close>, \<open>dtypes\<close>, \<open>rows\<close> and
  \<open>sample_md5\<close>; \<open>compare_signatures\<close> reads three of them.
\<close>

record signature =
  sig_columns :: "string list"
  sig_dtypes :: "string list"
  sig_rows :: int
  sig_sample_md5 :: string

definition compare_signatures :: "signature \<Rightarrow> signature \<Rightarrow> bool \<times> string" where
  "compare_signatures a b =
     (if sig_columns a \<noteq> sig_columns b then
        (False, ''Columns differ.'' @ [CHR 0x0A] @ ''A: '' @ str_list (sig_columns a)
                  @ [CHR 0x0A] @ ''B: '' @ str_list (sig_columns b))
      else if sig_rows a \<noteq> sig_rows b then
        (False, ''Row count differs. A='' @ str_int (sig_rows a) @ '' B='' @ str_int (sig_rows b))
      else if sig_sample_md5 a \<noteq> sig_sample_md5 b then
        (False, ''Sample hash differs (first rows content mismatch).'')
      else (True, ''Match.''))"

text \<open>
  \<open>compare_meta\<close> of validator.py compares the metadata snapshots of \<open>frame_meta\<close>
  (rows, columns, dtypes; no sample hash) and returns four flags.
\<close>

record frame_meta =
  meta_rows :: int
  meta_columns :: "string list"
  meta_dtypes :: "string list"

record meta_cmp =
  rows_equal :: bool
  columns_equal :: bool
  dtypes_equal :: bool
  exact_match :: bool

definition compare_meta :: "frame_meta \<Rightarrow> frame_meta \<Rightarrow> meta_cmp" where
  "compare_meta a b =
     \<lparr> rows_equal = (meta_rows a = meta_rows b),
       columns_equal = (meta_columns a = meta_columns b),
       dtypes_equal = (meta_dtypes a = meta_dtypes b),
       exact_match = (meta_rows a = meta_rows b \<and> meta_columns a = meta_columns b
                      \<and> meta_dtypes a = meta_dtypes b) \<rparr>"

section \<open>Graph model\<close>

text \<open>
  The fields \<open>n\<close> and \<open>frac\<close> of \<open>NodeData\<close> are typed \<open>Any\<close>: they hold whatever the
  request holds, an integer, a float, a string, a boolean, or a list or an object. Floats
  are not modelled: a float is carried as the text that Python prints for it, which is
  what an f-string inserts; of a list or an object only its truth value is kept (it is
  not empty). \<open>truthy\<close> is the truth value that \<open>x or d\<close> tests.

  \<open>int(v)\<close> and \<open>float(v)\<close> return the number when \<open>v\<close> is one already (a boolean is
  the integer 0 or 1). What they do otherwise (parse a string, truncate a float, raise
  \<open>ValueError\<close> or \<open>TypeError\<close>) is a parameter, \<open>conversions\<close>.
\<close>

type_synonym pyfloat = string

datatype pyany =
    PyInt int
  | PyFloat pyfloat
  | PyStr string
  | PyBool bool
  | PyObj bool

fun truthy :: "pyany \<Rightarrow> bool" where
  "truthy (PyInt i) = (i \<noteq> 0)"
| "truthy (PyFloat f) = (f \<noteq> ''0.0'' \<and> f \<noteq> ''-0.0'')"
| "truthy (PyStr s) = (s \<noteq> [])"
| "truthy (PyBool b) = b"
| "truthy (PyObj b) = b"

definition or_any :: "pyany option \<Rightarrow> pyany \<Rightarrow> pyany" where
  "or_any x d = (case x of None \<Rightarrow> d | Some v \<Rightarrow> if truthy v then v else d)"

record conversions =
  int_of_other :: "pyany \<Rightarrow> error + int"
  float_of_other :: "pyany \<Rightarrow> error + pyfloat"

fun py_int :: "conversions \<Rightarrow> pyany \<Rightarrow> error + int" where
  "py_int cv (PyInt i) = Inr i"
| "py_int cv (PyBool b) = Inr (if b then 1 else 0)"
| "py_int cv v = int_of_other cv v"

fun py_float :: "conversions \<Rightarrow> pyany \<Rightarrow> error + pyfloat" where
  "py_float cv (PyFloat f) = Inr f"
| "py_float cv v = float_of_other cv v"

text \<open>
  A node is \<open>{id, data}\<close> and an edge \<open>{id?, source, target}\<close>, in server.py as
  pydantic models and in optimizer.py as dicts of the same shape. The fields of
  \<open>NodeData\<close> that the modelled code reads are kept under their names (\<open>type\<close> is
  \<open>ntype\<close>, \<open>id\<close> is \<open>nid\<close> and \<open>eid\<close>, \<open>n\<close> is \<open>sample_n\<close>). The entries of
  \<open>schema\<close> and \<open>measures\<close> hold strings.
\<close>

record node_data =
  label :: "string option"
  ntype :: string
  path :: "string option"
  fileText :: "string option"
  columns :: "string option"
  expr :: "string option"
  groupBy :: "string option"
  newCol :: "string option"
  sortSpec :: "string option"
  mode :: "string option"
  sample_n :: "pyany option"
  frac :: "pyany option"
  how :: "string option"
  left_on :: "string option"
  right_on :: "string option"
  schema :: "(string, string) dict list"
  measures :: "(string, string) dict list"

record node =
  nid :: string
  data :: node_data

record edge =
  eid :: "string option"
  source :: string
  target :: string

text \<open>\<open>x or d\<close> for an optional string: \<open>None\<close> and the empty string are falsy.\<close>

definition or_else :: "string option \<Rightarrow> string \<Rightarrow> string" where
  "or_else x d = (case x of None \<Rightarrow> d | Some s \<Rightarrow> if s = [] then d else s)"

section \<open>Topological order (optimizer.py: \<open>_topo\<close>)\<close>

text \<open>The loop over the edges: count the incoming edges, collect the targets.\<close>

fun topo_edges ::
  "edge list \<Rightarrow> (string, int) dict \<Rightarrow> (string, string list) dict
   \<Rightarrow> error + (string, int) dict \<times> (string, string list) dict" where
  "topo_edges [] inc outs = Inr (inc, outs)"
| "topo_edges (e # es) inc outs =
     (let inc' = AList.update (target e) (dict_get inc (target e) 0 + 1) inc
      in case map_of outs (source e) of
           None \<Rightarrow> Inl (KeyError (source e))
         | Some ts \<Rightarrow> topo_edges es inc' (AList.update (source e) (ts @ [target e]) outs))"

text \<open>The loop over \<open>outs.get(nid, [])\<close> inside the \<open>while\<close>.\<close>

fun topo_visit ::
  "string list \<Rightarrow> (string, int) dict \<Rightarrow> string list
   \<Rightarrow> error + (string, int) dict \<times> string list" where
  "topo_visit [] inc q = Inr (inc, q)"
| "topo_visit (t # ts) inc q =
     (case map_of inc t of
        None \<Rightarrow> Inl (KeyError t)
      | Some c \<Rightarrow>
          topo_visit ts (AList.update t (c - 1) inc) (if c - 1 = 0 then q @ [t] else q))"

text \<open>
  The number of positive counters plus the length of the queue never grows in a visit
  and the \<open>pop\<close> takes one off: the \<open>while\<close> loop ends.
\<close>

definition positives :: "(string, int) dict \<Rightarrow> nat" where
  "positives inc = length (filter (\<lambda>p. 0 < snd p) inc)"

lemma positives_update:
  "map_of inc t = Some c \<Longrightarrow>
   positives (AList.update t (c - 1) inc) + (if c - 1 = 0 then 1 else 0) = positives inc"
  by (induction inc) (auto simp: positives_def)

lemma topo_visit_measure:
  "topo_visit ts inc q = Inr (inc', q') \<Longrightarrow>
   positives inc' + length q' \<le> positives inc + length q"
proof (induction ts arbitrary: inc q)
  case Nil
  then show ?case by simp
next
  case (Cons t ts)
  from Cons.prems obtain c where c: "map_of inc t = Some c"
    by (cases "map_of inc t") auto
  let ?inc = "AList.update t (c - 1) inc"
  let ?q = "if c - 1 = 0 then q @ [t] else q"
  from Cons.prems c have "topo_visit ts ?inc ?q = Inr (inc', q')" by simp
  from Cons.IH [OF this] have "positives inc' + length q' \<le> positives ?inc + length ?q" .
  moreover from positives_update [OF c]
  have "positives ?inc + length ?q = positives inc + length q" by (simp split: if_splits)
  ultimately show ?case by simp
qed

function topo_loop ::
  "(string, string list) dict \<Rightarrow> (string, int) dict \<Rightarrow> string list \<Rightarrow> string list
   \<Rightarrow> error + string list" where
  "topo_loop outs inc [] out = Inr out"
| "topo_loop outs inc (x # q) out =
     (case topo_visit (dict_get outs x []) inc q of
        Inl err \<Rightarrow> Inl err
      | Inr (inc', q') \<Rightarrow> topo_loop outs inc' q' (out @ [x]))"
  by pat_completeness auto
termination
  by (relation "measure (\<lambda>(outs, inc, q, out). positives inc + length q)")
     (auto dest: topo_visit_measure)

definition topo :: "node list \<Rightarrow> edge list \<Rightarrow> error + string list" where
  "topo nodes edges =
     (let inc = fold (\<lambda>n d. AList.update (nid n) 0 d) nodes [];
          outs = fold (\<lambda>n d. AList.update (nid n) [] d) nodes []
      in case topo_edges edges inc outs of
           Inl err \<Rightarrow> Inl err
         | Inr (inc', outs') \<Rightarrow>
             (case topo_loop outs' inc' [k \<leftarrow> map fst inc'. map_of inc' k = Some 0] [] of
                Inl err \<Rightarrow> Inl err
              | Inr out \<Rightarrow>
                  Inr (if length out = length nodes then out else map nid nodes)))"

section \<open>Topological order (server.py: \<open>topo_sort\<close>)\<close>

fun topo_sort_edges ::
  "edge list \<Rightarrow> (string, int) dict \<Rightarrow> (string, string list) dict
   \<Rightarrow> error + (string, int) dict \<times> (string, string list) dict" where
  "topo_sort_edges [] incoming outs = Inr (incoming, outs)"
| "topo_sort_edges (e # es) incoming outs =
     (let incoming' = AList.update (target e) (dict_get incoming (target e) 0 + 1) incoming
      in case map_of outs (source e) of
           None \<Rightarrow> Inl (KeyError (source e))
         | Some ts \<Rightarrow>
             topo_sort_edges es incoming' (AList.update (source e) (ts @ [target e]) outs))"

fun topo_sort_visit ::
  "string list \<Rightarrow> (string, int) dict \<Rightarrow> string list
   \<Rightarrow> error + (string, int) dict \<times> string list" where
  "topo_sort_visit [] incoming q = Inr (incoming, q)"
| "topo_sort_visit (t # ts) incoming q =
     (case map_of incoming t of
        None \<Rightarrow> Inl (KeyError t)
      | Some c \<Rightarrow>
          topo_sort_visit ts (AList.update t (c - 1) incoming)
            (if c - 1 = 0 then q @ [t] else q))"

lemma topo_sort_visit_measure:
  "topo_sort_visit ts inc q = Inr (inc', q') \<Longrightarrow>
   positives inc' + length q' \<le> positives inc + length q"
proof (induction ts arbitrary: inc q)
  case Nil
  then show ?case by simp
next
  case (Cons t ts)
  from Cons.prems obtain c where c: "map_of inc t = Some c"
    by (cases "map_of inc t") auto
  let ?inc = "AList.update t (c - 1) inc"
  let ?q = "if c - 1 = 0 then q @ [t] else q"
  from Cons.prems c have "topo_sort_visit ts ?inc ?q = Inr (inc', q')" by simp
  from Cons.IH [OF this] have "positives inc' + length q' \<le> positives ?inc + length ?q" .
  moreover from positives_update [OF c]
  have "positives ?inc + length ?q = positives inc + length q" by (simp split: if_splits)
  ultimately show ?case by simp
qed

function topo_sort_loop ::
  "(string, string list) dict \<Rightarrow> (string, int) dict \<Rightarrow> string list \<Rightarrow> string list
   \<Rightarrow> error + string list" where
  "topo_sort_loop outs incoming [] order = Inr order"
| "topo_sort_loop outs incoming (cur # q) order =
     (case topo_sort_visit (dict_get outs cur []) incoming q of
        Inl err \<Rightarrow> Inl err
      | Inr (incoming', q') \<Rightarrow> topo_sort_loop outs incoming' q' (order @ [cur]))"
  by pat_completeness auto
termination
  by (relation "measure (\<lambda>(outs, inc, q, out). positives inc + length q)")
     (auto dest: topo_sort_visit_measure)

definition topo_sort :: "node list \<Rightarrow> edge list \<Rightarrow> error + string list" where
  "topo_sort nodes edges =
     (let incoming = fold (\<lambda>n d. AList.update (nid n) 0 d) nodes [];
          outs = fold (\<lambda>n d. AList.update (nid n) [] d) nodes []
      in case topo_sort_edges edges incoming outs of
           Inl err \<Rightarrow> Inl err
         | Inr (incoming', outs') \<Rightarrow>
             (case topo_sort_loop outs' incoming'
                     [nid n. n \<leftarrow> nodes, dict_get incoming' (nid n) 0 = 0] [] of
                Inl err \<Rightarrow> Inl err
              | Inr order \<Rightarrow>
                  if length order \<noteq> length nodes then Inr (map nid nodes) else Inr order))"

section \<open>Dead-node pruning (optimizer.py: \<open>prune_dead\<close>)\<close>

text \<open>
  \<open>preds.setdefault(t, []).append(s)\<close> for every edge. The work list \<open>stack\<close> is
  held top first: \<open>stack.pop()\<close> takes the head, and appending the predecessors one by
  one puts the last of them on top. \<open>keep\<close> is a Python set.
\<close>

fun prune_preds :: "edge list \<Rightarrow> (string, string list) dict \<Rightarrow> (string, string list) dict" where
  "prune_preds [] preds = preds"
| "prune_preds (e # es) preds =
     prune_preds es (AList.update (target e) (dict_get preds (target e) [] @ [source e]) preds)"

definition dict_values :: "('k, 'v list) dict \<Rightarrow> 'v set" where
  "dict_values d = (\<Union>p \<in> set d. set (snd p))"

lemma dict_get_values: "set (dict_get d k []) \<subseteq> dict_values d"
proof (cases "map_of d k")
  case None
  then show ?thesis by (simp add: dict_get_def)
next
  case (Some vs)
  then have "(k, vs) \<in> set d" by (rule map_of_SomeD)
  then have "set vs \<subseteq> dict_values d" by (force simp: dict_values_def)
  with Some show ?thesis by (simp add: dict_get_def)
qed

lemma finite_dict_values: "finite (dict_values d)"
  by (simp add: dict_values_def)

function prune_walk ::
  "(string, string list) dict \<Rightarrow> string set \<Rightarrow> string list \<Rightarrow> string set" where
  "prune_walk preds keep [] = keep"
| "prune_walk preds keep (cur # stack) =
     (if cur \<in> keep then prune_walk preds keep stack
      else prune_walk preds (insert cur keep) (rev (dict_get preds cur []) @ stack))"
  by pat_completeness auto
termination
proof (relation "inv_image (less_than <*lex*> less_than)
         (\<lambda>(preds, keep, stack). (card ((set stack \<union> dict_values preds) - keep), length stack))",
       goal_cases)
  case 1
  show ?case by (intro wf_inv_image wf_lex_prod wf_less_than)
next
  case (2 preds keep cur stack)
  have "(set stack \<union> dict_values preds) - keep \<subseteq> (set (cur # stack) \<union> dict_values preds) - keep"
    by auto
  moreover have "finite ((set (cur # stack) \<union> dict_values preds) - keep)"
    by (simp add: finite_dict_values)
  ultimately have "card ((set stack \<union> dict_values preds) - keep)
      \<le> card ((set (cur # stack) \<union> dict_values preds) - keep)"
    by (rule card_mono [rotated])
  then show ?case by auto
next
  case (3 preds keep cur stack)
  let ?new = "(set (rev (dict_get preds cur []) @ stack) \<union> dict_values preds) - insert cur keep"
  let ?old = "(set (cur # stack) \<union> dict_values preds) - keep"
  have "?new \<subseteq> ?old" using dict_get_values [of preds cur] by auto
  moreover have "cur \<in> ?old" "cur \<notin> ?new" using 3 by auto
  ultimately have "?new \<subset> ?old" by blast
  moreover have "finite ?old" by (simp add: finite_dict_values)
  ultimately have "card ?new < card ?old" by (rule psubset_card_mono [rotated])
  then show ?case by simp
qed

definition prune_dead :: "node list \<Rightarrow> edge list \<Rightarrow> string option \<Rightarrow> node list \<times> edge list" where
  "prune_dead nodes edges target_id =
     (case target_id of
        None \<Rightarrow> (nodes, edges)
      | Some t \<Rightarrow>
          if t = [] then (nodes, edges)
          else
            (let preds = prune_preds edges [];
                 keep = prune_walk preds {} [t]
             in ([n \<leftarrow> nodes. nid n \<in> keep],
                 [e \<leftarrow> edges. source e \<in> keep \<and> target e \<in> keep])))"

section \<open>Preview subgraph (server.py: \<open>subgraph_up_to\<close>)\<close>

text \<open>
  Here \<open>preds\<close> starts with an empty list for every node and \<open>preds[e.target]\<close> raises
  \<open>KeyError\<close> for a target that is not a node.
\<close>

fun subgraph_preds ::
  "edge list \<Rightarrow> (string, string list) dict \<Rightarrow> error + (string, string list) dict" where
  "subgraph_preds [] preds = Inr preds"
| "subgraph_preds (e # es) preds =
     (case map_of preds (target e) of
        None \<Rightarrow> Inl (KeyError (target e))
      | Some ps \<Rightarrow> subgraph_preds es (AList.update (target e) (ps @ [source e]) preds))"

function subgraph_walk ::
  "(string, string list) dict \<Rightarrow> string set \<Rightarrow> string list \<Rightarrow> string set" where
  "subgraph_walk preds keep [] = keep"
| "subgraph_walk preds keep (cur # stack) =
     (if cur \<in> keep then subgraph_walk preds keep stack
      else subgraph_walk preds (insert cur keep) (rev (dict_get preds cur []) @ stack))"
  by pat_completeness auto
termination
proof (relation "inv_image (less_than <*lex*> less_than)
         (\<lambda>(preds, keep, stack). (card ((set stack \<union> dict_values preds) - keep), length stack))",
       goal_cases)
  case 1
  show ?case by (intro wf_inv_image wf_lex_prod wf_less_than)
next
  case (2 preds keep cur stack)
  have "(set stack \<union> dict_values preds) - keep \<subseteq> (set (cur # stack) \<union> dict_values preds) - keep"
    by auto
  moreover have "finite ((set (cur # stack) \<union> dict_values preds) - keep)"
    by (simp add: finite_dict_values)
  ultimately have "card ((set stack \<union> dict_values preds) - keep)
      \<le> card ((set (cur # stack) \<union> dict_values preds) - keep)"
    by (rule card_mono [rotated])
  then show ?case by auto
next
  case (3 preds keep cur stack)
  let ?new = "(set (rev (dict_get preds cur []) @ stack) \<union> dict_values preds) - insert cur keep"
  let ?old = "(set (cur # stack) \<union> dict_values preds) - keep"
  have "?new \<subseteq> ?old" using dict_get_values [of preds cur] by auto
  moreover have "cur \<in> ?old" "cur \<notin> ?new" using 3 by auto
  ultimately have "?new \<subset> ?old" by blast
  moreover have "finite ?old" by (simp add: finite_dict_values)
  ultimately have "card ?new < card ?old" by (rule psubset_card_mono [rotated])
  then show ?case by simp
qed

definition subgraph_up_to ::
  "node list \<Rightarrow> edge list \<Rightarrow> string option \<Rightarrow> error + node list \<times> edge list" where
  "subgraph_up_to nodes edges target_id =
     (case target_id of
        None \<Rightarrow> Inr (nodes, edges)
      | Some t \<Rightarrow>
          if t = [] then Inr (nodes, edges)
          else
            (case subgraph_preds edges (fold (\<lambda>n d. AList.update (nid n) [] d) nodes []) of
               Inl err \<Rightarrow> Inl err
             | Inr preds \<Rightarrow>
                 (let keep = subgraph_walk preds {} [t]
                  in Inr ([n \<leftarrow> nodes. nid n \<in> keep],
                          [e \<leftarrow> edges. source e \<in> keep \<and> target e \<in> keep]))))"

section \<open>Naming (server.py: \<open>friendly_name\<close>)\<close>




section \<open>Peephole fusion (optimizer.py: \<open>combine_redundant\<close>)\<close>

text \<open>
  \<open>_parents\<close> and \<open>_children\<close>: \<open>setdefault(k, []).append(v)\<close> on one end of the edge and
  an empty entry for the other end when it has none.
\<close>

fun parents_loop :: "edge list \<Rightarrow> (string, string list) dict \<Rightarrow> (string, string list) dict" where
  "parents_loop [] p = p"
| "parents_loop (e # es) p =
     (let p = AList.update (target e) (dict_get p (target e) [] @ [source e]) p;
          p = (case map_of p (source e) of
                 None \<Rightarrow> AList.update (source e) (dict_get p (source e) []) p
               | Some ps \<Rightarrow> p)
      in parents_loop es p)"

definition parents_of :: "edge list \<Rightarrow> (string, string list) dict" where
  "parents_of edges = parents_loop edges []"

fun children_loop :: "edge list \<Rightarrow> (string, string list) dict \<Rightarrow> (string, string list) dict" where
  "children_loop [] c = c"
| "children_loop (e # es) c =
     (let c = AList.update (source e) (dict_get c (source e) [] @ [target e]) c;
          c = (case map_of c (target e) of
                 None \<Rightarrow> AList.update (target e) (dict_get c (target e) []) c
               | Some cs \<Rightarrow> c)
      in children_loop es c)"

definition children_of :: "edge list \<Rightarrow> (string, string list) dict" where
  "children_of edges = children_loop edges []"

text \<open>
  \<open>_remove_node\<close> changes the dict of nodes and the list of edges in place; the model
  returns both. The edge it appends has the keys \<open>source\<close> and \<open>target\<close> only.
\<close>

definition remove_node ::
  "(string, node) dict \<Rightarrow> edge list \<Rightarrow> string \<Rightarrow> (string, node) dict \<times> edge list" where
  "remove_node nodes edges x =
     (let ins = [e \<leftarrow> edges. target e = x];
          outs = [e \<leftarrow> edges. source e = x]
      in if length ins = 1 \<and> length outs = 1 then
           (let src = source (hd ins);
                dst = target (hd outs)
            in (AList.delete x nodes,
                [e \<leftarrow> edges. source e \<noteq> x \<and> target e \<noteq> x]
                  @ [\<lparr> eid = None, source = src, target = dst \<rparr>]))
         else (nodes, edges))"

text \<open>
  One round of the \<open>for nid in order\<close> loop. The three \<open>if\<close> blocks are three rules;
  each takes the node \<open>n\<close> of the round, the dict \<open>id2\<close> and the edges, and either ends
  the round (\<open>Continue\<close>, Python's \<open>continue\<close>) or hands on to the next block
  (\<open>Next\<close>). Assigning to \<open>pnode["data"][...]\<close> changes the node object that \<open>id2\<close> holds
  under \<open>pin\<close>; it is the object \<open>n\<close> as well when \<open>pin\<close> is \<open>nid\<close>.
\<close>

datatype flow =
    Continue "(string, node) dict" "edge list"
  | Next node "(string, node) dict" "edge list"

definition set_columns :: "node \<Rightarrow> string \<Rightarrow> node" where
  "set_columns n c = n\<lparr>data := (data n)\<lparr>columns := Some c\<rparr>\<rparr>"

definition set_expr :: "node \<Rightarrow> string \<Rightarrow> node" where
  "set_expr n x = n\<lparr>data := (data n)\<lparr>expr := Some x\<rparr>\<rparr>"

definition select_select_rule ::
  "(string, string list) dict \<Rightarrow> string \<Rightarrow> node \<Rightarrow> (string, node) dict \<Rightarrow> edge list \<Rightarrow> flow" where
  "select_select_rule parents x n id2 edges =
     (if ntype (data n) = ''transform.select'' \<and> length (dict_get parents x []) = 1 then
        (let pin = hd (dict_get parents x [])
         in case map_of id2 pin of
              None \<Rightarrow> Continue id2 edges
            | Some pnode \<Rightarrow>
                if ntype (data pnode) \<noteq> ''transform.select'' then Continue id2 edges
                else
                  (let cols1 = strip (or_else (columns (data pnode)) ''*'');
                       cols2 = strip (or_else (columns (data n)) ''*'')
                   in if cols1 = ''*'' \<and> cols2 \<noteq> ''*'' then
                        (case remove_node id2 edges pin of (id2', edges') \<Rightarrow> Next n id2' edges')
                      else if cols1 \<noteq> ''*'' \<and> cols2 = ''*'' then
                        (case remove_node id2 edges x of (id2', edges') \<Rightarrow> Next n id2' edges')
                      else if cols1 \<noteq> ''*'' \<and> cols2 \<noteq> ''*'' then
                        (let set1 = comma_list cols1;
                             set2 = comma_list cols2;
                             composed = [c \<leftarrow> set1. c \<in> set set2];
                             pnode' = set_columns pnode
                                        (if composed \<noteq> [] then join '','' composed else ''*'');
                             id2 = AList.update pin pnode' id2;
                             n = (if pin = x then pnode' else n)
                         in case remove_node id2 edges x of (id2', edges') \<Rightarrow> Next n id2' edges')
                      else Next n id2 edges))
      else Next n id2 edges)"

definition filter_filter_rule ::
  "(string, string list) dict \<Rightarrow> string \<Rightarrow> node \<Rightarrow> (string, node) dict \<Rightarrow> edge list \<Rightarrow> flow" where
  "filter_filter_rule parents x n id2 edges =
     (if ntype (data n) = ''transform.filter'' \<and> length (dict_get parents x []) = 1 then
        (let pin = hd (dict_get parents x [])
         in case map_of id2 pin of
              None \<Rightarrow> Continue id2 edges
            | Some pnode \<Rightarrow>
                if ntype (data pnode) \<noteq> ''transform.filter'' then Continue id2 edges
                else
                  (let e1 = strip (or_else (expr (data pnode)) []);
                       e2 = strip (or_else (expr (data n)) []);
                       ex = (if e1 = [] then e2
                             else if e2 = [] then e1
                             else ''('' @ e1 @ '') AND ('' @ e2 @ '')'');
                       pnode' = set_expr pnode ex;
                       id2 = AList.update pin pnode' id2;
                       n = (if pin = x then pnode' else n)
                   in case remove_node id2 edges x of (id2', edges') \<Rightarrow> Next n id2' edges'))
      else Next n id2 edges)"

definition identity_select_rule ::
  "(string, string list) dict \<Rightarrow> (string, string list) dict \<Rightarrow> string \<Rightarrow> node
   \<Rightarrow> (string, node) dict \<Rightarrow> edge list \<Rightarrow> (string, node) dict \<times> edge list" where
  "identity_select_rule parents children x n id2 edges =
     (if ntype (data n) = ''transform.select'' then
        (let cols = strip (or_else (columns (data n)) ''*'')
         in if (cols = [] \<or> cols = ''*'') \<and> length (dict_get parents x []) = 1
                \<and> length (dict_get children x []) = 1
            then remove_node id2 edges x
            else (id2, edges))
      else (id2, edges))"

definition fuse_node ::
  "(string, string list) dict \<Rightarrow> (string, string list) dict
   \<Rightarrow> (string, node) dict \<times> edge list \<Rightarrow> string \<Rightarrow> (string, node) dict \<times> edge list" where
  "fuse_node parents children st x =
     (case st of (id2, edges) \<Rightarrow>
        (case map_of id2 x of
           None \<Rightarrow> (id2, edges)
         | Some n \<Rightarrow>
             (case select_select_rule parents x n id2 edges of
                Continue id2 edges \<Rightarrow> (id2, edges)
              | Next n id2 edges \<Rightarrow>
                  (case filter_filter_rule parents x n id2 edges of
                     Continue id2 edges \<Rightarrow> (id2, edges)
                   | Next n id2 edges \<Rightarrow> identity_select_rule parents children x n id2 edges))))"

text \<open>The last loop: the edges between kept nodes, one for each pair (source, target).\<close>

fun unique_edges ::
  "edge list \<Rightarrow> string set \<Rightarrow> (string \<times> string) set \<Rightarrow> edge list \<Rightarrow> edge list" where
  "unique_edges [] keep_ids seen uniq = uniq"
| "unique_edges (e # es) keep_ids seen uniq =
     (if (source e, target e) \<notin> seen \<and> source e \<in> keep_ids \<and> target e \<in> keep_ids
      then unique_edges es keep_ids (insert (source e, target e) seen) (uniq @ [e])
      else unique_edges es keep_ids seen uniq)"

definition combine_redundant :: "node list \<Rightarrow> edge list \<Rightarrow> error + node list \<times> edge list" where
  "combine_redundant nodes edges =
     (let id2 = fold (\<lambda>n d. AList.update (nid n) n d) nodes []
      in case topo nodes edges of
           Inl err \<Rightarrow> Inl err
         | Inr order \<Rightarrow>
             (let parents = parents_of edges;
                  children = children_of edges
              in case fold (\<lambda>x st. fuse_node parents children st x) order (id2, edges) of
                   (id2, edges) \<Rightarrow>
                     (let keep_ids = set (map fst id2);
                          nodes_out = [the (map_of id2 i). i \<leftarrow> order, i \<in> keep_ids]
                      in Inr (nodes_out, unique_edges edges keep_ids {} []))))"

definition optimize ::
  "node list \<Rightarrow> edge list \<Rightarrow> string option \<Rightarrow> error + node list \<times> edge list" where
  "optimize nodes edges target_id =
     (case prune_dead nodes edges target_id of (n1, e1) \<Rightarrow> combine_redundant n1 e1)"

section \<open>Backend lowering of join and sample nodes (server.py)\<close>

text \<open>
  \<open>xs[i]\<close> raises \<open>IndexError\<close> out of range. \<open>bind_err\<close> passes the first error
  on, as an exception does; \<open>collect\<close> evaluates the elements of a list comprehension
  from left to right.
\<close>

definition index :: "'a list \<Rightarrow> nat \<Rightarrow> error + 'a" where
  "index xs i = (if i < length xs then Inr (xs ! i) else Inl IndexError)"

definition bind_err :: "error + 'a \<Rightarrow> ('a \<Rightarrow> error + 'b) \<Rightarrow> error + 'b" where
  "bind_err m f = (case m of Inl e \<Rightarrow> Inl e | Inr x \<Rightarrow> f x)"

fun collect :: "(error + 'a) list \<Rightarrow> error + 'a list" where
  "collect [] = Inr []"
| "collect (m # ms) =
     (case m of
        Inl e \<Rightarrow> Inl e
      | Inr x \<Rightarrow> (case collect ms of Inl e \<Rightarrow> Inl e | Inr xs \<Rightarrow> Inr (x # xs)))"

definition upper_char :: "char \<Rightarrow> char" where
  "upper_char c = (if is_lower c then char_of (ord c - 32) else c)"

definition upper :: "string \<Rightarrow> string" where
  "upper s = map upper_char s"

text \<open>
  \<open>json.dumps\<close> of a string and of a list of strings: the backslash, the double quote
  and the control characters are escaped, and every other character outside the
  printable ASCII range is written \<open>\u00XX\<close>.
\<close>

definition json_char :: "char \<Rightarrow> string" where
  "json_char c =
     (if c = CHR 0x22 then [CHR 0x5C, CHR 0x22]
      else if c = CHR 0x5C then [CHR 0x5C, CHR 0x5C]
      else if c = CHR 0x0A then [CHR 0x5C, CHR ''n'']
      else if c = CHR 0x0D then [CHR 0x5C, CHR ''r'']
      else if c = CHR 0x09 then [CHR 0x5C, CHR ''t'']
      else if c = CHR 0x08 then [CHR 0x5C, CHR ''b'']
      else if c = CHR 0x0C then [CHR 0x5C, CHR ''f'']
      else if ord c < 32 \<or> 126 < ord c
        then [CHR 0x5C, CHR ''u'', CHR ''0'', CHR ''0'',
              hex_digit (ord c div 16), hex_digit (ord c mod 16)]
      else [c])"

definition json_str :: "string \<Rightarrow> string" where
  "json_str s = [CHR 0x22] @ concat (map json_char s) @ [CHR 0x22]"

definition json_list :: "string list \<Rightarrow> string" where
  "json_list xs = ''['' @ join '', '' (map json_str xs) @ '']''"

definition quote_ident :: "string \<Rightarrow> string" where
  "quote_ident c =
     (if [ch \<leftarrow> c. ch \<noteq> CHR ''_''] \<noteq> [] \<and> list_all isalnum [ch \<leftarrow> c. ch \<noteq> CHR ''_'']
         \<and> \<not> is_digit (hd c)
      then c
      else [CHR 0x22] @ concat (map (\<lambda>ch. if ch = CHR 0x22 then [CHR 0x22, CHR 0x22] else [ch]) c)
             @ [CHR 0x22])"

text \<open>
  The \<open>transform.join\<close> branch of \<open>gen_sql\<close>: \<open>alias\<close> is the name of the node and
  \<open>p\<close> the names of its parents. The result is the text appended to \<open>ctes\<close>.
\<close>

definition gen_sql_on_expr :: "string list \<Rightarrow> string list \<Rightarrow> error + string" where
  "gen_sql_on_expr lk rk =
     bind_err
       (collect
          (map (\<lambda>i. bind_err (index lk i) (\<lambda>l.
                      bind_err (index rk (if i < length rk then i else 0)) (\<lambda>r.
                      Inr (l @ '' = '' @ r))))
               [0..<length lk]))
       (\<lambda>parts. Inr (join '' AND '' parts))"

definition gen_sql_join :: "string \<Rightarrow> string list \<Rightarrow> node \<Rightarrow> error + string" where
  "gen_sql_join alias p n =
     (let hw = upper (or_else (how (data n)) ''INNER'');
          lk = map quote_ident (comma_list (or_else (left_on (data n)) ''id''));
          rk = map quote_ident (comma_list (or_else (right_on (data n)) ''id''))
      in bind_err (gen_sql_on_expr lk rk) (\<lambda>on_expr.
         bind_err (index p 0) (\<lambda>p0.
         bind_err (index p 1) (\<lambda>p1.
         Inr (alias @ '' AS ('' @ [CHR 0x0A] @ ''  SELECT *'' @ [CHR 0x0A]
              @ ''  FROM '' @ p0 @ [CHR 0x0A]
              @ ''  '' @ hw @ '' JOIN '' @ p1 @ [CHR 0x0A]
              @ ''    ON '' @ on_expr @ [CHR 0x0A] @ '')'')))))"

text \<open>The \<open>transform.join\<close> branch of \<open>gen_spark\<close>: the line appended to \<open>L\<close>.\<close>

definition gen_spark_cond :: "string list \<Rightarrow> string list \<Rightarrow> string list \<Rightarrow> error + string" where
  "gen_spark_cond ps lk rk =
     bind_err
       (collect
          (map (\<lambda>i. bind_err (index ps 0) (\<lambda>p0.
                      bind_err (index lk i) (\<lambda>l.
                      bind_err (index ps 1) (\<lambda>p1.
                      bind_err (index rk (if i < length rk then i else 0)) (\<lambda>r.
                      Inr (p0 @ ''.'' @ l @ '' == '' @ p1 @ ''.'' @ r))))))
               [0..<length lk]))
       (\<lambda>parts. Inr (join '' & '' parts))"

definition gen_spark_join :: "string \<Rightarrow> string list \<Rightarrow> node \<Rightarrow> error + string" where
  "gen_spark_join v ps n =
     (let hw = or_else (how (data n)) ''inner'';
          lk = comma_list (or_else (left_on (data n)) ''id'');
          rk = comma_list (or_else (right_on (data n)) ''id'')
      in bind_err (gen_spark_cond ps lk rk) (\<lambda>cond.
         bind_err (index ps 0) (\<lambda>p0.
         bind_err (index ps 1) (\<lambda>p1.
         Inr (v @ '' = '' @ p0 @ ''.join('' @ p1 @ '', on=('' @ cond @ ''), how='' @ [CHR 0x27]
              @ hw @ [CHR 0x27] @ '')'')))))"

text \<open>The \<open>transform.join\<close> branch of \<open>gen_python\<close>: the two lines added to \<open>L\<close>.\<close>

definition gen_python_key_arg :: "string list \<Rightarrow> error + string" where
  "gen_python_key_arg ks =
     (if 1 < length ks then Inr (json_list ks)
      else bind_err (index ks 0) (\<lambda>k. Inr (json_str k)))"

definition gen_python_join :: "string \<Rightarrow> string list \<Rightarrow> node \<Rightarrow> error + string list" where
  "gen_python_join v ps n =
     (let hw = or_else (how (data n)) ''inner'';
          Lk = comma_list (or_else (left_on (data n)) ''id'');
          Rk = comma_list (or_else (right_on (data n)) ''id'')
      in bind_err (gen_python_key_arg Lk) (\<lambda>left_arg.
         bind_err (gen_python_key_arg Rk) (\<lambda>right_arg.
         bind_err (index ps 0) (\<lambda>p0.
         bind_err (index ps 1) (\<lambda>p1.
         Inr [v @ '' = '' @ p0 @ ''.merge('' @ p1 @ '', how='' @ json_str hw
                @ '', left_on='' @ left_arg @ '', right_on='' @ right_arg @ '')'',
              ''''])))))"

text \<open>
  The \<open>transform.sample\<close> branches. \<open>int(n.data.n or 100)\<close> is \<open>sample_size\<close> (no
  number and the number 0 both give 100) and \<open>float(n.data.frac or 0.1)\<close> is
  \<open>sample_frac\<close>; both are evaluated before the f-string that reads \<open>ps[0]\<close>.
\<close>

definition sample_size :: "conversions \<Rightarrow> node \<Rightarrow> error + int" where
  "sample_size cv n = py_int cv (or_any (sample_n (data n)) (PyInt 100))"

definition sample_frac :: "conversions \<Rightarrow> node \<Rightarrow> error + pyfloat" where
  "sample_frac cv n = py_float cv (or_any (frac (data n)) (PyFloat ''0.1''))"

definition gen_python_sample ::
  "conversions \<Rightarrow> string \<Rightarrow> string list \<Rightarrow> node \<Rightarrow> error + string list" where
  "gen_python_sample cv v ps n =
     (if or_else (mode (data n)) ''rows'' = ''fraction'' then
        bind_err (sample_frac cv n) (\<lambda>f.
        bind_err (index ps 0) (\<lambda>p0.
        Inr [v @ '' = '' @ p0 @ ''.sample(frac='' @ f @ '', random_state=None)'', '''']))
      else
        bind_err (sample_size cv n) (\<lambda>N.
        bind_err (index ps 0) (\<lambda>p0.
        Inr [v @ '' = '' @ p0 @ ''.sample(n='' @ str_int N @ '', random_state=None)'', ''''])))"

definition gen_sql_sample ::
  "conversions \<Rightarrow> string \<Rightarrow> string list \<Rightarrow> node \<Rightarrow> error + string" where
  "gen_sql_sample cv alias p n =
     (if or_else (mode (data n)) ''rows'' = ''fraction'' then
        bind_err (sample_frac cv n) (\<lambda>f.
        bind_err (index p 0) (\<lambda>p0.
        Inr (alias @ '' AS (SELECT * FROM '' @ p0 @ '' WHERE random() < '' @ f @ '')'')))
      else
        bind_err (sample_size cv n) (\<lambda>N.
        bind_err (index p 0) (\<lambda>p0.
        Inr (alias @ '' AS (SELECT * FROM '' @ p0 @ '' USING SAMPLE '' @ str_int N @ '' ROWS)''))))"

definition gen_spark_sample ::
  "conversions \<Rightarrow> string \<Rightarrow> string list \<Rightarrow> node \<Rightarrow> error + string list" where
  "gen_spark_sample cv v ps n =
     (if or_else (mode (data n)) ''rows'' = ''fraction'' then
        bind_err (sample_frac cv n) (\<lambda>f.
        bind_err (index ps 0) (\<lambda>p0.
        Inr [v @ '' = '' @ p0 @ ''.sample('' @ f @ '')'']))
      else
        bind_err (sample_size cv n) (\<lambda>N.
        bind_err (index ps 0) (\<lambda>p0.
        Inr [''__cnt = '' @ p0 @ ''.count()'',
             v @ '' = '' @ p0 @ ''.limit(min('' @ str_int N @ '', __cnt))''])))"

text \<open>
  The interpreter (\<open>exec_workflow_pandas\<close>) asks pandas for
  \<open>min(N, len(ps[0]))\<close> rows in the rows mode.
\<close>

definition exec_sample_rows :: "int \<Rightarrow> int \<Rightarrow> int" where
  "exec_sample_rows N len_p0 = min N len_p0"

section \<open>Ground-truth interpreter (server.py: \<open>exec_workflow_pandas\<close>)\<close>

text \<open>
  A table has a number of rows and named columns of that many cells, in order;
  \<open>pd.DataFrame()\<close> is the table with no row and no column. What pandas computes is
  not modelled: every pandas call of the interpreter is a field of \<open>engine\<close>, a function
  that returns a table or raises; \<open>builtins\<close> holds the conversions of \<open>int\<close> and
  \<open>float\<close>. \<open>df[new_col] = None\<close> is modelled in full: the column becomes one null per
  row, in its place if it exists and at the end if not.
\<close>

datatype cell = Null | Val string

record table =
  nrows :: nat
  cols :: "(string, cell list) dict"

definition empty_table :: table where
  "empty_table = \<lparr> nrows = 0, cols = [] \<rparr>"

definition fill_nulls :: "string \<Rightarrow> table \<Rightarrow> table" where
  "fill_nulls new_col df = df\<lparr>cols := AList.update new_col (replicate (nrows df) Null) (cols df)\<rparr>"

datatype key_arg = Key string | Keys "string list"

record engine =
  pd_read_csv_text :: "string \<Rightarrow> error + table"
  os_path_exists :: "string \<Rightarrow> bool"
  pd_read_csv_path :: "string \<Rightarrow> error + table"
  pd_getitem :: "table \<Rightarrow> string list \<Rightarrow> error + table"
  pd_cast :: "table \<Rightarrow> string \<Rightarrow> string \<Rightarrow> error + table"
  pd_query :: "table \<Rightarrow> string \<Rightarrow> error + table"
  pd_summarize :: "table \<Rightarrow> string list \<Rightarrow> (string, string) dict list \<Rightarrow> error + table"
  pd_eval_assign :: "table \<Rightarrow> string \<Rightarrow> string \<Rightarrow> error + table"
  pd_sort_values :: "table \<Rightarrow> string list \<Rightarrow> bool list \<Rightarrow> error + table"
  pd_sample_frac :: "table \<Rightarrow> pyfloat \<Rightarrow> error + table"
  pd_sample_n :: "table \<Rightarrow> int \<Rightarrow> error + table"
  pd_merge :: "table \<Rightarrow> table \<Rightarrow> string \<Rightarrow> key_arg \<Rightarrow> key_arg \<Rightarrow> error + table"
  pd_to_csv :: "table \<Rightarrow> string \<Rightarrow> error + unit"
  builtins :: conversions

text \<open>\<open>type(e).__name__\<close> and \<open>str(e)\<close> of an exception.\<close>

fun error_name :: "error \<Rightarrow> string" where
  "error_name (KeyError k) = ''KeyError''"
| "error_name IndexError = ''IndexError''"
| "error_name (Raised name msg) = name"

fun error_str :: "error \<Rightarrow> string" where
  "error_str (KeyError k) = repr_str k"
| "error_str IndexError = ''list index out of range''"
| "error_str (Raised name msg) = msg"

definition endswith :: "string \<Rightarrow> string \<Rightarrow> bool" where
  "endswith s suf = (length suf \<le> length s \<and> drop (length s - length suf) s = suf)"

text \<open>\<open>p.split()[0]\<close> for a stripped, non-empty \<open>p\<close>.\<close>

definition first_word :: "string \<Rightarrow> string" where
  "first_word p = takeWhile (\<lambda>c. \<not> is_space c) p"

definition key_of :: "string list \<Rightarrow> error + key_arg" where
  "key_of ks = (if 1 < length ks then Inr (Keys ks) else bind_err (index ks 0) (\<lambda>k. Inr (Key k)))"

text \<open>The loop over \<open>schema\<close> in the select branch.\<close>

fun cast_schema :: "engine \<Rightarrow> (string, string) dict list \<Rightarrow> table \<Rightarrow> error + table" where
  "cast_schema eng [] df = Inr df"
| "cast_schema eng (s # ss) df =
     (let name = strip (or_else (map_of s ''name'') []);
          dt = lower (strip (or_else (map_of s ''dtype'') ''string''))
      in if name = [] \<or> name \<notin> set (map fst (cols df)) then cast_schema eng ss df
         else bind_err (pd_cast eng df name dt) (\<lambda>df'. cast_schema eng ss df'))"

text \<open>
  The body of the outer \<open>try\<close> for one node: the table stored in \<open>frames[nid]\<close> and the
  message the filter and formula branches store in \<open>node_errors[nid]\<close> themselves, or the
  exception that reaches the outer \<open>except\<close>.
\<close>

definition eval_node ::
  "engine \<Rightarrow> table list \<Rightarrow> string \<Rightarrow> node \<Rightarrow> error + table \<times> string option" where
  "eval_node eng ps x n =
     (let t = ntype (data n) in
      if t = ''source.csv'' then
        (let file_text = fileText (data n);
             file_path = strip (or_else (path (data n)) [])
         in if or_else file_text [] \<noteq> [] \<and> strip (or_else file_text []) \<noteq> [] then
              bind_err (pd_read_csv_text eng (or_else file_text [])) (\<lambda>df. Inr (df, None))
            else if file_path \<noteq> [] \<and> os_path_exists eng file_path then
              bind_err (pd_read_csv_path eng file_path) (\<lambda>df. Inr (df, None))
            else Inl (Raised ''FileNotFoundError''
                       (''CSV Source '' @ [CHR 0x27] @ or_else (label (data n)) x @ [CHR 0x27]
                        @ '' has no uploaded data or readable path.'')))
      else if t = ''transform.select'' then
        (let cols_str = strip (or_else (columns (data n)) ''*'')
         in bind_err (index ps 0) (\<lambda>p0.
            bind_err (if cols_str = [] \<or> cols_str = ''*'' then Inr p0
                      else pd_getitem eng p0 (comma_list cols_str)) (\<lambda>df.
            bind_err (cast_schema eng (schema (data n)) df) (\<lambda>df. Inr (df, None)))))
      else if t = ''transform.filter'' then
        (let ex = or_else (expr (data n)) ''True''
         in bind_err (index ps 0) (\<lambda>p0.
            case pd_query eng p0 ex of
              Inr df \<Rightarrow> Inr (df, None)
            | Inl e \<Rightarrow>
                Inr (p0, Some (''Filter expression failed; returned input unchanged. expr=''
                               @ [CHR 0x27] @ ex @ [CHR 0x27]))))
      else if t = ''transform.summarize'' then
        (let by = comma_list (or_else (groupBy (data n)) [])
         in bind_err (index ps 0) (\<lambda>p0.
            bind_err (pd_summarize eng p0 by (measures (data n))) (\<lambda>df. Inr (df, None))))
      else if t = ''transform.formula'' then
        (let new_col = or_else (newCol (data n)) ''new_column'';
             ex = or_else (expr (data n)) ''0''
         in bind_err (index ps 0) (\<lambda>p0.
            case pd_eval_assign eng p0 new_col ex of
              Inr df \<Rightarrow> Inr (df, None)
            | Inl e \<Rightarrow>
                Inr (fill_nulls new_col p0,
                     Some (''Formula evaluation failed; filled '' @ [CHR 0x27] @ new_col
                           @ [CHR 0x27] @ '' with nulls. expr='' @ [CHR 0x27] @ ex @ [CHR 0x27]))))
      else if t = ''transform.sort'' then
        (let spec = strip (or_else (sortSpec (data n)) [])
         in if spec = [] then bind_err (index ps 0) (\<lambda>p0. Inr (p0, None))
            else
              (let pieces = comma_list spec;
                   cs = map first_word pieces;
                   ascending = map (\<lambda>p. \<not> endswith (lower p) ''desc'') pieces
               in bind_err (index ps 0) (\<lambda>p0.
                  bind_err (pd_sort_values eng p0 cs ascending) (\<lambda>df. Inr (df, None)))))
      else if t = ''transform.sample'' then
        (if or_else (mode (data n)) ''rows'' = ''fraction'' then
           bind_err (sample_frac (builtins eng) n) (\<lambda>f.
           bind_err (index ps 0) (\<lambda>p0.
           bind_err (pd_sample_frac eng p0 f) (\<lambda>df. Inr (df, None))))
         else
           bind_err (sample_size (builtins eng) n) (\<lambda>N.
           bind_err (index ps 0) (\<lambda>p0.
           bind_err (pd_sample_n eng p0 (exec_sample_rows N (int (nrows p0)))) (\<lambda>df.
           Inr (df, None)))))
      else if t = ''transform.join'' then
        (let hw = or_else (how (data n)) ''inner'';
             Lk = comma_list (or_else (left_on (data n)) ''id'');
             Rk = comma_list (or_else (right_on (data n)) ''id'')
         in bind_err (index ps 0) (\<lambda>p0.
            bind_err (index ps 1) (\<lambda>p1.
            bind_err (key_of Lk) (\<lambda>lkey.
            bind_err (key_of Rk) (\<lambda>rkey.
            bind_err (pd_merge eng p0 p1 hw lkey rkey) (\<lambda>df. Inr (df, None)))))))
      else if t = ''sink.csv'' then
        (let outp = or_else (path (data n)) ''out.csv''
         in bind_err (index ps 0) (\<lambda>p0.
            bind_err (pd_to_csv eng p0 outp) (\<lambda>u. Inr (p0, None))))
      else Inr (if ps \<noteq> [] then hd ps else empty_table, None))"

text \<open>
  One round of \<open>for nid in order\<close>. \<open>id2[nid]\<close> stands before the \<open>try\<close>: a missing
  node ends the whole run with \<open>KeyError\<close>. Everything else is caught by the outer
  \<open>except\<close>, which stores the message and the empty table.
\<close>

definition exec_node ::
  "engine \<Rightarrow> (string, node) dict \<Rightarrow> (string, string list) dict
   \<Rightarrow> (string, table) dict \<times> (string, string) dict \<Rightarrow> string
   \<Rightarrow> error + (string, table) dict \<times> (string, string) dict" where
  "exec_node eng id2 parents st x =
     (case st of (frames, node_errors) \<Rightarrow>
        (case map_of id2 x of
           None \<Rightarrow> Inl (KeyError x)
         | Some n \<Rightarrow>
             (case bind_err
                     (case map_of parents x of
                        None \<Rightarrow> Inl (KeyError x)
                      | Some pids \<Rightarrow> Inr (map (\<lambda>p. dict_get frames p empty_table) pids))
                     (\<lambda>ps. eval_node eng ps x n) of
                Inr (df, None) \<Rightarrow> Inr (AList.update x df frames, node_errors)
              | Inr (df, Some msg) \<Rightarrow>
                  Inr (AList.update x df frames, AList.update x msg node_errors)
              | Inl e \<Rightarrow>
                  Inr (AList.update x empty_table frames,
                       AList.update x (error_name e @ '': '' @ error_str e) node_errors))))"

fun exec_loop ::
  "engine \<Rightarrow> (string, node) dict \<Rightarrow> (string, string list) dict \<Rightarrow> string list
   \<Rightarrow> (string, table) dict \<times> (string, string) dict
   \<Rightarrow> error + (string, table) dict \<times> (string, string) dict" where
  "exec_loop eng id2 parents [] st = Inr st"
| "exec_loop eng id2 parents (x # order) st =
     bind_err (exec_node eng id2 parents st x) (\<lambda>st'. exec_loop eng id2 parents order st')"

definition exec_workflow_pandas ::
  "engine \<Rightarrow> node list \<Rightarrow> edge list \<Rightarrow> string option
   \<Rightarrow> error + table \<times> (string, string) dict" where
  "exec_workflow_pandas eng nodes edges preview_id =
     bind_err (subgraph_up_to nodes edges preview_id) (\<lambda>(n2, e2).
     bind_err (topo_sort n2 e2) (\<lambda>order.
     let id2 = fold (\<lambda>n d. AList.update (nid n) n d) n2 [] in
     bind_err (subgraph_preds e2 (fold (\<lambda>n d. AList.update (nid n) [] d) n2 [])) (\<lambda>parents.
     bind_err (exec_loop eng id2 parents order ([], [])) (\<lambda>(frames, node_errors).
     if order \<noteq> [] then
       (case map_of frames (last order) of
          None \<Rightarrow> Inl (KeyError (last order))
        | Some df \<Rightarrow> Inr (df, node_errors))
     else Inr (empty_table, node_errors)))))"

section \<open>Vocabulary of the properties\<close>

text \<open>
  The edges as a relation, the node ids, and what a well-formed graph is: the ids are
  unique and every edge joins two nodes of the graph.
\<close>

definition edge_rel :: "edge list \<Rightarrow> (string \<times> string) set" where
  "edge_rel es = set (map (\<lambda>e. (source e, target e)) es)"

definition ids_of :: "node list \<Rightarrow> string list" where
  "ids_of nodes = map nid nodes"

definition closed_edges :: "node list \<Rightarrow> edge list \<Rightarrow> bool" where
  "closed_edges nodes es = list_all (\<lambda>e. source e \<in> set (ids_of nodes) \<and> target e \<in> set (ids_of nodes)) es"

text \<open>Nodes and edges of the examples: a node with an id and a type, an edge \<open>s \<rightarrow> t\<close>.\<close>

definition plain_node :: "string \<Rightarrow> string \<Rightarrow> node" where
  "plain_node i t =
     \<lparr> nid = i,
       data = \<lparr> label = None, ntype = t, path = None, fileText = None, columns = None,
                expr = None, groupBy = None, newCol = None, sortSpec = None, mode = None,
                sample_n = None, frac = None, how = None, left_on = None, right_on = None,
                schema = [], measures = [] \<rparr> \<rparr>"

definition link :: "string \<Rightarrow> string \<Rightarrow> edge" where
  "link s t = \<lparr> eid = None, source = s, target = t \<rparr>"

text \<open>\<open>precedes xs s t\<close>: \<open>t\<close> occurs in \<open>xs\<close> after the first \<open>s\<close>.\<close>

fun precedes :: "'a list \<Rightarrow> 'a \<Rightarrow> 'a \<Rightarrow> bool" where
  "precedes [] s t = False"
| "precedes (x # xs) s t = (if x = s then t \<in> set xs else precedes xs s t)"

text \<open>
  The number of edges into \<open>v\<close> whose source is outside \<open>D\<close>, and the invariant of the
  \<open>while\<close> loop of Kahn's algorithm: the counters are these numbers for the nodes
  already put out, the nodes put out or queued are those whose number is zero, and every
  edge into a node put out starts at a node put out before it.
\<close>

definition indeg :: "edge list \<Rightarrow> string set \<Rightarrow> string \<Rightarrow> int" where
  "indeg es D v = int (length [e \<leftarrow> es. target e = v \<and> source e \<notin> D])"

definition kahn_inv ::
  "string list \<Rightarrow> edge list \<Rightarrow> (string, int) dict \<Rightarrow> string list \<Rightarrow> string list \<Rightarrow> bool" where
  "kahn_inv ids es inc q out =
     (distinct (out @ q) \<and> set (out @ q) \<subseteq> set ids
      \<and> (\<forall>v. map_of inc v = (if v \<in> set ids then Some (indeg es (set out) v) else None))
      \<and> (\<forall>v \<in> set ids. (v \<in> set (out @ q)) = (indeg es (set out) v = 0))
      \<and> (\<forall>e \<in> set es. target e \<in> set out \<longrightarrow> precedes out (source e) (target e)))"

text \<open>\<open>ancestorsOf\<close>: the nodes from which the target is reached along edges, itself included.\<close>

definition ancestorsOf :: "string \<Rightarrow> edge list \<Rightarrow> string set" where
  "ancestorsOf t es = {v. (v, t) \<in> (edge_rel es)\<^sup>*}"


text \<open>Select and filter nodes of the examples, and the dict \<open>{n["id"]: n for n in nodes}\<close>.\<close>

definition select_node :: "string \<Rightarrow> string \<Rightarrow> node" where
  "select_node i c = set_columns (plain_node i ''transform.select'') c"

definition filter_node :: "string \<Rightarrow> string \<Rightarrow> node" where
  "filter_node i x = set_expr (plain_node i ''transform.filter'') x"

definition id_map :: "node list \<Rightarrow> (string, node) dict" where
  "id_map nodes = fold (\<lambda>n d. AList.update (nid n) n d) nodes []"




definition chain_edges :: "edge list" where
  "chain_edges = [link ''L'' ''P'', link ''P'' ''N'', link ''N'' ''S'']"

definition chain_selects :: "node list" where
  "chain_selects =
     [plain_node ''L'' ''source.csv'', select_node ''P'' ''a,b'', select_node ''N'' ''b,c'',
      plain_node ''S'' ''sink.csv'']"

definition leaf_edges :: "edge list" where
  "leaf_edges = [link ''L'' ''P'', link ''P'' ''N'']"

definition leaf_selects :: "node list" where
  "leaf_selects =
     [plain_node ''L'' ''source.csv'', select_node ''P'' ''a,b'', select_node ''N'' ''b,c'']"




text \<open>Join and sample nodes of the examples.\<close>

definition join_node :: "string \<Rightarrow> string \<Rightarrow> string \<Rightarrow> node" where
  "join_node i l r =
     (plain_node i ''transform.join'')
       \<lparr>data := (data (plain_node i ''transform.join''))\<lparr>left_on := Some l, right_on := Some r\<rparr>\<rparr>"

definition sample_node :: "string \<Rightarrow> int \<Rightarrow> node" where
  "sample_node i k =
     (plain_node i ''transform.sample'')
       \<lparr>data := (data (plain_node i ''transform.sample''))\<lparr>mode := Some ''rows'', sample_n := Some (PyInt k)\<rparr>\<rparr>"

text \<open>
  A pandas that refuses every call with \<open>ValueError: bad\<close>, tables of three and of two
  rows, and a formula node.
\<close>

definition failing_engine :: engine where
  "failing_engine =
     \<lparr> pd_read_csv_text = (\<lambda>t. Inl (Raised ''ValueError'' ''bad'')),
       os_path_exists = (\<lambda>p. False),
       pd_read_csv_path = (\<lambda>p. Inl (Raised ''ValueError'' ''bad'')),
       pd_getitem = (\<lambda>df c. Inl (Raised ''ValueError'' ''bad'')),
       pd_cast = (\<lambda>df c d. Inl (Raised ''ValueError'' ''bad'')),
       pd_query = (\<lambda>df e. Inl (Raised ''ValueError'' ''bad'')),
       pd_summarize = (\<lambda>df b m. Inl (Raised ''ValueError'' ''bad'')),
       pd_eval_assign = (\<lambda>df c e. Inl (Raised ''ValueError'' ''bad'')),
       pd_sort_values = (\<lambda>df c a. Inl (Raised ''ValueError'' ''bad'')),
       pd_sample_frac = (\<lambda>df f. Inl (Raised ''ValueError'' ''bad'')),
       pd_sample_n = (\<lambda>df k. Inl (Raised ''ValueError'' ''bad'')),
       pd_merge = (\<lambda>l r h lk rk. Inl (Raised ''ValueError'' ''bad'')),
       pd_to_csv = (\<lambda>df p. Inl (Raised ''ValueError'' ''bad'')),
       builtins = \<lparr> int_of_other = (\<lambda>v. Inl (Raised ''ValueError'' ''bad'')),
                    float_of_other = (\<lambda>v. Inl (Raised ''ValueError'' ''bad'')) \<rparr> \<rparr>"

definition three_rows :: table where
  "three_rows = \<lparr> nrows = 3, cols = [(''a'', [Val ''1'', Val ''2'', Val ''3''])] \<rparr>"

definition two_rows :: table where
  "two_rows = \<lparr> nrows = 2, cols = [(''a'', [Val ''1'', Val ''2''])] \<rparr>"

definition formula_node :: "string \<Rightarrow> string \<Rightarrow> string \<Rightarrow> node" where
  "formula_node i c x =
     (plain_node i ''transform.formula'')
       \<lparr>data := (data (plain_node i ''transform.formula''))\<lparr>newCol := Some c, expr := Some x\<rparr>\<rparr>"

text \<open>
  \<open>visits\<close>: a run of the interpreter's loop over the order \<open>pre @ x # post\<close>, where
  \<open>before\<close> is the state (\<open>frames\<close>, \<open>node_errors\<close>) in which the round of \<open>x\<close> starts
  and \<open>final\<close> the state after the last round.
\<close>

definition visits ::
  "engine \<Rightarrow> (string, node) dict \<Rightarrow> (string, string list) dict
   \<Rightarrow> string list \<Rightarrow> string \<Rightarrow> string list
   \<Rightarrow> (string, table) dict \<times> (string, string) dict
   \<Rightarrow> (string, table) dict \<times> (string, string) dict \<Rightarrow> bool" where
  "visits eng id2 parents pre x post before final =
     (distinct (pre @ x # post)
      \<and> exec_loop eng id2 parents pre ([], []) = Inr before
      \<and> exec_loop eng id2 parents (pre @ x # post) ([], []) = Inr final)"

text \<open>
  Nodes of the examples of the interpreter: a source with a path, a sort, a select with
  one schema entry, a sample node with all three fields. \<open>demo_engine\<close> reads two rows
  from \<open>in.csv\<close> and refuses every other call, and every conversion, with
  \<open>ValueError: bad\<close>.
\<close>

definition source_node :: "string \<Rightarrow> string \<Rightarrow> node" where
  "source_node i p =
     (plain_node i ''source.csv'')\<lparr>data := (data (plain_node i ''source.csv''))\<lparr>path := Some p\<rparr>\<rparr>"

definition sort_node :: "string \<Rightarrow> string \<Rightarrow> node" where
  "sort_node i sp =
     (plain_node i ''transform.sort'')
       \<lparr>data := (data (plain_node i ''transform.sort''))\<lparr>sortSpec := Some sp\<rparr>\<rparr>"

definition cast_node :: "string \<Rightarrow> string \<Rightarrow> string \<Rightarrow> node" where
  "cast_node i c dt =
     (plain_node i ''transform.select'')
       \<lparr>data := (data (plain_node i ''transform.select''))
                  \<lparr>schema := [[(''name'', c), (''dtype'', dt)]]\<rparr>\<rparr>"

definition any_sample_node :: "string \<Rightarrow> string \<Rightarrow> pyany \<Rightarrow> pyany \<Rightarrow> node" where
  "any_sample_node i m k f =
     (plain_node i ''transform.sample'')
       \<lparr>data := (data (plain_node i ''transform.sample''))
                  \<lparr>mode := Some m, sample_n := Some k, frac := Some f\<rparr>\<rparr>"

definition demo_engine :: engine where
  "demo_engine =
     failing_engine
       \<lparr> os_path_exists := (\<lambda>p. True),
         pd_read_csv_path :=
           (\<lambda>p. if p = ''in.csv'' then Inr two_rows else Inl (Raised ''ValueError'' ''bad'')) \<rparr>"

text \<open>
  The example run: the source \<open>L\<close> with the children \<open>S\<close> (a select of a column that
  is not there), \<open>F\<close> (a filter) and \<open>G\<close> (a formula), and two nodes without a parent,
  the filter \<open>O\<close> and the sample node \<open>Q\<close> whose \<open>n\<close> is the string \<open>abc\<close>.
  \<open>demo_frames\<close> and \<open>demo_errors\<close> are the state after the run.
\<close>

definition demo_nodes :: "node list" where
  "demo_nodes =
     [source_node ''L'' ''in.csv'', select_node ''S'' ''zz'', filter_node ''O'' ''x > 0'',
      any_sample_node ''Q'' ''rows'' (PyStr ''abc'') (PyFloat ''0.5''),
      filter_node ''F'' ''age > 1'', formula_node ''G'' ''c'' ''a + 1'']"

definition demo_edges :: "edge list" where
  "demo_edges = [link ''L'' ''S'', link ''L'' ''F'', link ''L'' ''G'']"

definition demo_parents :: "(string, string list) dict" where
  "demo_parents =
     [(''L'', []), (''S'', [''L'']), (''O'', []), (''Q'', []), (''F'', [''L'']), (''G'', [''L''])]"

definition demo_frames :: "(string, table) dict" where
  "demo_frames =
     [(''L'', two_rows), (''O'', empty_table), (''Q'', empty_table), (''S'', empty_table),
      (''F'', two_rows),
      (''G'', \<lparr> nrows = 2, cols = [(''a'', [Val ''1'', Val ''2'']), (''c'', [Null, Null])] \<rparr>)]"

definition demo_errors :: "(string, string) dict" where
  "demo_errors =
     [(''O'', ''IndexError: list index out of range''),
      (''Q'', ''ValueError: bad''),
      (''S'', ''ValueError: bad''),
      (''F'', ''Filter expression failed; returned input unchanged. expr=''
              @ [CHR 0x27] @ ''age > 1'' @ [CHR 0x27]),
      (''G'', ''Formula evaluation failed; filled '' @ [CHR 0x27] @ ''c'' @ [CHR 0x27]
              @ '' with nulls. expr='' @ [CHR 0x27] @ ''a + 1'' @ [CHR 0x27])]"

section \<open>Properties of the signature comparison\<close>

text \<open>
  Claim C2. \<open>compare_signatures\<close> answers \<open>True\<close> exactly when the column lists (names
  and order), the row counts and the sample hashes of the two signatures are equal. The
  dtype lists take no part: replacing them on either side changes neither the verdict nor
  the reason. On a mismatch the reason names the first dimension that differs, in the
  order columns, row count, sample hash.
\<close>

theorem compare_signatures_spec:
  "fst (compare_signatures a b) =
     (sig_columns a = sig_columns b \<and> sig_rows a = sig_rows b
      \<and> sig_sample_md5 a = sig_sample_md5 b)
   \<and> compare_signatures (a\<lparr>sig_dtypes := da\<rparr>) (b\<lparr>sig_dtypes := db\<rparr>) = compare_signatures a b
   \<and> snd (compare_signatures a b) =
       (if sig_columns a \<noteq> sig_columns b then
          ''Columns differ.'' @ [CHR 0x0A] @ ''A: '' @ str_list (sig_columns a)
            @ [CHR 0x0A] @ ''B: '' @ str_list (sig_columns b)
        else if sig_rows a \<noteq> sig_rows b then
          ''Row count differs. A='' @ str_int (sig_rows a) @ '' B='' @ str_int (sig_rows b)
        else if sig_sample_md5 a \<noteq> sig_sample_md5 b then
          ''Sample hash differs (first rows content mismatch).''
        else ''Match.'')"
  by (simp add: compare_signatures_def)

text \<open>
  \<open>compare_meta\<close> of validator.py is a different comparison, of metadata snapshots that
  hold no sample hash; server.py does not call it. Its \<open>exact_match\<close> does read the
  dtype lists.
\<close>

lemma compare_meta_exact_match:
  "exact_match (compare_meta a b) =
     (meta_rows a = meta_rows b \<and> meta_columns a = meta_columns b \<and> meta_dtypes a = meta_dtypes b)"
  by (simp add: compare_meta_def)

section \<open>The two topological sorts agree\<close>

lemma topo_edges_eq: "topo_edges es inc outs = topo_sort_edges es inc outs"
  by (induction es arbitrary: inc outs) (auto simp: Let_def split: option.splits)

lemma topo_visit_eq: "topo_visit ts inc q = topo_sort_visit ts inc q"
  by (induction ts arbitrary: inc q) (auto split: option.splits)

lemma topo_loop_eq: "topo_loop outs inc q out = topo_sort_loop outs inc q out"
  by (induction outs inc q out rule: topo_loop.induct)
     (auto simp: topo_visit_eq split: sum.splits)

lemma keys_fold_update:
  "distinct (map nid nodes) \<Longrightarrow> set (map nid nodes) \<inter> set (map fst d) = {} \<Longrightarrow>
   map fst (fold (\<lambda>n d. AList.update (nid n) v d) nodes d) = map fst d @ map nid nodes"
proof (induction nodes arbitrary: d)
  case Nil
  then show ?case by simp
next
  case (Cons a nodes)
  have "map fst (AList.update (nid a) v d) = map fst d @ [nid a]"
    using Cons.prems(2) by (auto simp: update_keys)
  moreover have "set (map nid nodes) \<inter> set (map fst (AList.update (nid a) v d)) = {}"
    using Cons.prems by (auto simp: update_keys)
  moreover have "distinct (map nid nodes)" using Cons.prems(1) by simp
  ultimately show ?case using Cons.IH [of "AList.update (nid a) v d"] by simp
qed

lemma topo_edges_keys:
  "topo_edges es inc outs = Inr (inc', outs') \<Longrightarrow>
   map fst inc = ids @ extra \<Longrightarrow> distinct (map fst inc) \<Longrightarrow>
   (\<forall>k c. k \<notin> set ids \<longrightarrow> map_of inc k = Some c \<longrightarrow> 0 < c) \<Longrightarrow>
   (\<exists>extra'. map fst inc' = ids @ extra') \<and> distinct (map fst inc') \<and>
   (\<forall>k c. k \<notin> set ids \<longrightarrow> map_of inc' k = Some c \<longrightarrow> 0 < c)"
proof (induction es arbitrary: inc outs extra)
  case Nil
  then show ?case by auto
next
  case (Cons e es)
  let ?inc = "AList.update (target e) (dict_get inc (target e) 0 + 1) inc"
  from Cons.prems(1) obtain ts where ts: "map_of outs (source e) = Some ts"
    by (cases "map_of outs (source e)") (auto simp: Let_def)
  with Cons.prems(1)
  have run: "topo_edges es ?inc (AList.update (source e) (ts @ [target e]) outs) = Inr (inc', outs')"
    by (simp add: Let_def)
  have keys: "map fst ?inc = ids @ (if target e \<in> set (map fst inc) then extra else extra @ [target e])"
    using Cons.prems(2) by (simp add: update_keys)
  have dist: "distinct (map fst ?inc)"
    using Cons.prems(3) by (rule distinct_update)
  have pos: "\<forall>k c. k \<notin> set ids \<longrightarrow> map_of ?inc k = Some c \<longrightarrow> 0 < c"
  proof (intro allI impI)
    fix k c assume k: "k \<notin> set ids" and m: "map_of ?inc k = Some c"
    show "0 < c"
    proof (cases "k = target e")
      case True
      with m have c: "c = dict_get inc (target e) 0 + 1" by (simp add: update_conv')
      show ?thesis
      proof (cases "map_of inc (target e)")
        case None
        with c show ?thesis by (simp add: dict_get_def)
      next
        case (Some c0)
        with Cons.prems(4) k True have "0 < c0" by blast
        with c Some show ?thesis by (simp add: dict_get_def)
      qed
    next
      case False
      with m have "map_of inc k = Some c" by (simp add: update_conv')
      with Cons.prems(4) k show ?thesis by blast
    qed
  qed
  from Cons.IH [OF run keys dist pos] show ?case .
qed

lemma initial_queue_eq:
  fixes inc :: "(string, int) dict"
  assumes keys: "map fst inc = map nid nodes @ extra" and dist: "distinct (map fst inc)"
    and pos: "\<forall>k c. k \<notin> set (map nid nodes) \<longrightarrow> map_of inc k = Some c \<longrightarrow> 0 < c"
  shows "[k \<leftarrow> map fst inc. map_of inc k = Some 0] =
         [nid n. n \<leftarrow> nodes, dict_get inc (nid n) 0 = 0]"
proof -
  have dom: "\<And>k. k \<in> set (map fst inc) \<Longrightarrow> \<exists>c. map_of inc k = Some c"
    by (metis map_of_eq_None_iff not_Some_eq set_map)
  have a: "[k \<leftarrow> map nid nodes. map_of inc k = Some 0] = [k \<leftarrow> map nid nodes. dict_get inc k 0 = 0]"
  proof (rule filter_cong [OF refl])
    fix k assume "k \<in> set (map nid nodes)"
    then have "k \<in> set (map fst inc)" using keys by simp
    from dom [OF this] obtain c where "map_of inc k = Some c" ..
    then show "(map_of inc k = Some 0) = (dict_get inc k 0 = 0)" by (simp add: dict_get_def)
  qed
  have b: "[k \<leftarrow> extra. map_of inc k = Some 0] = []"
  proof -
    { fix k assume k: "k \<in> set extra"
      with dist keys have "k \<notin> set (map nid nodes)" by auto
      with pos have "map_of inc k = Some 0 \<Longrightarrow> (0::int) < 0" by blast
      then have "map_of inc k \<noteq> Some 0" by auto }
    then show ?thesis by (simp add: filter_empty_conv)
  qed
  have c: "[nid n. n \<leftarrow> nodes, dict_get inc (nid n) 0 = 0] = [k \<leftarrow> map nid nodes. dict_get inc k 0 = 0]"
    by (induction nodes) auto
  show ?thesis using a b c keys by simp
qed

lemma topo_eq_topo_sort:
  assumes "distinct (map nid nodes)"
  shows "topo nodes edges = topo_sort nodes edges"
proof -
  let ?inc = "fold (\<lambda>n d. AList.update (nid n) (0::int) d) nodes []"
  let ?outs = "fold (\<lambda>n d. AList.update (nid n) ([]::string list) d) nodes []"
  have k0: "map fst ?inc = map nid nodes @ []"
    using keys_fold_update [OF assms, of "[]" "0::int"] by simp
  have d0: "distinct (map fst ?inc)" using k0 assms by simp
  have p0: "\<forall>k c. k \<notin> set (map nid nodes) \<longrightarrow> map_of ?inc k = Some c \<longrightarrow> 0 < c"
  proof (intro allI impI)
    fix k c assume "k \<notin> set (map nid nodes)" and "map_of ?inc k = Some c"
    then show "0 < c" using k0 by (metis append_Nil2 map_of_eq_None_iff option.distinct(1) set_map)
  qed
  show ?thesis
  proof (cases "topo_edges edges ?inc ?outs")
    case (Inl err)
    then show ?thesis by (simp add: topo_def topo_sort_def topo_edges_eq [symmetric])
  next
    case (Inr r)
    obtain inc' outs' where r: "r = (inc', outs')" by (cases r)
    from topo_edges_keys [OF Inr [unfolded r] k0 d0 p0]
    obtain extra' where k: "map fst inc' = map nid nodes @ extra'"
      and d: "distinct (map fst inc')"
      and p: "\<forall>k c. k \<notin> set (map nid nodes) \<longrightarrow> map_of inc' k = Some c \<longrightarrow> 0 < c" by blast
    from initial_queue_eq [OF k d p]
    show ?thesis using Inr r
      by (simp add: topo_def topo_sort_def topo_edges_eq [symmetric] topo_loop_eq [symmetric]
               split: sum.splits)
  qed
qed

section \<open>Kahn's algorithm: the invariant of the loop\<close>

lemma precedes_mem: "precedes xs s t \<Longrightarrow> s \<in> set xs \<and> t \<in> set xs"
  by (induction xs) (auto split: if_splits)

lemma precedes_append: "precedes xs s t \<Longrightarrow> precedes (xs @ ys) s t"
  by (induction xs) (auto split: if_splits)

lemma precedes_snoc: "s \<in> set xs \<Longrightarrow> precedes (xs @ [t]) s t"
  by (induction xs) auto

lemma precedes_rank:
  "distinct xs \<Longrightarrow> precedes xs s t \<Longrightarrow>
   length (dropWhile (\<lambda>x. x \<noteq> t) xs) < length (dropWhile (\<lambda>x. x \<noteq> s) xs)"
proof (induction xs)
  case Nil
  then show ?case by simp
next
  case (Cons x xs)
  show ?case
  proof (cases "x = s")
    case True
    with Cons.prems have t: "t \<in> set xs" and "x \<notin> set xs" by auto
    then have "t \<noteq> x" by auto
    moreover have "length (dropWhile (\<lambda>x. x \<noteq> t) xs) \<le> length xs"
      by (rule length_dropWhile_le)
    ultimately show ?thesis using True by simp
  next
    case False
    with Cons.prems have p: "precedes xs s t" by simp
    from precedes_mem [OF p] Cons.prems(1) have "x \<noteq> t" by auto
    with False Cons.IH p Cons.prems(1) show ?thesis by simp
  qed
qed

lemma precedes_acyclic:
  assumes "distinct xs" and "\<forall>e \<in> set es. precedes xs (source e) (target e)"
  shows "acyclic (edge_rel es)"
proof (rule acyclicI_order [where f = "\<lambda>v. length (dropWhile (\<lambda>x. x \<noteq> v) xs)"])
  fix a b assume "(a, b) \<in> edge_rel es"
  then obtain e where "e \<in> set es" "a = source e" "b = target e"
    by (auto simp: edge_rel_def)
  with assms(2) have "precedes xs a b" by auto
  from precedes_rank [OF assms(1) this]
  show "length (dropWhile (\<lambda>x. x \<noteq> b) xs) < length (dropWhile (\<lambda>x. x \<noteq> a) xs)" .
qed

lemma map_of_fold_update:
  "map_of (fold (\<lambda>n d. AList.update (nid n) x d) nodes d) =
   (\<lambda>v. if v \<in> set (map nid nodes) then Some x else map_of d v)"
  by (induction nodes arbitrary: d) (auto simp: update_conv' fun_eq_iff)

lemma topo_sort_edges_result:
  assumes "\<forall>e \<in> set es. source e \<in> dom (map_of outs) \<and> target e \<in> dom (map_of inc)"
  shows "\<exists>inc' outs'. topo_sort_edges es inc outs = Inr (inc', outs') \<and>
     map_of inc' = (\<lambda>v. map_option (\<lambda>c. c + int (length [e \<leftarrow> es. target e = v])) (map_of inc v)) \<and>
     map_of outs' = (\<lambda>v. map_option (\<lambda>ts. ts @ map target [e \<leftarrow> es. source e = v]) (map_of outs v))"
  using assms
proof (induction es arbitrary: inc outs)
  case Nil
  then show ?case by (simp add: fun_eq_iff option.map_ident)
next
  case (Cons e es)
  from Cons.prems obtain ts c where ts: "map_of outs (source e) = Some ts"
    and c: "map_of inc (target e) = Some c" by auto
  let ?inc = "AList.update (target e) (dict_get inc (target e) 0 + 1) inc"
  let ?outs = "AList.update (source e) (ts @ [target e]) outs"
  have "\<forall>e \<in> set es. source e \<in> dom (map_of ?outs) \<and> target e \<in> dom (map_of ?inc)"
    using Cons.prems by (auto simp: update_conv')
  from Cons.IH [OF this] obtain inc' outs' where
    run: "topo_sort_edges es ?inc ?outs = Inr (inc', outs')"
    and i: "map_of inc' = (\<lambda>v. map_option (\<lambda>c. c + int (length [e \<leftarrow> es. target e = v])) (map_of ?inc v))"
    and o: "map_of outs' = (\<lambda>v. map_option (\<lambda>ts. ts @ map target [e \<leftarrow> es. source e = v]) (map_of ?outs v))"
    by blast
  have "topo_sort_edges (e # es) inc outs = Inr (inc', outs')"
    using run ts by (simp add: Let_def)
  moreover have "map_of inc' = (\<lambda>v. map_option (\<lambda>c. c + int (length [e \<leftarrow> e # es. target e = v])) (map_of inc v))"
    using c by (auto simp: i update_conv' fun_eq_iff dict_get_def)
  moreover have "map_of outs' = (\<lambda>v. map_option (\<lambda>ts. ts @ map target [e \<leftarrow> e # es. source e = v]) (map_of outs v))"
    using ts by (auto simp: o update_conv' fun_eq_iff)
  ultimately show ?case by blast
qed

lemma count_list_map_filter:
  "count_list (map f xs) v = length [a \<leftarrow> xs. f a = v]"
  by (induction xs) auto

lemma topo_sort_visit_result:
  assumes "\<forall>t \<in> set ts. t \<in> dom (map_of inc)"
  shows "\<exists>inc' new. topo_sort_visit ts inc q = Inr (inc', q @ new) \<and>
     map_of inc' = (\<lambda>v. map_option (\<lambda>c. c - int (count_list ts v)) (map_of inc v)) \<and>
     distinct new \<and>
     set new = {t \<in> set ts. \<exists>c. map_of inc t = Some c \<and> 1 \<le> c \<and> c \<le> int (count_list ts t)}"
  using assms
proof (induction ts arbitrary: inc q)
  case Nil
  then show ?case by (simp add: fun_eq_iff option.map_ident)
next
  case (Cons t ts)
  from Cons.prems obtain c where c: "map_of inc t = Some c" by auto
  let ?inc = "AList.update t (c - 1) inc"
  let ?q = "if c - 1 = 0 then q @ [t] else q"
  have "\<forall>t \<in> set ts. t \<in> dom (map_of ?inc)"
    using Cons.prems by (auto simp: update_conv')
  from Cons.IH [OF this, of ?q] obtain inc' new where
    run: "topo_sort_visit ts ?inc ?q = Inr (inc', ?q @ new)"
    and m: "map_of inc' = (\<lambda>v. map_option (\<lambda>c. c - int (count_list ts v)) (map_of ?inc v))"
    and d: "distinct new"
    and s: "set new = {u \<in> set ts. \<exists>c'. map_of ?inc u = Some c' \<and> 1 \<le> c' \<and> c' \<le> int (count_list ts u)}"
    by blast
  let ?new = "(if c - 1 = 0 then [t] else []) @ new"
  have 1: "topo_sort_visit (t # ts) inc q = Inr (inc', q @ ?new)"
    using run c by simp
  have 2: "map_of inc' = (\<lambda>v. map_option (\<lambda>c. c - int (count_list (t # ts) v)) (map_of inc v))"
    using c by (auto simp: m update_conv' fun_eq_iff)
  have tn: "c - 1 = 0 \<Longrightarrow> t \<notin> set new"
    using s by (auto simp: update_conv')
  have 3: "distinct ?new" using d tn by simp
  have 4: "set ?new = {u \<in> set (t # ts). \<exists>c'. map_of inc u = Some c' \<and> 1 \<le> c' \<and> c' \<le> int (count_list (t # ts) u)}"
  proof (intro set_eqI iffI)
    fix u assume "u \<in> set ?new"
    then consider "c - 1 = 0" "u = t" | "u \<in> set new" by (auto split: if_splits)
    then show "u \<in> {u \<in> set (t # ts). \<exists>c'. map_of inc u = Some c' \<and> 1 \<le> c' \<and> c' \<le> int (count_list (t # ts) u)}"
    proof cases
      case 1
      with c show ?thesis by simp
    next
      case 2
      with s obtain c' where u: "u \<in> set ts" "map_of ?inc u = Some c'" "1 \<le> c'" "c' \<le> int (count_list ts u)"
        by auto
      show ?thesis
      proof (cases "u = t")
        case True
        with u c have "c' = c - 1" by (simp add: update_conv')
        with u True c show ?thesis by simp
      next
        case False
        with u show ?thesis by (simp add: update_conv')
      qed
    qed
  next
    fix u assume "u \<in> {u \<in> set (t # ts). \<exists>c'. map_of inc u = Some c' \<and> 1 \<le> c' \<and> c' \<le> int (count_list (t # ts) u)}"
    then obtain c' where u: "u \<in> set (t # ts)" "map_of inc u = Some c'" "1 \<le> c'"
      "c' \<le> int (count_list (t # ts) u)" by auto
    show "u \<in> set ?new"
    proof (cases "u = t")
      case True
      with u c have cc: "c' = c" by simp
      show ?thesis
      proof (cases "c - 1 = 0")
        case True
        then show ?thesis using \<open>u = t\<close> by simp
      next
        case False
        with u cc True have a: "1 \<le> c - 1" "c - 1 \<le> int (count_list ts t)" by auto
        then have "count_list ts t \<noteq> 0" by auto
        then have "t \<in> set ts" by (simp add: count_list_0_iff)
        with a True s show ?thesis by (auto simp: update_conv')
      qed
    next
      case False
      with u s show ?thesis by (auto simp: update_conv')
    qed
  qed
  from 1 2 3 4 show ?case by blast
qed

lemma indeg_insert:
  "x \<notin> D \<Longrightarrow>
   indeg es (insert x D) v = indeg es D v - int (length [e \<leftarrow> es. source e = x \<and> target e = v])"
  by (induction es) (auto simp: indeg_def)

lemma indeg_nonneg: "0 \<le> indeg es D v"
  by (simp add: indeg_def)

lemma indeg_zero_iff: "indeg es D v = 0 \<longleftrightarrow> (\<forall>e \<in> set es. target e = v \<longrightarrow> source e \<in> D)"
  by (auto simp: indeg_def filter_empty_conv)

lemma kahn_step:
  assumes inv: "kahn_inv ids es inc (x # q) out"
    and wf: "\<forall>e \<in> set es. source e \<in> set ids \<and> target e \<in> set ids"
    and outs: "\<forall>v \<in> set ids. map_of outs v = Some (map target [e \<leftarrow> es. source e = v])"
  shows "\<exists>inc' q'. topo_sort_visit (dict_get outs x []) inc q = Inr (inc', q') \<and>
           kahn_inv ids es inc' q' (out @ [x])"
proof -
  let ?D = "set out"
  let ?D' = "insert x (set out)"
  from inv have dist: "distinct (out @ x # q)" and sub: "set (out @ x # q) \<subseteq> set ids"
    unfolding kahn_inv_def by blast+
  from inv have cnt: "\<And>v. map_of inc v = (if v \<in> set ids then Some (indeg es ?D v) else None)"
    unfolding kahn_inv_def by blast
  from inv have zero: "\<And>v. v \<in> set ids \<Longrightarrow> (v \<in> set (out @ x # q)) = (indeg es ?D v = 0)"
    unfolding kahn_inv_def by blast
  from inv have ord: "\<And>e. e \<in> set es \<Longrightarrow> target e \<in> set out \<Longrightarrow> precedes out (source e) (target e)"
    unfolding kahn_inv_def by blast
  have x: "x \<in> set ids" "x \<notin> set out" using dist sub by auto
  let ?ts = "map target [e \<leftarrow> es. source e = x]"
  have ts: "dict_get outs x [] = ?ts" using outs x by (simp add: dict_get_def)
  have tsdom: "\<forall>t \<in> set ?ts. t \<in> dom (map_of inc)"
    using wf cnt by (auto simp: dom_def)
  from topo_sort_visit_result [OF tsdom, of q] obtain inc' new where
    run: "topo_sort_visit ?ts inc q = Inr (inc', q @ new)"
    and m: "map_of inc' = (\<lambda>v. map_option (\<lambda>c. c - int (count_list ?ts v)) (map_of inc v))"
    and d: "distinct new"
    and s: "set new = {t \<in> set ?ts. \<exists>c. map_of inc t = Some c \<and> 1 \<le> c \<and> c \<le> int (count_list ?ts t)}"
    by blast
  have cl: "\<And>v. count_list ?ts v = length [e \<leftarrow> es. source e = x \<and> target e = v]"
    by (simp add: count_list_map_filter conj_commute)
  have ins: "\<And>v. indeg es ?D' v = indeg es ?D v - int (count_list ?ts v)"
    using indeg_insert [OF x(2)] cl by simp
  have cnt': "\<And>v. map_of inc' v = (if v \<in> set ids then Some (indeg es ?D' v) else None)"
    by (simp add: m cnt ins)
  have new: "set new = {t \<in> set ids. 1 \<le> indeg es ?D t \<and> indeg es ?D' t = 0}"
  proof (intro set_eqI iffI)
    fix t assume "t \<in> set new"
    with s obtain c where t: "t \<in> set ?ts" "map_of inc t = Some c" "1 \<le> c" "c \<le> int (count_list ?ts t)"
      by auto
    from t(1) wf have tid: "t \<in> set ids" by auto
    with t(2) cnt [of t] have c: "c = indeg es ?D t" by simp
    from indeg_nonneg [of es ?D' t] ins [of t] t(4) c have "indeg es ?D' t = 0" by simp
    with tid t(3) c show "t \<in> {t \<in> set ids. 1 \<le> indeg es ?D t \<and> indeg es ?D' t = 0}" by simp
  next
    fix t assume "t \<in> {t \<in> set ids. 1 \<le> indeg es ?D t \<and> indeg es ?D' t = 0}"
    then have t: "t \<in> set ids" "1 \<le> indeg es ?D t" "indeg es ?D' t = 0" by auto
    from t(2,3) ins [of t] have c: "int (count_list ?ts t) = indeg es ?D t" by simp
    with t(2) have "count_list ?ts t \<noteq> 0" by auto
    then have "t \<in> set ?ts" by (simp only: count_list_0_iff) simp
    moreover from cnt [of t] t(1) have "map_of inc t = Some (indeg es ?D t)" by simp
    ultimately show "t \<in> set new" using s t(2) c by auto
  qed
  have fresh: "set new \<inter> set (out @ x # q) = {}"
  proof -
    { fix t assume a: "t \<in> set new" and b: "t \<in> set (out @ x # q)"
      from a new have "t \<in> set ids" "1 \<le> indeg es ?D t" by auto
      with zero [of t] b have False by simp }
    then show ?thesis by blast
  qed
  have i1: "distinct ((out @ [x]) @ q @ new)"
    using dist d fresh by auto
  have i2: "set ((out @ [x]) @ q @ new) \<subseteq> set ids"
    using sub new by auto
  have i3: "\<forall>v. map_of inc' v = (if v \<in> set ids then Some (indeg es (set (out @ [x])) v) else None)"
    using cnt' by simp
  have i4: "\<forall>v \<in> set ids. (v \<in> set ((out @ [x]) @ q @ new)) = (indeg es (set (out @ [x])) v = 0)"
  proof
    fix v assume v: "v \<in> set ids"
    have le: "indeg es ?D' v \<le> indeg es ?D v" using ins [of v] by simp
    show "(v \<in> set ((out @ [x]) @ q @ new)) = (indeg es (set (out @ [x])) v = 0)"
    proof
      assume "v \<in> set ((out @ [x]) @ q @ new)"
      then consider "v \<in> set (out @ x # q)" | "v \<in> set new" by auto
      then have "indeg es ?D' v = 0"
      proof cases
        case 1
        with zero [OF v] have "indeg es ?D v = 0" by simp
        with le indeg_nonneg [of es ?D' v] show ?thesis by simp
      next
        case 2
        with new show ?thesis by simp
      qed
      then show "indeg es (set (out @ [x])) v = 0" by simp
    next
      assume "indeg es (set (out @ [x])) v = 0"
      then have z: "indeg es ?D' v = 0" by simp
      show "v \<in> set ((out @ [x]) @ q @ new)"
      proof (cases "indeg es ?D v = 0")
        case True
        with zero [OF v] show ?thesis by auto
      next
        case False
        with indeg_nonneg [of es ?D v] have "1 \<le> indeg es ?D v" by simp
        with z v new show ?thesis by simp
      qed
    qed
  qed
  have i5: "\<forall>e \<in> set es. target e \<in> set (out @ [x]) \<longrightarrow> precedes (out @ [x]) (source e) (target e)"
  proof (intro ballI impI)
    fix e assume e: "e \<in> set es" and t: "target e \<in> set (out @ [x])"
    show "precedes (out @ [x]) (source e) (target e)"
    proof (cases "target e \<in> set out")
      case True
      from precedes_append [OF ord [OF e True]] show ?thesis .
    next
      case False
      with t have tx: "target e = x" by simp
      from zero [OF x(1)] have "indeg es ?D x = 0" by simp
      with e tx have "source e \<in> set out" by (auto simp: indeg_zero_iff)
      from precedes_snoc [OF this] tx show ?thesis by simp
    qed
  qed
  from i1 i2 i3 i4 i5 have "kahn_inv ids es inc' (q @ new) (out @ [x])"
    unfolding kahn_inv_def by blast
  with run ts show ?thesis by auto
qed

lemma kahn_loop:
  assumes "kahn_inv ids es inc q out"
    and "\<forall>e \<in> set es. source e \<in> set ids \<and> target e \<in> set ids"
    and "\<forall>v \<in> set ids. map_of outs v = Some (map target [e \<leftarrow> es. source e = v])"
  shows "\<exists>inc' out'. topo_sort_loop outs inc q out = Inr out' \<and> kahn_inv ids es inc' [] out'"
  using assms
proof (induction outs inc q out rule: topo_sort_loop.induct)
  case (1 outs incoming order)
  then show ?case by auto
next
  case (2 outs incoming cur q order)
  from kahn_step [OF "2.prems"] obtain inc' q' where
    run: "topo_sort_visit (dict_get outs cur []) incoming q = Inr (inc', q')"
    and inv: "kahn_inv ids es inc' q' (order @ [cur])" by blast
  from "2.IH" [OF run refl inv "2.prems"(2,3)] run show ?case by simp
qed

lemma topo_sort_visit_extends:
  "topo_sort_visit ts inc q = Inr (inc', q') \<Longrightarrow> \<exists>new. q' = q @ new"
proof (induction ts arbitrary: inc q)
  case Nil
  then show ?case by simp
next
  case (Cons t ts)
  from Cons.prems obtain c where c: "map_of inc t = Some c"
    by (cases "map_of inc t") auto
  with Cons.prems
  have "topo_sort_visit ts (AList.update t (c - 1) inc) (if c - 1 = 0 then q @ [t] else q) = Inr (inc', q')"
    by simp
  from Cons.IH [OF this] show ?case by (auto split: if_splits)
qed

lemma topo_sort_loop_fifo:
  "topo_sort_loop outs inc q out = Inr out' \<Longrightarrow> \<exists>rest. out' = out @ q @ rest"
proof (induction outs inc q out rule: topo_sort_loop.induct)
  case (1 outs incoming order)
  then show ?case by simp
next
  case (2 outs incoming cur q order)
  from "2.prems" obtain inc' q' where
    run: "topo_sort_visit (dict_get outs cur []) incoming q = Inr (inc', q')"
    by (cases "topo_sort_visit (dict_get outs cur []) incoming q") auto
  with "2.prems" have "topo_sort_loop outs inc' q' (order @ [cur]) = Inr out'" by simp
  from "2.IH" [OF run refl this] obtain rest where "out' = (order @ [cur]) @ q' @ rest" by blast
  moreover from topo_sort_visit_extends [OF run] obtain new where "q' = q @ new" by blast
  ultimately show ?case by simp
qed

lemma kahn_run:
  assumes dist: "distinct (ids_of nodes)" and closed: "closed_edges nodes es"
  shows "\<exists>order inc'. kahn_inv (ids_of nodes) es inc' [] order \<and>
           (\<exists>rest. order = [v \<leftarrow> ids_of nodes. indeg es {} v = 0] @ rest) \<and>
           topo_sort nodes es = Inr (if length order = length nodes then order else ids_of nodes)"
proof -
  let ?ids = "ids_of nodes"
  let ?inc = "fold (\<lambda>n d. AList.update (nid n) (0::int) d) nodes []"
  let ?outs = "fold (\<lambda>n d. AList.update (nid n) ([]::string list) d) nodes []"
  from closed have wf: "\<forall>e \<in> set es. source e \<in> set ?ids \<and> target e \<in> set ?ids"
    by (simp add: closed_edges_def list_all_iff)
  have m0: "map_of ?inc = (\<lambda>v. if v \<in> set ?ids then Some 0 else None)"
    by (simp add: map_of_fold_update ids_of_def fun_eq_iff)
  have o0: "map_of ?outs = (\<lambda>v. if v \<in> set ?ids then Some [] else None)"
    by (simp add: map_of_fold_update ids_of_def fun_eq_iff)
  have "\<forall>e \<in> set es. source e \<in> dom (map_of ?outs) \<and> target e \<in> dom (map_of ?inc)"
    using wf by (simp add: m0 o0 dom_def)
  from topo_sort_edges_result [OF this] obtain inc' outs' where
    build: "topo_sort_edges es ?inc ?outs = Inr (inc', outs')"
    and mi: "map_of inc' = (\<lambda>v. map_option (\<lambda>c. c + int (length [e \<leftarrow> es. target e = v])) (map_of ?inc v))"
    and mo: "map_of outs' = (\<lambda>v. map_option (\<lambda>ts. ts @ map target [e \<leftarrow> es. source e = v]) (map_of ?outs v))"
    by blast
  have cnt: "\<And>v. map_of inc' v = (if v \<in> set ?ids then Some (indeg es {} v) else None)"
    by (simp add: mi m0 indeg_def)
  have outs: "\<forall>v \<in> set ?ids. map_of outs' v = Some (map target [e \<leftarrow> es. source e = v])"
    by (simp add: mo o0)
  let ?q = "[nid n. n \<leftarrow> nodes, dict_get inc' (nid n) 0 = 0]"
  have q: "?q = [v \<leftarrow> ?ids. indeg es {} v = 0]"
  proof -
    have "?q = [v \<leftarrow> map nid nodes. dict_get inc' v 0 = 0]"
      by (induction nodes) auto
    also have "\<dots> = [v \<leftarrow> ?ids. indeg es {} v = 0]"
      unfolding ids_of_def [symmetric]
      by (rule filter_cong [OF refl]) (simp add: dict_get_def cnt)
    finally show ?thesis .
  qed
  have inv0: "kahn_inv ?ids es inc' ?q []"
    unfolding kahn_inv_def q using dist cnt by auto
  from kahn_loop [OF inv0 wf outs] obtain incF order where
    loop: "topo_sort_loop outs' inc' ?q [] = Inr order"
    and invF: "kahn_inv ?ids es incF [] order" by blast
  from topo_sort_loop_fifo [OF loop] q
  have fifo: "\<exists>rest. order = [v \<leftarrow> ?ids. indeg es {} v = 0] @ rest" by simp
  have "topo_sort nodes es = Inr (if length order = length nodes then order else ?ids)"
    using build loop by (simp add: topo_sort_def ids_of_def)
  with invF fifo show ?thesis by blast
qed

lemma kahn_final_order:
  assumes inv: "kahn_inv ids es inc [] order" and full: "set order = set ids"
    and wf: "\<forall>e \<in> set es. source e \<in> set ids \<and> target e \<in> set ids"
  shows "list_all (\<lambda>e. precedes order (source e) (target e)) es"
  using assms unfolding kahn_inv_def list_all_iff by auto

lemma kahn_final_acyclic:
  assumes inv: "kahn_inv ids es inc [] order" and dist: "distinct ids"
    and wf: "\<forall>e \<in> set es. source e \<in> set ids \<and> target e \<in> set ids"
  shows "acyclic (edge_rel es) \<longleftrightarrow> length order = length ids"
proof
  assume ac: "acyclic (edge_rel es)"
  have "finite (edge_rel es)" by (simp add: edge_rel_def)
  from finite_acyclic_wf [OF this ac] have w: "wf (edge_rel es)" .
  from inv have sub: "set order \<subseteq> set ids" and d: "distinct order"
    and zero: "\<And>v. v \<in> set ids \<Longrightarrow> (v \<in> set order) = (indeg es (set order) v = 0)"
    unfolding kahn_inv_def by auto
  have "set ids - set order = {}"
  proof (rule ccontr)
    assume "set ids - set order \<noteq> {}"
    then obtain x where "x \<in> set ids - set order" by blast
    from wfE_min [OF w this] obtain z where z: "z \<in> set ids - set order"
      and min: "\<And>y. (y, z) \<in> edge_rel es \<Longrightarrow> y \<notin> set ids - set order" by blast
    have "\<forall>e \<in> set es. target e = z \<longrightarrow> source e \<in> set order"
    proof (intro ballI impI)
      fix e assume e: "e \<in> set es" and "target e = z"
      then have "(source e, z) \<in> edge_rel es" by (force simp: edge_rel_def)
      from min [OF this] wf e show "source e \<in> set order" by auto
    qed
    then have "indeg es (set order) z = 0" by (simp add: indeg_zero_iff)
    with zero [of z] z show False by simp
  qed
  with sub have "set order = set ids" by blast
  with d dist show "length order = length ids"
    by (metis distinct_card)
next
  assume len: "length order = length ids"
  from inv have sub: "set order \<subseteq> set ids" and d: "distinct order"
    unfolding kahn_inv_def by auto
  have "card (set order) = card (set ids)"
    using len d dist by (simp add: distinct_card)
  with sub have full: "set order = set ids"
    by (simp add: card_subset_eq)
  from kahn_final_order [OF inv full wf]
  have "\<forall>e \<in> set es. precedes order (source e) (target e)" by (simp add: list_all_iff)
  from precedes_acyclic [OF d this] show "acyclic (edge_rel es)" .
qed

lemma topo_sort_correct:
  assumes dist: "distinct (ids_of nodes)" and closed: "closed_edges nodes es"
  shows "if acyclic (edge_rel es)
         then \<exists>order rest. topo_sort nodes es = Inr order
                \<and> distinct order \<and> set order = set (ids_of nodes)
                \<and> list_all (\<lambda>e. precedes order (source e) (target e)) es
                \<and> order = [v \<leftarrow> ids_of nodes. indeg es {} v = 0] @ rest
         else topo_sort nodes es = Inr (ids_of nodes)"
proof -
  from closed have wf: "\<forall>e \<in> set es. source e \<in> set (ids_of nodes) \<and> target e \<in> set (ids_of nodes)"
    by (simp add: closed_edges_def list_all_iff)
  from kahn_run [OF dist closed] obtain order inc' rest where
    inv: "kahn_inv (ids_of nodes) es inc' [] order"
    and fifo: "order = [v \<leftarrow> ids_of nodes. indeg es {} v = 0] @ rest"
    and res: "topo_sort nodes es = Inr (if length order = length nodes then order else ids_of nodes)"
    by blast
  have len: "length (ids_of nodes) = length nodes" by (simp add: ids_of_def)
  note ac = kahn_final_acyclic [OF inv dist wf, unfolded len]
  show ?thesis
  proof (cases "acyclic (edge_rel es)")
    case True
    with ac have l: "length order = length nodes" by simp
    from inv have sub: "set order \<subseteq> set (ids_of nodes)" and d: "distinct order"
      unfolding kahn_inv_def by auto
    have "card (set order) = card (set (ids_of nodes))"
      using l len d dist by (simp add: distinct_card)
    with sub have full: "set order = set (ids_of nodes)" by (simp add: card_subset_eq)
    from kahn_final_order [OF inv full wf] res l d full fifo True show ?thesis by auto
  next
    case False
    with ac res show ?thesis by simp
  qed
qed

lemma acyclic_no_edges: "acyclic ({} :: ('a \<times> 'a) set)"
  by (simp add: acyclic_def)

lemma indeg_empty_zero: "(indeg es {} v = 0) = (v \<notin> set (map target es))"
  by (auto simp: indeg_zero_iff)

section \<open>Properties of the topological order\<close>

text \<open>
  Claim C3. On a graph whose node ids are unique and whose edges join nodes of the graph,
  \<open>topo_sort\<close> (server.py) and \<open>_topo\<close> (optimizer.py) return without error. If the
  edges are acyclic, the order returned lists every node once and puts the source of
  every edge before its target; it is the run of a FIFO queue seeded with the caller's
  node order, so it starts with the nodes that have no incoming edge, in the caller's
  order. If the edges contain a cycle, the caller's node order is returned as it is.
\<close>

theorem topological_order_spec:
  assumes "distinct (ids_of nodes)" and "closed_edges nodes edges"
  shows "if acyclic (edge_rel edges)
         then \<exists>order rest. topo_sort nodes edges = Inr order \<and> topo nodes edges = Inr order
                \<and> distinct order \<and> set order = set (ids_of nodes)
                \<and> list_all (\<lambda>e. precedes order (source e) (target e)) edges
                \<and> order = [v \<leftarrow> ids_of nodes. v \<notin> set (map target edges)] @ rest
         else topo_sort nodes edges = Inr (ids_of nodes) \<and> topo nodes edges = Inr (ids_of nodes)"
proof -
  have eq: "topo nodes edges = topo_sort nodes edges"
    using assms(1) by (simp add: topo_eq_topo_sort ids_of_def)
  from topo_sort_correct [OF assms] show ?thesis
    unfolding eq indeg_empty_zero by (auto split: if_splits)
qed

text \<open>
  The theorem at two graphs: \<open>c \<rightarrow> b \<rightarrow> a\<close> given as \<open>c, a, b\<close> is ordered \<open>c, b, a\<close>;
  the cycle \<open>a \<rightarrow> b \<rightarrow> a\<close> given as \<open>b, a\<close> comes back as \<open>b, a\<close>.
\<close>

theorem topological_order_spec_witness:
  "distinct (ids_of [plain_node ''c'' ''t'', plain_node ''a'' ''t'', plain_node ''b'' ''t''])
   \<and> closed_edges [plain_node ''c'' ''t'', plain_node ''a'' ''t'', plain_node ''b'' ''t'']
        [link ''b'' ''a'', link ''c'' ''b'']
   \<and> acyclic (edge_rel [link ''b'' ''a'', link ''c'' ''b''])
   \<and> topo_sort [plain_node ''c'' ''t'', plain_node ''a'' ''t'', plain_node ''b'' ''t'']
        [link ''b'' ''a'', link ''c'' ''b''] = Inr [''c'', ''b'', ''a'']
   \<and> list_all (\<lambda>e. precedes [''c'', ''b'', ''a''] (source e) (target e))
        [link ''b'' ''a'', link ''c'' ''b'']
   \<and> \<not> acyclic (edge_rel [link ''a'' ''b'', link ''b'' ''a''])
   \<and> topo [plain_node ''b'' ''t'', plain_node ''a'' ''t''] [link ''a'' ''b'', link ''b'' ''a'']
       = Inr [''b'', ''a'']"
proof -
  let ?G = "[plain_node ''c'' ''t'', plain_node ''a'' ''t'', plain_node ''b'' ''t'']"
  let ?E = "[link ''b'' ''a'', link ''c'' ''b'']"
  let ?H = "[plain_node ''b'' ''t'', plain_node ''a'' ''t'']"
  let ?F = "[link ''a'' ''b'', link ''b'' ''a'']"
  have d: "distinct (ids_of ?G)" by (simp add: ids_of_def plain_node_def)
  have c: "closed_edges ?G ?E" by (simp add: closed_edges_def ids_of_def plain_node_def link_def)
  have a: "acyclic (edge_rel ?E)"
    by (simp add: edge_rel_def link_def rtrancl_insert acyclic_no_edges)
  have d2: "distinct (ids_of ?H)" by (simp add: ids_of_def plain_node_def)
  have c2: "closed_edges ?H ?F" by (simp add: closed_edges_def ids_of_def plain_node_def link_def)
  have a2: "\<not> acyclic (edge_rel ?F)"
    by (simp add: edge_rel_def link_def rtrancl_insert acyclic_no_edges)
  have r: "topo_sort ?G ?E = Inr [''c'', ''b'', ''a'']"
    by (simp add: topo_sort_def plain_node_def link_def dict_get_def)
  have "\<exists>order rest. topo_sort ?G ?E = Inr order \<and> topo ?G ?E = Inr order
           \<and> distinct order \<and> set order = set (ids_of ?G)
           \<and> list_all (\<lambda>e. precedes order (source e) (target e)) ?E
           \<and> order = [v \<leftarrow> ids_of ?G. v \<notin> set (map target ?E)] @ rest"
    using topological_order_spec [OF d c] a by (simp only: if_True)
  then obtain order where o: "topo_sort ?G ?E = Inr order"
    and p: "list_all (\<lambda>e. precedes order (source e) (target e)) ?E" by blast
  from o r have "order = [''c'', ''b'', ''a'']" by simp
  with p have 1: "list_all (\<lambda>e. precedes [''c'', ''b'', ''a''] (source e) (target e)) ?E"
    by simp
  have "topo ?H ?F = Inr (ids_of ?H)"
    using topological_order_spec [OF d2 c2] a2 by (simp only: if_False)
  then have 2: "topo ?H ?F = Inr [''b'', ''a'']" by (simp add: ids_of_def plain_node_def)
  from d c a r 1 a2 2 show ?thesis by blast
qed

text \<open>
  Claim C10 (amended). For every list of nodes with pairwise distinct ids and every list
  of edges, \<open>_topo\<close> of optimizer.py and \<open>topo_sort\<close> of server.py return the same
  result: the same sequence of node ids, or the same \<open>KeyError\<close> when the source of an
  edge is not a node.
\<close>

theorem topo_agrees_with_topo_sort:
  "distinct (ids_of nodes) \<Longrightarrow> topo nodes edges = topo_sort nodes edges"
  by (simp add: topo_eq_topo_sort ids_of_def)

theorem topo_agrees_with_topo_sort_witness:
  "distinct (ids_of [plain_node ''a'' ''t'', plain_node ''b'' ''t''])
   \<and> topo [plain_node ''a'' ''t'', plain_node ''b'' ''t''] [link ''b'' ''a'']
     = topo_sort [plain_node ''a'' ''t'', plain_node ''b'' ''t''] [link ''b'' ''a'']
   \<and> topo_sort [plain_node ''a'' ''t'', plain_node ''b'' ''t''] [link ''b'' ''a'']
     = Inr [''b'', ''a'']"
proof -
  have d: "distinct (ids_of [plain_node ''a'' ''t'', plain_node ''b'' ''t''])"
    by (simp add: ids_of_def plain_node_def)
  have "topo_sort [plain_node ''a'' ''t'', plain_node ''b'' ''t''] [link ''b'' ''a''] = Inr [''b'', ''a'']"
    by (simp add: topo_sort_def plain_node_def link_def dict_get_def)
  with d topo_agrees_with_topo_sort [OF d, of "[link ''b'' ''a'']"] show ?thesis by simp
qed

text \<open>
  Without distinct ids the two differ: \<open>_topo\<close> seeds its queue from the keys of the
  counter dict, where an id stands once, and \<open>topo_sort\<close> from the node list, where a
  repeated id stands twice. For the nodes \<open>a, b, b\<close> and the edge \<open>b \<rightarrow> a\<close>, \<open>_topo\<close>
  visits two nodes, takes that for a cycle and returns \<open>a, b, b\<close>, while \<open>topo_sort\<close>
  visits three and returns \<open>b, b, a\<close>.
\<close>

theorem topo_differs_from_topo_sort_counterexample:
  "topo [plain_node ''a'' ''t'', plain_node ''b'' ''t'', plain_node ''b'' ''t''] [link ''b'' ''a'']
     = Inr [''a'', ''b'', ''b'']
   \<and> topo_sort [plain_node ''a'' ''t'', plain_node ''b'' ''t'', plain_node ''b'' ''t''] [link ''b'' ''a'']
     = Inr [''b'', ''b'', ''a'']
   \<and> topo [plain_node ''a'' ''t'', plain_node ''b'' ''t'', plain_node ''b'' ''t''] [link ''b'' ''a'']
     \<noteq> topo_sort [plain_node ''a'' ''t'', plain_node ''b'' ''t'', plain_node ''b'' ''t''] [link ''b'' ''a'']"
  by (simp add: topo_def topo_sort_def plain_node_def link_def dict_get_def)

section \<open>Dead-node pruning: the walk computes the ancestors\<close>

lemma prune_preds_get:
  "dict_get (prune_preds es preds) v [] = dict_get preds v [] @ map source [e \<leftarrow> es. target e = v]"
  by (induction es arbitrary: preds) (auto simp: dict_get_def update_conv')

lemma subgraph_preds_get:
  assumes "\<forall>e \<in> set es. target e \<in> dom (map_of preds)"
  shows "\<exists>preds'. subgraph_preds es preds = Inr preds' \<and>
           (\<forall>v. dict_get preds' v [] = dict_get preds v [] @ map source [e \<leftarrow> es. target e = v])"
  using assms
proof (induction es arbitrary: preds)
  case Nil
  then show ?case by simp
next
  case (Cons e es)
  from Cons.prems obtain ps where ps: "map_of preds (target e) = Some ps" by auto
  let ?p = "AList.update (target e) (ps @ [source e]) preds"
  have "\<forall>e \<in> set es. target e \<in> dom (map_of ?p)"
    using Cons.prems by (auto simp: update_conv')
  from Cons.IH [OF this] obtain preds' where
    run: "subgraph_preds es ?p = Inr preds'"
    and g: "\<forall>v. dict_get preds' v [] = dict_get ?p v [] @ map source [e \<leftarrow> es. target e = v]"
    by blast
  have "\<forall>v. dict_get preds' v [] = dict_get preds v [] @ map source [e \<leftarrow> e # es. target e = v]"
    using g ps by (auto simp: dict_get_def update_conv')
  with run ps show ?case by simp
qed

lemma subgraph_walk_eq: "subgraph_walk preds keep stack = prune_walk preds keep stack"
  by (induction preds keep stack rule: prune_walk.induct) auto

lemma prune_walk_ancestors:
  assumes "\<forall>v. set (dict_get preds v []) = {s. (s, v) \<in> r}"
    and "keep \<union> set stack \<subseteq> {v. (v, t) \<in> r\<^sup>*}"
    and "\<forall>v \<in> keep. \<forall>s. (s, v) \<in> r \<longrightarrow> s \<in> keep \<union> set stack"
    and "t \<in> keep \<union> set stack"
  shows "prune_walk preds keep stack = {v. (v, t) \<in> r\<^sup>*}"
  using assms
proof (induction preds keep stack rule: prune_walk.induct)
  case (1 preds keep)
  have "v \<in> keep" if "(v, t) \<in> r\<^sup>*" for v
    using that
  proof (induction rule: converse_rtrancl_induct)
    case base
    from "1.prems"(4) show ?case by simp
  next
    case (step y z)
    with "1.prems"(3) show ?case by auto
  qed
  with "1.prems"(2) show ?case by auto
next
  case (2 preds keep cur stack)
  note P = "2.prems"(1)
  show ?case
  proof (cases "cur \<in> keep")
    case True
    have "prune_walk preds keep stack = {v. (v, t) \<in> r\<^sup>*}"
    proof (rule "2.IH"(1) [OF True P])
      show "keep \<union> set stack \<subseteq> {v. (v, t) \<in> r\<^sup>*}" using "2.prems"(2) by auto
      show "\<forall>v \<in> keep. \<forall>s. (s, v) \<in> r \<longrightarrow> s \<in> keep \<union> set stack"
        using "2.prems"(3) True by auto
      show "t \<in> keep \<union> set stack" using "2.prems"(4) True by auto
    qed
    with True show ?thesis by simp
  next
    case False
    let ?ps = "dict_get preds cur []"
    from P have ps: "set ?ps = {s. (s, cur) \<in> r}" by simp
    from "2.prems"(2) have cur: "(cur, t) \<in> r\<^sup>*" by simp
    have "prune_walk preds (insert cur keep) (rev ?ps @ stack) = {v. (v, t) \<in> r\<^sup>*}"
    proof (rule "2.IH"(2) [OF False P])
      show "insert cur keep \<union> set (rev ?ps @ stack) \<subseteq> {v. (v, t) \<in> r\<^sup>*}"
        using "2.prems"(2) ps cur by (auto intro: converse_rtrancl_into_rtrancl)
      show "\<forall>v \<in> insert cur keep. \<forall>s. (s, v) \<in> r \<longrightarrow> s \<in> insert cur keep \<union> set (rev ?ps @ stack)"
        using "2.prems"(3) ps by auto
      show "t \<in> insert cur keep \<union> set (rev ?ps @ stack)" using "2.prems"(4) by auto
    qed
    with False show ?thesis by simp
  qed
qed

lemma prune_walk_edges:
  "prune_walk (prune_preds es []) {} [t] = ancestorsOf t es"
proof -
  have "\<forall>v. set (dict_get (prune_preds es []) v []) = {s. (s, v) \<in> edge_rel es}"
  proof
    fix v
    have "dict_get (prune_preds es []) v [] = map source [e \<leftarrow> es. target e = v]"
      by (simp add: prune_preds_get) (simp add: dict_get_def)
    then show "set (dict_get (prune_preds es []) v []) = {s. (s, v) \<in> edge_rel es}"
      by (auto simp: edge_rel_def)
  qed
  from prune_walk_ancestors [OF this, of "{}" "[t]" t] show ?thesis
    by (simp add: ancestorsOf_def)
qed

lemma prune_dead_result:
  "t \<noteq> [] \<Longrightarrow> prune_dead nodes es (Some t) =
     ([n \<leftarrow> nodes. nid n \<in> ancestorsOf t es],
      [e \<leftarrow> es. source e \<in> ancestorsOf t es \<and> target e \<in> ancestorsOf t es])"
  by (simp add: prune_dead_def prune_walk_edges Let_def del: prune_walk.simps)

lemma subgraph_up_to_result:
  assumes "list_all (\<lambda>e. target e \<in> set (ids_of nodes)) es"
  shows "subgraph_up_to nodes es tid = Inr (prune_dead nodes es tid)"
proof (cases "tid = None \<or> tid = Some []")
  case True
  then show ?thesis by (auto simp: subgraph_up_to_def prune_dead_def)
next
  case False
  then obtain t where t: "tid = Some t" "t \<noteq> []" by auto
  let ?p0 = "fold (\<lambda>n d. AList.update (nid n) ([]::string list) d) nodes []"
  have m0: "map_of ?p0 = (\<lambda>v. if v \<in> set (ids_of nodes) then Some [] else None)"
    by (simp add: map_of_fold_update ids_of_def fun_eq_iff)
  have "\<forall>e \<in> set es. target e \<in> dom (map_of ?p0)"
    using assms by (simp add: m0 list_all_iff dom_def)
  from subgraph_preds_get [OF this] obtain preds where
    run: "subgraph_preds es ?p0 = Inr preds"
    and g: "\<forall>v. dict_get preds v [] = dict_get ?p0 v [] @ map source [e \<leftarrow> es. target e = v]"
    by blast
  have "\<forall>v. set (dict_get preds v []) = {s. (s, v) \<in> edge_rel es}"
  proof
    fix v
    have "dict_get ?p0 v [] = []" by (simp add: dict_get_def m0)
    with g have "dict_get preds v [] = map source [e \<leftarrow> es. target e = v]" by simp
    then show "set (dict_get preds v []) = {s. (s, v) \<in> edge_rel es}"
      by (auto simp: edge_rel_def)
  qed
  from prune_walk_ancestors [OF this, of "{}" "[t]" t]
  have "subgraph_walk preds {} [t] = ancestorsOf t es"
    by (simp add: ancestorsOf_def subgraph_walk_eq)
  with run t show ?thesis
    by (simp add: subgraph_up_to_def prune_dead_result Let_def del: subgraph_walk.simps)
qed

lemma ancestors_in_graph:
  assumes "closed_edges nodes es" and "t \<in> set (ids_of nodes)"
  shows "ancestorsOf t es \<subseteq> set (ids_of nodes)"
proof
  fix v assume "v \<in> ancestorsOf t es"
  then have "(v, t) \<in> (edge_rel es)\<^sup>*" by (simp add: ancestorsOf_def)
  then show "v \<in> set (ids_of nodes)"
  proof (induction rule: converse_rtrancl_induct)
    case base
    from assms(2) show ?case .
  next
    case (step y z)
    then obtain e where "e \<in> set es" "y = source e" by (auto simp: edge_rel_def)
    with assms(1) show ?case by (auto simp: closed_edges_def list_all_iff)
  qed
qed

section \<open>Properties of dead-node pruning\<close>

text \<open>
  Claim C9. With no target id (\<open>None\<close>, or the empty string, which Python's
  \<open>not target_id\<close> takes for absent as well) \<open>prune_dead\<close> and \<open>subgraph_up_to\<close> return
  the nodes and edges as they are. With a target id \<open>t\<close> they keep, in their order, the
  nodes whose id is an ancestor of \<open>t\<close> (\<open>t\<close> included) and the edges whose source and
  target are both ancestors of \<open>t\<close>; \<open>subgraph_up_to\<close> does so whenever every edge
  target is a node (it raises \<open>KeyError\<close> otherwise). When the edges join nodes of the
  graph and \<open>t\<close> is one of them, the ids of the nodes kept are exactly the ancestors of
  \<open>t\<close>.
\<close>

theorem prune_dead_spec:
  "(tid = None \<or> tid = Some [] \<longrightarrow>
      prune_dead nodes edges tid = (nodes, edges)
      \<and> subgraph_up_to nodes edges tid = Inr (nodes, edges))
   \<and> (t \<noteq> [] \<longrightarrow>
        prune_dead nodes edges (Some t) =
          ([n \<leftarrow> nodes. nid n \<in> ancestorsOf t edges],
           [e \<leftarrow> edges. source e \<in> ancestorsOf t edges \<and> target e \<in> ancestorsOf t edges]))
   \<and> (t \<noteq> [] \<and> list_all (\<lambda>e. target e \<in> set (ids_of nodes)) edges \<longrightarrow>
        subgraph_up_to nodes edges (Some t) = Inr (prune_dead nodes edges (Some t)))
   \<and> (t \<noteq> [] \<and> closed_edges nodes edges \<and> t \<in> set (ids_of nodes) \<longrightarrow>
        set (ids_of (fst (prune_dead nodes edges (Some t)))) = ancestorsOf t edges)"
proof (intro conjI impI)
  assume "tid = None \<or> tid = Some []"
  then show "prune_dead nodes edges tid = (nodes, edges)"
    by (auto simp: prune_dead_def)
next
  assume "tid = None \<or> tid = Some []"
  then show "subgraph_up_to nodes edges tid = Inr (nodes, edges)"
    by (auto simp: subgraph_up_to_def)
next
  assume "t \<noteq> []"
  then show "prune_dead nodes edges (Some t) =
          ([n \<leftarrow> nodes. nid n \<in> ancestorsOf t edges],
           [e \<leftarrow> edges. source e \<in> ancestorsOf t edges \<and> target e \<in> ancestorsOf t edges])"
    by (rule prune_dead_result)
next
  assume "t \<noteq> [] \<and> list_all (\<lambda>e. target e \<in> set (ids_of nodes)) edges"
  then show "subgraph_up_to nodes edges (Some t) = Inr (prune_dead nodes edges (Some t))"
    by (simp add: subgraph_up_to_result)
next
  assume a: "t \<noteq> [] \<and> closed_edges nodes edges \<and> t \<in> set (ids_of nodes)"
  then have "ancestorsOf t edges \<subseteq> set (ids_of nodes)"
    by (simp add: ancestors_in_graph)
  then have "set (ids_of [n \<leftarrow> nodes. nid n \<in> ancestorsOf t edges]) = ancestorsOf t edges"
    by (auto simp: ids_of_def)
  with a show "set (ids_of (fst (prune_dead nodes edges (Some t)))) = ancestorsOf t edges"
    by (simp add: prune_dead_result)
qed

text \<open>
  The theorem at the graph \<open>a \<rightarrow> b \<rightarrow> c\<close>, \<open>a \<rightarrow> d\<close> with target \<open>b\<close>: the nodes \<open>a\<close>
  and \<open>b\<close> and the edge \<open>a \<rightarrow> b\<close> are kept, and the ancestors of \<open>b\<close> are \<open>a\<close> and \<open>b\<close>.
\<close>

theorem prune_dead_spec_witness:
  "''b'' \<noteq> []
   \<and> closed_edges [plain_node ''a'' ''t'', plain_node ''b'' ''t'', plain_node ''c'' ''t'', plain_node ''d'' ''t'']
        [link ''a'' ''b'', link ''b'' ''c'', link ''a'' ''d'']
   \<and> ''b'' \<in> set (ids_of [plain_node ''a'' ''t'', plain_node ''b'' ''t'', plain_node ''c'' ''t'', plain_node ''d'' ''t''])
   \<and> prune_dead [plain_node ''a'' ''t'', plain_node ''b'' ''t'', plain_node ''c'' ''t'', plain_node ''d'' ''t'']
        [link ''a'' ''b'', link ''b'' ''c'', link ''a'' ''d''] (Some ''b'')
      = ([plain_node ''a'' ''t'', plain_node ''b'' ''t''], [link ''a'' ''b''])
   \<and> subgraph_up_to [plain_node ''a'' ''t'', plain_node ''b'' ''t'', plain_node ''c'' ''t'', plain_node ''d'' ''t'']
        [link ''a'' ''b'', link ''b'' ''c'', link ''a'' ''d''] (Some ''b'')
      = Inr ([plain_node ''a'' ''t'', plain_node ''b'' ''t''], [link ''a'' ''b''])
   \<and> ancestorsOf ''b'' [link ''a'' ''b'', link ''b'' ''c'', link ''a'' ''d''] = {''a'', ''b''}
   \<and> prune_dead [plain_node ''a'' ''t''] [] None = ([plain_node ''a'' ''t''], [])"
proof -
  let ?G = "[plain_node ''a'' ''t'', plain_node ''b'' ''t'', plain_node ''c'' ''t'', plain_node ''d'' ''t'']"
  let ?E = "[link ''a'' ''b'', link ''b'' ''c'', link ''a'' ''d'']"
  have t: "''b'' \<noteq> []" by simp
  have c: "closed_edges ?G ?E" by (simp add: closed_edges_def ids_of_def plain_node_def link_def)
  have m: "''b'' \<in> set (ids_of ?G)" by (simp add: ids_of_def plain_node_def)
  have l: "list_all (\<lambda>e. target e \<in> set (ids_of ?G)) ?E"
    by (simp add: ids_of_def plain_node_def link_def)
  have r: "prune_dead ?G ?E (Some ''b'') = ([plain_node ''a'' ''t'', plain_node ''b'' ''t''], [link ''a'' ''b''])"
    by (simp add: prune_dead_def plain_node_def link_def dict_get_def)
  note th = prune_dead_spec [of None "[plain_node ''a'' ''t'']" "[]" "''b''"]
  note th' = prune_dead_spec [of None ?G ?E "''b''"]
  from th' t l have s: "subgraph_up_to ?G ?E (Some ''b'') = Inr (prune_dead ?G ?E (Some ''b''))"
    by blast
  from th' t c m have "set (ids_of (fst (prune_dead ?G ?E (Some ''b'')))) = ancestorsOf ''b'' ?E"
    by blast
  then have a: "ancestorsOf ''b'' ?E = {''a'', ''b''}"
    unfolding r by (simp add: ids_of_def plain_node_def)
  from th have i: "prune_dead [plain_node ''a'' ''t''] [] None = ([plain_node ''a'' ''t''], [])"
    by blast
  from t c m r s a i show ?thesis by (simp only: simp_thms)
qed

section \<open>Naming: characters, runs and repeats\<close>


lemma str_isalnum_ascii: "is_ascii c \<Longrightarrow> str_isalnum U c = isalnum c"
  by (simp add: str_isalnum_def)































section \<open>Properties of the naming\<close>




section \<open>Properties of the fusion pass\<close>

lemma remove_node_cases:
  "remove_node nodes edges x =
     (if length [e \<leftarrow> edges. target e = x] = 1 \<and> length [e \<leftarrow> edges. source e = x] = 1
      then (AList.delete x nodes,
            [e \<leftarrow> edges. source e \<noteq> x \<and> target e \<noteq> x]
              @ [\<lparr> eid = None, source = source (hd [e \<leftarrow> edges. target e = x]),
                     target = target (hd [e \<leftarrow> edges. source e = x]) \<rparr>])
      else (nodes, edges))"
  by (simp add: remove_node_def Let_def)


lemma remove_node_after:
  assumes "\<forall>e \<in> set F. source e \<noteq> x \<and> target e \<noteq> x"
  shows "remove_node nodes (F @ [\<lparr> eid = None, source = s, target = d \<rparr>]) x =
           (if s = x \<and> d = x
            then (AList.delete x nodes, F @ [\<lparr> eid = None, source = s, target = d \<rparr>])
            else (nodes, F @ [\<lparr> eid = None, source = s, target = d \<rparr>]))"
proof -
  from assms have ft: "[e \<leftarrow> F. target e = x] = []" and fs: "[e \<leftarrow> F. source e = x] = []"
    by (auto simp: filter_empty_conv)
  from assms have ff: "[e \<leftarrow> F. source e \<noteq> x \<and> target e \<noteq> x] = F"
    by (auto intro: filter_True)
  show ?thesis
    by (subst remove_node_cases) (simp add: ft fs ff)
qed

lemma remove_node_idem:
  "remove_node (fst (remove_node nodes edges x)) (snd (remove_node nodes edges x)) x
     = remove_node nodes edges x"
proof (cases "length [e \<leftarrow> edges. target e = x] = 1 \<and> length [e \<leftarrow> edges. source e = x] = 1")
  case False
  have r: "remove_node nodes edges x = (nodes, edges)"
    using False by (subst remove_node_cases) auto
  show ?thesis by (simp only: r fst_conv snd_conv)
next
  case True
  define F where "F = [e \<leftarrow> edges. source e \<noteq> x \<and> target e \<noteq> x]"
  define s where "s = source (hd [e \<leftarrow> edges. target e = x])"
  define d where "d = target (hd [e \<leftarrow> edges. source e = x])"
  have r: "remove_node nodes edges x
             = (AList.delete x nodes, F @ [\<lparr> eid = None, source = s, target = d \<rparr>])"
    using True by (simp add: remove_node_cases F_def s_def d_def)
  have "\<forall>e \<in> set F. source e \<noteq> x \<and> target e \<noteq> x" by (simp add: F_def)
  from remove_node_after [OF this, of "AList.delete x nodes" s d]
  show ?thesis by (simp add: r delete_idem)
qed

lemma map_of_remove_node_other:
  "k \<noteq> x \<Longrightarrow> map_of (fst (remove_node nodes edges x)) k = map_of nodes k"
  by (simp add: remove_node_cases delete_conv')

lemma select_fusion_step:
  assumes n: "map_of id2 x = Some n" "ntype (data n) = ''transform.select''"
    and p: "dict_get parents x [] = [pin]" "pin \<noteq> x"
    and pn: "map_of id2 pin = Some pnode" "ntype (data pnode) = ''transform.select''"
    and c1: "strip (or_else (columns (data pnode)) ''*'') \<noteq> ''*''"
    and c2: "strip (or_else (columns (data n)) ''*'') \<noteq> ''*''"
  shows "fuse_node parents children (id2, edges) x =
           remove_node
             (AList.update pin
                (set_columns pnode
                   (let composed = [c \<leftarrow> comma_list (strip (or_else (columns (data pnode)) ''*'')).
                                      c \<in> set (comma_list (strip (or_else (columns (data n)) ''*'')))]
                    in if composed \<noteq> [] then join '','' composed else ''*''))
                id2)
             edges x"
proof -
  let ?m = "let composed = [c \<leftarrow> comma_list (strip (or_else (columns (data pnode)) ''*'')).
                                      c \<in> set (comma_list (strip (or_else (columns (data n)) ''*'')))]
                    in if composed \<noteq> [] then join '','' composed else ''*''"
  let ?id2 = "AList.update pin (set_columns pnode ?m) id2"
  obtain a b where r: "remove_node ?id2 edges x = (a, b)" by (cases "remove_node ?id2 edges x")
  have s: "select_select_rule parents x n id2 edges = Next n a b"
    using n p pn c1 c2 r by (simp add: select_select_rule_def Let_def)
  have f: "filter_filter_rule parents x n a b = Next n a b"
    using n(2) by (simp add: filter_filter_rule_def)
  have "remove_node a b x = (a, b)"
    using remove_node_idem [of ?id2 edges x] by (simp add: r)
  then have i: "identity_select_rule parents children x n a b = (a, b)"
    by (simp add: identity_select_rule_def Let_def)
  show ?thesis using n(1) s f i r by (simp add: fuse_node_def)
qed







text \<open>
  Claim C5 (amended). When a select node \<open>N\<close> has a single parent \<open>P\<close> that is a select
  node and both column lists are explicit, the round of \<open>N\<close> stores in \<open>P\<close> the names of
  \<open>P\<close>'s list that also stand in \<open>N\<close>'s list, in \<open>P\<close>'s order, joined by commas, or
  \<open>*\<close> when there is no such name. \<open>N\<close> is dropped, and its two edges replaced by the
  edge from its parent to its child, when exactly one edge enters \<open>N\<close> and exactly one
  leaves it at that moment; otherwise \<open>N\<close> and the edges stay as they are.
\<close>

theorem select_fusion_spec:
  assumes "map_of id2 x = Some n" and "ntype (data n) = ''transform.select''"
    and "dict_get parents x [] = [pin]" and "pin \<noteq> x"
    and "map_of id2 pin = Some pnode" and "ntype (data pnode) = ''transform.select''"
    and "strip (or_else (columns (data pnode)) ''*'') \<noteq> ''*''"
    and "strip (or_else (columns (data n)) ''*'') \<noteq> ''*''"
  shows "map_of (fst (fuse_node parents children (id2, edges) x)) pin =
           Some (set_columns pnode
                  (if [c \<leftarrow> comma_list (strip (or_else (columns (data pnode)) ''*'')).
                         c \<in> set (comma_list (strip (or_else (columns (data n)) ''*'')))] \<noteq> []
                   then join '',''
                          [c \<leftarrow> comma_list (strip (or_else (columns (data pnode)) ''*'')).
                             c \<in> set (comma_list (strip (or_else (columns (data n)) ''*'')))]
                   else ''*''))
         \<and> (if length [e \<leftarrow> edges. target e = x] = 1 \<and> length [e \<leftarrow> edges. source e = x] = 1
            then map_of (fst (fuse_node parents children (id2, edges) x)) x = None
                 \<and> snd (fuse_node parents children (id2, edges) x) =
                     [e \<leftarrow> edges. source e \<noteq> x \<and> target e \<noteq> x]
                       @ [\<lparr> eid = None, source = source (hd [e \<leftarrow> edges. target e = x]),
                              target = target (hd [e \<leftarrow> edges. source e = x]) \<rparr>]
            else map_of (fst (fuse_node parents children (id2, edges) x)) x = Some n
                 \<and> snd (fuse_node parents children (id2, edges) x) = edges)"
proof -
  let ?m = "if [c \<leftarrow> comma_list (strip (or_else (columns (data pnode)) ''*'')).
                         c \<in> set (comma_list (strip (or_else (columns (data n)) ''*'')))] \<noteq> []
                   then join '',''
                          [c \<leftarrow> comma_list (strip (or_else (columns (data pnode)) ''*'')).
                             c \<in> set (comma_list (strip (or_else (columns (data n)) ''*'')))]
                   else ''*''"
  let ?id2 = "AList.update pin (set_columns pnode ?m) id2"
  have f: "fuse_node parents children (id2, edges) x = remove_node ?id2 edges x"
    using select_fusion_step [OF assms, of children edges] by (simp add: Let_def)
  have 1: "map_of (fst (remove_node ?id2 edges x)) pin = Some (set_columns pnode ?m)"
    using assms(4) by (simp add: map_of_remove_node_other update_conv')
  have 2: "if length [e \<leftarrow> edges. target e = x] = 1 \<and> length [e \<leftarrow> edges. source e = x] = 1
            then map_of (fst (remove_node ?id2 edges x)) x = None
                 \<and> snd (remove_node ?id2 edges x) =
                     [e \<leftarrow> edges. source e \<noteq> x \<and> target e \<noteq> x]
                       @ [\<lparr> eid = None, source = source (hd [e \<leftarrow> edges. target e = x]),
                              target = target (hd [e \<leftarrow> edges. source e = x]) \<rparr>]
            else map_of (fst (remove_node ?id2 edges x)) x = Some n
                 \<and> snd (remove_node ?id2 edges x) = edges"
  proof (cases "length [e \<leftarrow> edges. target e = x] = 1 \<and> length [e \<leftarrow> edges. source e = x] = 1")
    case True
    then have "remove_node ?id2 edges x =
        (AList.delete x ?id2,
         [e \<leftarrow> edges. source e \<noteq> x \<and> target e \<noteq> x]
           @ [\<lparr> eid = None, source = source (hd [e \<leftarrow> edges. target e = x]),
                  target = target (hd [e \<leftarrow> edges. source e = x]) \<rparr>])"
      by (simp add: remove_node_cases)
    then have "map_of (fst (remove_node ?id2 edges x)) x = None
                 \<and> snd (remove_node ?id2 edges x) =
                     [e \<leftarrow> edges. source e \<noteq> x \<and> target e \<noteq> x]
                       @ [\<lparr> eid = None, source = source (hd [e \<leftarrow> edges. target e = x]),
                              target = target (hd [e \<leftarrow> edges. source e = x]) \<rparr>]"
      by (simp add: delete_conv')
    then show ?thesis by (subst if_P [OF True])
  next
    case False
    then have "remove_node ?id2 edges x = (?id2, edges)"
      by (subst remove_node_cases) auto
    with assms(1,4) have "map_of (fst (remove_node ?id2 edges x)) x = Some n
                 \<and> snd (remove_node ?id2 edges x) = edges"
      by (auto simp: update_conv')
    then show ?thesis by (subst if_not_P [OF False])
  qed
  from 1 2 show ?thesis unfolding f by (rule conjI)
qed

text \<open>
  The theorem at \<open>L \<rightarrow> P \<rightarrow> N \<rightarrow> S\<close> with selects \<open>a,b\<close> and \<open>b,c\<close>, where \<open>P\<close> gets
  \<open>b\<close> and \<open>N\<close> is spliced out; with selects \<open>a,b\<close> and \<open>c\<close>, where \<open>P\<close> gets \<open>*\<close>;
  and at \<open>L \<rightarrow> P \<rightarrow> N\<close>, where \<open>N\<close> stays.
\<close>

theorem select_fusion_spec_witness:
  "map_of (id_map chain_selects) ''N'' = Some (select_node ''N'' ''b,c'')
   \<and> dict_get (parents_of chain_edges) ''N'' [] = [''P'']
   \<and> map_of (id_map chain_selects) ''P'' = Some (select_node ''P'' ''a,b'')
   \<and> map_of (fst (fuse_node (parents_of chain_edges) (children_of chain_edges)
                     (id_map chain_selects, chain_edges) ''N'')) ''P''
      = Some (select_node ''P'' ''b'')
   \<and> map_of (fst (fuse_node (parents_of chain_edges) (children_of chain_edges)
                     (id_map chain_selects, chain_edges) ''N'')) ''N'' = None
   \<and> snd (fuse_node (parents_of chain_edges) (children_of chain_edges)
             (id_map chain_selects, chain_edges) ''N'')
      = [link ''L'' ''P'', link ''P'' ''S'']
   \<and> map_of (fst (fuse_node (parents_of chain_edges) (children_of chain_edges)
                     (id_map [select_node ''P'' ''a,b'', select_node ''N'' ''c''], chain_edges)
                     ''N'')) ''P''
      = Some (select_node ''P'' ''*'')
   \<and> map_of (fst (fuse_node (parents_of leaf_edges) (children_of leaf_edges)
                     (id_map leaf_selects, leaf_edges) ''N'')) ''N''
      = Some (select_node ''N'' ''b,c'')
   \<and> snd (fuse_node (parents_of leaf_edges) (children_of leaf_edges)
             (id_map leaf_selects, leaf_edges) ''N'') = leaf_edges"
proof -
  let ?n = "select_node ''N'' ''b,c''" and ?p = "select_node ''P'' ''a,b''"
  let ?n' = "select_node ''N'' ''c''"
  let ?g' = "[select_node ''P'' ''a,b'', select_node ''N'' ''c'']"
  have h: "map_of (id_map chain_selects) ''N'' = Some ?n" "ntype (data ?n) = ''transform.select''"
    "dict_get (parents_of chain_edges) ''N'' [] = [''P'']" "''P'' \<noteq> ''N''"
    "map_of (id_map chain_selects) ''P'' = Some ?p" "ntype (data ?p) = ''transform.select''"
    "strip (or_else (columns (data ?p)) ''*'') \<noteq> ''*''"
    "strip (or_else (columns (data ?n)) ''*'') \<noteq> ''*''"
    by code_simp+
  have h': "map_of (id_map ?g') ''N'' = Some ?n'" "ntype (data ?n') = ''transform.select''"
    "map_of (id_map ?g') ''P'' = Some ?p"
    "strip (or_else (columns (data ?n')) ''*'') \<noteq> ''*''"
    by code_simp+
  have hl: "map_of (id_map leaf_selects) ''N'' = Some ?n"
    "dict_get (parents_of leaf_edges) ''N'' [] = [''P'']"
    "map_of (id_map leaf_selects) ''P'' = Some ?p"
    by code_simp+
  have m: "set_columns ?p
            (if [c \<leftarrow> comma_list (strip (or_else (columns (data ?p)) ''*'')).
                   c \<in> set (comma_list (strip (or_else (columns (data ?n)) ''*'')))] \<noteq> []
             then join '',''
                    [c \<leftarrow> comma_list (strip (or_else (columns (data ?p)) ''*'')).
                       c \<in> set (comma_list (strip (or_else (columns (data ?n)) ''*'')))]
             else ''*'') = select_node ''P'' ''b''"
    by code_simp
  have m': "set_columns ?p
            (if [c \<leftarrow> comma_list (strip (or_else (columns (data ?p)) ''*'')).
                   c \<in> set (comma_list (strip (or_else (columns (data ?n')) ''*'')))] \<noteq> []
             then join '',''
                    [c \<leftarrow> comma_list (strip (or_else (columns (data ?p)) ''*'')).
                       c \<in> set (comma_list (strip (or_else (columns (data ?n')) ''*'')))]
             else ''*'') = select_node ''P'' ''*''"
    by code_simp
  have c: "length [e \<leftarrow> chain_edges. target e = ''N''] = 1
           \<and> length [e \<leftarrow> chain_edges. source e = ''N''] = 1"
    by code_simp
  have e: "[e \<leftarrow> chain_edges. source e \<noteq> ''N'' \<and> target e \<noteq> ''N'']
             @ [\<lparr> eid = None, source = source (hd [e \<leftarrow> chain_edges. target e = ''N'']),
                    target = target (hd [e \<leftarrow> chain_edges. source e = ''N'']) \<rparr>]
           = [link ''L'' ''P'', link ''P'' ''S'']"
    by code_simp
  have l: "\<not> (length [e \<leftarrow> leaf_edges. target e = ''N''] = 1
              \<and> length [e \<leftarrow> leaf_edges. source e = ''N''] = 1)"
    by code_simp
  note t1 = select_fusion_spec [OF h, of "children_of chain_edges" chain_edges]
  note t2 = select_fusion_spec [OF h'(1,2) h(3,4) h'(3) h(6,7) h'(4),
              of "children_of chain_edges" chain_edges]
  note t3 = select_fusion_spec [OF hl(1) h(2) hl(2) h(4) hl(3) h(6,7,8),
              of "children_of leaf_edges" leaf_edges]
  from t1 have 1: "map_of (fst (fuse_node (parents_of chain_edges) (children_of chain_edges)
                     (id_map chain_selects, chain_edges) ''N'')) ''P'' = Some (select_node ''P'' ''b'')"
    unfolding m by (rule conjunct1)
  from t1 have 2: "map_of (fst (fuse_node (parents_of chain_edges) (children_of chain_edges)
                     (id_map chain_selects, chain_edges) ''N'')) ''N'' = None
      \<and> snd (fuse_node (parents_of chain_edges) (children_of chain_edges)
             (id_map chain_selects, chain_edges) ''N'') = [link ''L'' ''P'', link ''P'' ''S'']"
    unfolding if_P [OF c] e by (rule conjunct2)
  from t2 have 3: "map_of (fst (fuse_node (parents_of chain_edges) (children_of chain_edges)
                     (id_map ?g', chain_edges) ''N'')) ''P'' = Some (select_node ''P'' ''*'')"
    unfolding m' by (rule conjunct1)
  from t3 have 4: "map_of (fst (fuse_node (parents_of leaf_edges) (children_of leaf_edges)
                     (id_map leaf_selects, leaf_edges) ''N'')) ''N'' = Some ?n
      \<and> snd (fuse_node (parents_of leaf_edges) (children_of leaf_edges)
             (id_map leaf_selects, leaf_edges) ''N'') = leaf_edges"
    unfolding if_not_P [OF l] by (rule conjunct2)
  from h(1,3,5) 1 2 3 4 show ?thesis by blast
qed

text \<open>
  The claim as it stands fails where the child has no outgoing edge: in
  \<open>L \<rightarrow> P \<rightarrow> N\<close> with selects \<open>a,b\<close> and \<open>b,c\<close> the pass gives \<open>P\<close> the
  list \<open>b\<close> and keeps \<open>N\<close> and both edges.
\<close>

theorem select_fusion_leaf_counterexample:
  "combine_redundant leaf_selects leaf_edges =
     Inr ([plain_node ''L'' ''source.csv'', select_node ''P'' ''b'', select_node ''N'' ''b,c''],
          leaf_edges)"
  by code_simp

section \<open>Properties of the join and sample lowerings\<close>

lemma collect_map_Inr:
  "(\<And>x. x \<in> set xs \<Longrightarrow> f x = Inr (g x)) \<Longrightarrow> collect (map f xs) = Inr (map g xs)"
  by (induction xs) auto

text \<open>
  The SQL and Spark lowerings of a join pair every left key with the right key at the
  same index, and with the first right key from the end of the right list on; they raise
  \<open>IndexError\<close> only when the right list is empty (or a parent is missing).
\<close>

lemma gen_sql_on_expr_wrap:
  assumes "rk \<noteq> []"
  shows "gen_sql_on_expr lk rk =
           Inr (join '' AND ''
                 (map (\<lambda>i. lk ! i @ '' = '' @ rk ! (if i < length rk then i else 0))
                      [0..<length lk]))"
proof -
  have "collect
          (map (\<lambda>i. bind_err (index lk i) (\<lambda>l.
                      bind_err (index rk (if i < length rk then i else 0)) (\<lambda>r.
                      Inr (l @ '' = '' @ r))))
               [0..<length lk])
        = Inr (map (\<lambda>i. lk ! i @ '' = '' @ rk ! (if i < length rk then i else 0)) [0..<length lk])"
    using assms by (intro collect_map_Inr) (auto simp: index_def bind_err_def)
  then show ?thesis by (simp add: gen_sql_on_expr_def bind_err_def)
qed

lemma gen_spark_cond_wrap:
  assumes "rk \<noteq> []"
  shows "gen_spark_cond [p0, p1] lk rk =
           Inr (join '' & ''
                 (map (\<lambda>i. p0 @ ''.'' @ lk ! i @ '' == '' @ p1 @ ''.''
                              @ rk ! (if i < length rk then i else 0))
                      [0..<length lk]))"
proof -
  have "collect
          (map (\<lambda>i. bind_err (index [p0, p1] 0) (\<lambda>a.
                      bind_err (index lk i) (\<lambda>l.
                      bind_err (index [p0, p1] 1) (\<lambda>b.
                      bind_err (index rk (if i < length rk then i else 0)) (\<lambda>r.
                      Inr (a @ ''.'' @ l @ '' == '' @ b @ ''.'' @ r))))))
               [0..<length lk])
        = Inr (map (\<lambda>i. p0 @ ''.'' @ lk ! i @ '' == '' @ p1 @ ''.''
                              @ rk ! (if i < length rk then i else 0)) [0..<length lk])"
    using assms by (intro collect_map_Inr) (auto simp: index_def bind_err_def)
  then show ?thesis by (simp add: gen_spark_cond_def bind_err_def)
qed

text \<open>
  Claim C6, at the join with left keys \<open>a,b\<close> and right key \<open>x\<close>, parents \<open>l\<close> and
  \<open>r\<close>. \<open>gen_sql\<close> and \<open>gen_spark\<close> emit one equality for each left key, the second
  one against \<open>x\<close> again. \<open>gen_python\<close> emits
  \<open>left_on=["a", "b"], right_on="x"\<close>: the two lists as they are, with no second
  pair. With an empty right list (\<open>right_on\<close> a lone comma) \<open>gen_sql\<close> raises
  \<open>IndexError\<close>.
\<close>

theorem gen_python_join_no_wrap:
  "gen_python_join ''j'' [''l'', ''r''] (join_node ''J'' ''a,b'' ''x'') =
     Inr [''j = l.merge(r, how='' @ [CHR 0x22] @ ''inner'' @ [CHR 0x22]
            @ '', left_on=['' @ [CHR 0x22] @ ''a'' @ [CHR 0x22] @ '', '' @ [CHR 0x22] @ ''b''
            @ [CHR 0x22] @ ''], right_on='' @ [CHR 0x22] @ ''x'' @ [CHR 0x22] @ '')'',
          '''']
   \<and> gen_sql_join ''j'' [''l'', ''r''] (join_node ''J'' ''a,b'' ''x'') =
       Inr (''j AS ('' @ [CHR 0x0A] @ ''  SELECT *'' @ [CHR 0x0A] @ ''  FROM l'' @ [CHR 0x0A]
            @ ''  INNER JOIN r'' @ [CHR 0x0A] @ ''    ON a = x AND b = x'' @ [CHR 0x0A] @ '')'')
   \<and> gen_spark_join ''j'' [''l'', ''r''] (join_node ''J'' ''a,b'' ''x'') =
       Inr (''j = l.join(r, on=(l.a == r.x & l.b == r.x), how='' @ [CHR 0x27] @ ''inner''
            @ [CHR 0x27] @ '')'')
   \<and> gen_sql_join ''j'' [''l'', ''r''] (join_node ''J'' ''a,b'' '','') = Inl IndexError"
  by code_simp

text \<open>
  Claim C7, at a sample node with \<open>mode = rows\<close> and \<open>n = 10\<close> over a parent \<open>p\<close> of 3
  rows. The interpreter asks pandas for \<open>min(10, 3) = 3\<close> rows, \<open>gen_spark\<close> emits
  \<open>limit(min(10, __cnt))\<close> and \<open>gen_sql\<close> a sample of at most 10 rows;
  \<open>gen_python\<close> emits \<open>sample(n=10)\<close> with no minimum, which pandas refuses on a
  frame of 3 rows.
\<close>

theorem gen_python_sample_no_min:
  "gen_python_sample cv ''s'' [''p''] (sample_node ''S'' 10) =
     Inr [''s = p.sample(n=10, random_state=None)'', '''']
   \<and> sample_size cv (sample_node ''S'' 10) = Inr 10
   \<and> exec_sample_rows 10 3 = 3
   \<and> eval_node eng [three_rows] ''S'' (sample_node ''S'' 10) =
       bind_err (pd_sample_n eng three_rows 3) (\<lambda>df. Inr (df, None))
   \<and> gen_spark_sample cv ''s'' [''p''] (sample_node ''S'' 10) =
       Inr [''__cnt = p.count()'', ''s = p.limit(min(10, __cnt))'']
   \<and> gen_sql_sample cv ''s'' [''p''] (sample_node ''S'' 10) =
       Inr ''s AS (SELECT * FROM p USING SAMPLE 10 ROWS)''"
  by code_simp

section \<open>Properties of the interpreter\<close>

lemma exec_node_raises:
  assumes "map_of id2 x = Some n" and "map_of parents x = Some pids"
    and "eval_node eng (map (\<lambda>p. dict_get frames p empty_table) pids) x n = Inl e"
  shows "exec_node eng id2 parents (frames, errs) x =
           Inr (AList.update x empty_table frames,
                AList.update x (error_name e @ '': '' @ error_str e) errs)"
  using assms by (simp add: exec_node_def bind_err_def)

lemma eval_node_filter_fails:
  assumes "ntype (data n) = ''transform.filter''"
    and "pd_query eng p0 (or_else (expr (data n)) ''True'') = Inl e"
  shows "eval_node eng (p0 # rest) x n =
           Inr (p0, Some (''Filter expression failed; returned input unchanged. expr=''
                          @ [CHR 0x27] @ or_else (expr (data n)) ''True'' @ [CHR 0x27]))"
  using assms by (simp add: eval_node_def Let_def bind_err_def index_def)

lemma eval_node_formula_fails:
  assumes "ntype (data n) = ''transform.formula''"
    and "pd_eval_assign eng p0 (or_else (newCol (data n)) ''new_column'')
           (or_else (expr (data n)) ''0'') = Inl e"
  shows "eval_node eng (p0 # rest) x n =
           Inr (fill_nulls (or_else (newCol (data n)) ''new_column'') p0,
                Some (''Formula evaluation failed; filled '' @ [CHR 0x27]
                      @ or_else (newCol (data n)) ''new_column'' @ [CHR 0x27]
                      @ '' with nulls. expr='' @ [CHR 0x27] @ or_else (expr (data n)) ''0''
                      @ [CHR 0x27]))"
  using assms by (simp add: eval_node_def Let_def bind_err_def index_def)

lemma eval_node_no_parent:
  assumes "ntype (data n) \<in> {''transform.select'', ''transform.filter'',
             ''transform.formula'', ''transform.sort'', ''transform.join'',
             ''sink.csv''}"
  shows "eval_node eng [] x n = Inl IndexError"
  using assms by (auto simp: eval_node_def Let_def bind_err_def index_def)

lemma exec_node_total:
  assumes "map_of id2 x = Some n"
  shows "\<exists>frames' errs'. exec_node eng id2 parents (frames, errs) x = Inr (frames', errs')
           \<and> dom (map_of frames') = insert x (dom (map_of frames))"
  using assms
  by (auto simp: exec_node_def update_conv' dom_def split: sum.splits option.splits prod.splits)

lemma exec_loop_total:
  assumes "\<forall>y \<in> set order. y \<in> dom (map_of id2)"
  shows "\<exists>frames' errs'. exec_loop eng id2 parents order (frames, errs) = Inr (frames', errs')
           \<and> dom (map_of frames') = set order \<union> dom (map_of frames)"
  using assms
proof (induction order arbitrary: frames errs)
  case Nil
  then show ?case by simp
next
  case (Cons y order)
  from Cons.prems obtain n where n: "map_of id2 y = Some n" by auto
  from exec_node_total [OF n, of eng parents frames errs] obtain f1 e1 where
    s: "exec_node eng id2 parents (frames, errs) y = Inr (f1, e1)"
    and d: "dom (map_of f1) = insert y (dom (map_of frames))" by blast
  from Cons.prems have "\<forall>y \<in> set order. y \<in> dom (map_of id2)" by simp
  from Cons.IH [OF this, of f1 e1] obtain f2 e2 where
    l: "exec_loop eng id2 parents order (f1, e1) = Inr (f2, e2)"
    and d2: "dom (map_of f2) = set order \<union> dom (map_of f1)" by blast
  from s l d d2 show ?case by (auto simp: bind_err_def)
qed

lemma fill_nulls_column:
  "nrows (fill_nulls c df) = nrows df
   \<and> map_of (cols (fill_nulls c df)) c = Some (replicate (nrows df) Null)
   \<and> (\<forall>k. k \<noteq> c \<longrightarrow> map_of (cols (fill_nulls c df)) k = map_of (cols df) k)"
  by (simp add: fill_nulls_def update_conv')

lemma exec_node_cases:
  assumes "map_of id2 x = Some n" and "map_of parents x = Some pids"
  shows "exec_node eng id2 parents (frames, errs) x =
           (case eval_node eng (map (\<lambda>p. dict_get frames p empty_table) pids) x n of
              Inl e \<Rightarrow> Inr (AList.update x empty_table frames,
                            AList.update x (error_name e @ '': '' @ error_str e) errs)
            | Inr (df, None) \<Rightarrow> Inr (AList.update x df frames, errs)
            | Inr (df, Some msg) \<Rightarrow> Inr (AList.update x df frames, AList.update x msg errs))"
  using assms by (simp add: exec_node_def bind_err_def split: sum.splits option.splits prod.splits)

lemma exec_node_other:
  assumes "exec_node eng id2 parents (frames, errs) x = Inr (frames', errs')" and "k \<noteq> x"
  shows "map_of frames' k = map_of frames k \<and> map_of errs' k = map_of errs k"
  using assms
  by (auto simp: exec_node_def update_conv' split: sum.splits option.splits prod.splits)

lemma exec_node_errs_dom:
  assumes "exec_node eng id2 parents (frames, errs) x = Inr (frames', errs')"
  shows "dom (map_of errs') \<subseteq> insert x (dom (map_of errs))"
  using assms
  by (auto simp: exec_node_def update_conv' dom_def split: sum.splits option.splits prod.splits if_splits)

lemma exec_loop_other:
  assumes "exec_loop eng id2 parents order (frames, errs) = Inr (frames', errs')"
    and "k \<notin> set order"
  shows "map_of frames' k = map_of frames k \<and> map_of errs' k = map_of errs k"
  using assms
proof (induction order arbitrary: frames errs)
  case Nil
  then show ?case by simp
next
  case (Cons y order)
  from Cons.prems(1) obtain f1 e1 where
    s: "exec_node eng id2 parents (frames, errs) y = Inr (f1, e1)"
    and l: "exec_loop eng id2 parents order (f1, e1) = Inr (frames', errs')"
    by (auto simp: bind_err_def split: sum.splits)
  from Cons.prems(2) have ky: "k \<noteq> y" and ko: "k \<notin> set order" by auto
  from exec_node_other [OF s ky] Cons.IH [OF l ko] show ?case by simp
qed

lemma exec_loop_errs_dom:
  assumes "exec_loop eng id2 parents order (frames, errs) = Inr (frames', errs')"
  shows "dom (map_of errs') \<subseteq> set order \<union> dom (map_of errs)"
  using assms
proof (induction order arbitrary: frames errs)
  case Nil
  then show ?case by simp
next
  case (Cons y order)
  from Cons.prems(1) obtain f1 e1 where
    s: "exec_node eng id2 parents (frames, errs) y = Inr (f1, e1)"
    and l: "exec_loop eng id2 parents order (f1, e1) = Inr (frames', errs')"
    by (auto simp: bind_err_def split: sum.splits)
  from exec_node_errs_dom [OF s] Cons.IH [OF l]
  have "dom (map_of errs') \<subseteq> insert y (set order) \<union> dom (map_of errs)" by blast
  then show ?case by (simp only: list.set)
qed

lemma exec_loop_append:
  "exec_loop eng id2 parents (xs @ ys) st =
     bind_err (exec_loop eng id2 parents xs st) (exec_loop eng id2 parents ys)"
  by (induction xs arbitrary: st) (auto simp: bind_err_def split: sum.splits)

lemma visits_round:
  assumes v: "visits eng id2 parents pre x post (frames, errs) (framesF, errsF)"
  shows "\<exists>frames' errs'. exec_node eng id2 parents (frames, errs) x = Inr (frames', errs')
           \<and> map_of framesF x = map_of frames' x \<and> map_of errsF x = map_of errs' x"
    and "map_of errs x = None"
    and "\<forall>y \<in> set pre. map_of framesF y = map_of frames y \<and> map_of errsF y = map_of errs y"
proof -
  from v have d: "distinct (pre @ x # post)"
    and b: "exec_loop eng id2 parents pre ([], []) = Inr (frames, errs)"
    and f: "exec_loop eng id2 parents (pre @ x # post) ([], []) = Inr (framesF, errsF)"
    by (simp_all add: visits_def)
  from f b have r: "exec_loop eng id2 parents (x # post) (frames, errs) = Inr (framesF, errsF)"
    by (simp add: exec_loop_append bind_err_def)
  then obtain f1 e1 where
    s: "exec_node eng id2 parents (frames, errs) x = Inr (f1, e1)"
    and l: "exec_loop eng id2 parents post (f1, e1) = Inr (framesF, errsF)"
    by (auto simp: bind_err_def split: sum.splits)
  from d have xp: "x \<notin> set post" and xq: "x \<notin> set pre" by auto
  from exec_loop_other [OF l xp] s
  show "\<exists>frames' errs'. exec_node eng id2 parents (frames, errs) x = Inr (frames', errs')
           \<and> map_of framesF x = map_of frames' x \<and> map_of errsF x = map_of errs' x"
    by blast
  from exec_loop_other [OF b xq] show "map_of errs x = None" by simp
  show "\<forall>y \<in> set pre. map_of framesF y = map_of frames y \<and> map_of errsF y = map_of errs y"
  proof
    fix y assume "y \<in> set pre"
    with d have "y \<notin> set (x # post)" by auto
    from exec_loop_other [OF r this]
    show "map_of framesF y = map_of frames y \<and> map_of errsF y = map_of errs y" .
  qed
qed

lemma visits_result:
  assumes v: "visits eng id2 parents pre x post (frames, errs) (framesF, errsF)"
    and n: "map_of id2 x = Some n" and p: "map_of parents x = Some pids"
  shows "case eval_node eng (map (\<lambda>p. dict_get frames p empty_table) pids) x n of
           Inl e \<Rightarrow> map_of framesF x = Some empty_table
                     \<and> map_of errsF x = Some (error_name e @ '': '' @ error_str e)
         | Inr (df, None) \<Rightarrow> map_of framesF x = Some df \<and> map_of errsF x = None
         | Inr (df, Some msg) \<Rightarrow> map_of framesF x = Some df \<and> map_of errsF x = Some msg"
proof -
  from visits_round(1) [OF v] obtain f1 e1 where
    s: "exec_node eng id2 parents (frames, errs) x = Inr (f1, e1)"
    and m: "map_of framesF x = map_of f1 x" "map_of errsF x = map_of e1 x"
    by blast
  note z = visits_round(2) [OF v]
  from s [unfolded exec_node_cases [OF n p]] m z show ?thesis
    by (auto simp: update_conv' split: sum.splits option.splits prod.splits)
qed

lemma exec_loop_total2:
  assumes "\<forall>y \<in> set order. y \<in> dom (map_of id2)"
  shows "\<exists>framesF errsF. exec_loop eng id2 parents order ([], []) = Inr (framesF, errsF)
           \<and> dom (map_of framesF) = set order \<and> dom (map_of errsF) \<subseteq> set order"
proof -
  from exec_loop_total [OF assms, of eng parents "[]" "[]"] obtain f e where
    r: "exec_loop eng id2 parents order ([], []) = Inr (f, e)"
    and d: "dom (map_of f) = set order \<union> dom (map_of ([] :: (string, table) dict))"
    by blast
  from exec_loop_errs_dom [OF r] d r show ?thesis by auto
qed

lemma subgraph_preds_map_of:
  assumes "\<forall>e \<in> set es. target e \<in> dom (map_of preds)"
  shows "\<exists>preds'. subgraph_preds es preds = Inr preds' \<and>
           (\<forall>v. map_of preds' v =
                  (case map_of preds v of
                     None \<Rightarrow> None
                   | Some ps \<Rightarrow> Some (ps @ map source [e \<leftarrow> es. target e = v])))"
  using assms
proof (induction es arbitrary: preds)
  case Nil
  then show ?case by (auto split: option.splits)
next
  case (Cons e es)
  from Cons.prems obtain ps where ps: "map_of preds (target e) = Some ps" by auto
  let ?p = "AList.update (target e) (ps @ [source e]) preds"
  have "\<forall>e \<in> set es. target e \<in> dom (map_of ?p)"
    using Cons.prems by (auto simp: update_conv')
  from Cons.IH [OF this] obtain preds' where
    run: "subgraph_preds es ?p = Inr preds'"
    and g: "\<forall>v. map_of preds' v =
                  (case map_of ?p v of
                     None \<Rightarrow> None
                   | Some ps \<Rightarrow> Some (ps @ map source [e \<leftarrow> es. target e = v]))"
    by blast
  have "\<forall>v. map_of preds' v =
                  (case map_of preds v of
                     None \<Rightarrow> None
                   | Some ps \<Rightarrow> Some (ps @ map source [e \<leftarrow> e # es. target e = v]))"
    using g ps by (auto simp: update_conv' split: option.splits)
  with run ps show ?case by simp
qed

lemma map_of_id_map:
  "map_of (id_map nodes) v \<noteq> None \<longleftrightarrow> v \<in> set (ids_of nodes)"
proof -
  have "dom (map_of (fold (\<lambda>n d. AList.update (nid n) n d) nodes d))
          = set (map nid nodes) \<union> dom (map_of d)" for d :: "(string, node) dict"
    by (induction nodes arbitrary: d) (auto simp: update_conv' dom_def split: if_splits)
  from this [of "[]"] show ?thesis by (auto simp: id_map_def ids_of_def dom_def)
qed

lemma prune_dead_well_formed:
  assumes "distinct (ids_of nodes)" and "closed_edges nodes edges"
  shows "distinct (ids_of (fst (prune_dead nodes edges tid)))
         \<and> closed_edges (fst (prune_dead nodes edges tid)) (snd (prune_dead nodes edges tid))"
proof (cases "tid = None \<or> tid = Some []")
  case True
  with assms show ?thesis by (auto simp: prune_dead_def)
next
  case False
  then obtain t where t: "tid = Some t" "t \<noteq> []" by auto
  have "distinct (ids_of [n \<leftarrow> nodes. nid n \<in> ancestorsOf t edges])"
    using assms(1) by (simp add: ids_of_def distinct_map_filter)
  moreover have "closed_edges [n \<leftarrow> nodes. nid n \<in> ancestorsOf t edges]
       [e \<leftarrow> edges. source e \<in> ancestorsOf t edges \<and> target e \<in> ancestorsOf t edges]"
    using assms(2) by (auto simp: closed_edges_def list_all_iff ids_of_def)
  ultimately show ?thesis using t by (simp add: prune_dead_result)
qed

lemma exec_workflow_pandas_runs:
  assumes dist: "distinct (ids_of nodes)" and closed: "closed_edges nodes edges"
  shows "\<exists>n2 e2 order parents framesF errsF.
      subgraph_up_to nodes edges preview_id = Inr (n2, e2)
      \<and> topo_sort n2 e2 = Inr order \<and> distinct order \<and> set order = set (ids_of n2)
      \<and> subgraph_preds e2 (fold (\<lambda>n d. AList.update (nid n) [] d) n2 []) = Inr parents
      \<and> (\<forall>v \<in> set order. map_of (id_map n2) v \<noteq> None
            \<and> map_of parents v = Some (map source [e \<leftarrow> e2. target e = v]))
      \<and> exec_loop eng (id_map n2) parents order ([], []) = Inr (framesF, errsF)
      \<and> dom (map_of framesF) = set order
      \<and> exec_workflow_pandas eng nodes edges preview_id =
          Inr (if order = [] then empty_table else dict_get framesF (last order) empty_table,
               errsF)"
proof -
  obtain n2 e2 where pd: "prune_dead nodes edges preview_id = (n2, e2)"
    by (cases "prune_dead nodes edges preview_id")
  from closed have "list_all (\<lambda>e. target e \<in> set (ids_of nodes)) edges"
    by (simp add: closed_edges_def list_all_iff)
  from subgraph_up_to_result [OF this, of preview_id] pd
  have sg: "subgraph_up_to nodes edges preview_id = Inr (n2, e2)" by simp
  from prune_dead_well_formed [OF dist closed, of preview_id] pd
  have d2: "distinct (ids_of n2)" and c2: "closed_edges n2 e2" by simp_all
  from topo_sort_correct [OF d2 c2] d2 obtain order where
    ts: "topo_sort n2 e2 = Inr order" and od: "distinct order"
    and os: "set order = set (ids_of n2)"
    by (cases "acyclic (edge_rel e2)") auto
  let ?p0 = "fold (\<lambda>n d. AList.update (nid n) ([]::string list) d) n2 []"
  have m0: "map_of ?p0 = (\<lambda>v. if v \<in> set (ids_of n2) then Some [] else None)"
    by (simp add: map_of_fold_update ids_of_def fun_eq_iff)
  have "\<forall>e \<in> set e2. target e \<in> dom (map_of ?p0)"
    using c2 by (simp add: m0 closed_edges_def list_all_iff dom_def)
  from subgraph_preds_map_of [OF this] obtain parents where
    sp: "subgraph_preds e2 ?p0 = Inr parents"
    and g: "\<forall>v. map_of parents v =
                  (case map_of ?p0 v of
                     None \<Rightarrow> None
                   | Some ps \<Rightarrow> Some (ps @ map source [e \<leftarrow> e2. target e = v]))"
    by blast
  have pv: "\<forall>v \<in> set order. map_of (id_map n2) v \<noteq> None
            \<and> map_of parents v = Some (map source [e \<leftarrow> e2. target e = v])"
  proof
    fix v assume "v \<in> set order"
    with os have v: "v \<in> set (ids_of n2)" by simp
    then have "map_of (id_map n2) v \<noteq> None" using map_of_id_map [of n2 v] by blast
    moreover from g v have "map_of parents v = Some (map source [e \<leftarrow> e2. target e = v])"
      by (simp add: m0)
    ultimately show "map_of (id_map n2) v \<noteq> None
            \<and> map_of parents v = Some (map source [e \<leftarrow> e2. target e = v])" by simp
  qed
  have "\<forall>y \<in> set order. y \<in> dom (map_of (id_map n2))"
    using os map_of_id_map [of n2] by (auto simp: dom_def)
  from exec_loop_total2 [OF this, of eng parents] obtain framesF errsF where
    el: "exec_loop eng (id_map n2) parents order ([], []) = Inr (framesF, errsF)"
    and dm: "dom (map_of framesF) = set order"
    by blast
  have res: "exec_workflow_pandas eng nodes edges preview_id =
          Inr (if order = [] then empty_table else dict_get framesF (last order) empty_table,
               errsF)"
  proof (cases "order = []")
    case True
    with sg ts sp el show ?thesis
      by (simp add: exec_workflow_pandas_def bind_err_def id_map_def)
  next
    case False
    then have "last order \<in> dom (map_of framesF)" using dm by simp
    then obtain df where df: "map_of framesF (last order) = Some df" by auto
    with False sg ts sp el show ?thesis
      by (simp add: exec_workflow_pandas_def bind_err_def id_map_def dict_get_def)
  qed
  from sg ts od os sp pv el dm res show ?thesis by blast
qed

lemma fi_run_raises:
  "(visits eng id2 parents pre x post (frames, errs) (framesF, errsF)
   \<and> map_of id2 x = Some n \<and> map_of parents x = Some pids
   \<and> eval_node eng (map (\<lambda>p. dict_get frames p empty_table) pids) x n = Inl e \<longrightarrow>
 map_of framesF x = Some empty_table
 \<and> map_of errsF x = Some (error_name e @ '': '' @ error_str e))"
  using visits_result [of eng id2 parents pre x post frames errs framesF errsF n pids]
  by auto

lemma fi_run_filter:
  "(visits eng id2 parents pre x post (frames, errs) (framesF, errsF)
   \<and> map_of id2 x = Some n \<and> map_of parents x = Some (pid # pids)
   \<and> ntype (data n) = ''transform.filter''
   \<and> pd_query eng (dict_get frames pid empty_table) (or_else (expr (data n)) ''True'') = Inl e \<longrightarrow>
 map_of framesF x = Some (dict_get frames pid empty_table)
 \<and> map_of errsF x =
     Some (''Filter expression failed; returned input unchanged. expr=''
           @ [CHR 0x27] @ or_else (expr (data n)) ''True'' @ [CHR 0x27]))"
  using visits_result [of eng id2 parents pre x post frames errs framesF errsF n "pid # pids"]
    eval_node_filter_fails [of n eng "dict_get frames pid empty_table" e
      "map (\<lambda>p. dict_get frames p empty_table) pids" x]
  by auto

lemma fi_run_formula:
  "(visits eng id2 parents pre x post (frames, errs) (framesF, errsF)
   \<and> map_of id2 x = Some n \<and> map_of parents x = Some (pid # pids)
   \<and> ntype (data n) = ''transform.formula''
   \<and> pd_eval_assign eng (dict_get frames pid empty_table) (or_else (newCol (data n)) ''new_column'')
        (or_else (expr (data n)) ''0'') = Inl e \<longrightarrow>
 map_of framesF x = Some (fill_nulls (or_else (newCol (data n)) ''new_column'') (dict_get frames pid empty_table))
 \<and> map_of errsF x =
     Some (''Formula evaluation failed; filled '' @ [CHR 0x27] @ or_else (newCol (data n)) ''new_column''
           @ [CHR 0x27] @ '' with nulls. expr='' @ [CHR 0x27] @ or_else (expr (data n)) ''0''
           @ [CHR 0x27])
 \<and> nrows (fill_nulls (or_else (newCol (data n)) ''new_column'') (dict_get frames pid empty_table)) = nrows (dict_get frames pid empty_table)
 \<and> map_of (cols (fill_nulls (or_else (newCol (data n)) ''new_column'') (dict_get frames pid empty_table))) (or_else (newCol (data n)) ''new_column'')
     = Some (replicate (nrows (dict_get frames pid empty_table)) Null)
 \<and> (\<forall>k. k \<noteq> or_else (newCol (data n)) ''new_column'' \<longrightarrow>
       map_of (cols (fill_nulls (or_else (newCol (data n)) ''new_column'') (dict_get frames pid empty_table))) k = map_of (cols (dict_get frames pid empty_table)) k))"
  using visits_result [of eng id2 parents pre x post frames errs framesF errsF n "pid # pids"]
    eval_node_formula_fails [of n eng "dict_get frames pid empty_table" e
      "map (\<lambda>p. dict_get frames p empty_table) pids" x]
    fill_nulls_column [of "or_else (newCol (data n)) ''new_column''" "dict_get frames pid empty_table"]
  by auto

lemma fi_run_ok:
  "(visits eng id2 parents pre x post (frames, errs) (framesF, errsF)
   \<and> map_of id2 x = Some n \<and> map_of parents x = Some pids
   \<and> eval_node eng (map (\<lambda>p. dict_get frames p empty_table) pids) x n = Inr (df, None) \<longrightarrow>
 map_of framesF x = Some df \<and> map_of errsF x = None)"
  using visits_result [of eng id2 parents pre x post frames errs framesF errsF n pids]
  by auto

lemma fi_run_earlier:
  "(visits eng id2 parents pre x post (frames, errs) (framesF, errsF) \<longrightarrow>
 (\<forall>y \<in> set pre. map_of framesF y = map_of frames y \<and> map_of errsF y = map_of errs y))"
  using visits_round(3) [of eng id2 parents pre x post frames errs framesF errsF]
  by blast

lemma fi_run_total:
  "((\<forall>y \<in> set order. y \<in> dom (map_of id2)) \<longrightarrow>
 (\<exists>framesF errsF. exec_loop eng id2 parents order ([], []) = Inr (framesF, errsF)
    \<and> dom (map_of framesF) = set order \<and> dom (map_of errsF) \<subseteq> set order))"
  using exec_loop_total2 [of order id2 eng parents] by blast

lemma fi_run_whole:
  "(distinct (ids_of nodes) \<and> closed_edges nodes edges \<longrightarrow>
 (\<exists>n2 e2 order parents framesF errsF.
    subgraph_up_to nodes edges preview_id = Inr (n2, e2)
    \<and> topo_sort n2 e2 = Inr order \<and> distinct order \<and> set order = set (ids_of n2)
    \<and> subgraph_preds e2 (fold (\<lambda>n d. AList.update (nid n) [] d) n2 []) = Inr parents
    \<and> (\<forall>v \<in> set order. map_of (id_map n2) v \<noteq> None
          \<and> map_of parents v = Some (map source [e \<leftarrow> e2. target e = v]))
    \<and> exec_loop eng (id_map n2) parents order ([], []) = Inr (framesF, errsF)
    \<and> dom (map_of framesF) = set order
    \<and> exec_workflow_pandas eng nodes edges preview_id =
        Inr (if order = [] then empty_table else dict_get framesF (last order) empty_table,
             errsF)))"
  using exec_workflow_pandas_runs [of nodes edges preview_id eng] by blast

lemma fi_source_read_fails:
  "(ntype (data n) = ''source.csv'' \<and> fileText (data n) = None
   \<and> strip (or_else (path (data n)) []) \<noteq> [] \<and> os_path_exists eng (strip (or_else (path (data n)) []))
   \<and> pd_read_csv_path eng (strip (or_else (path (data n)) [])) = Inl e \<longrightarrow>
 eval_node eng ps x n = Inl e)"
  by (simp add: eval_node_def Let_def bind_err_def or_else_def)

lemma fi_source_missing:
  "(ntype (data n) = ''source.csv'' \<and> fileText (data n) = None
   \<and> (strip (or_else (path (data n)) []) = [] \<or> \<not> os_path_exists eng (strip (or_else (path (data n)) []))) \<longrightarrow>
 eval_node eng ps x n =
   Inl (Raised ''FileNotFoundError''
          (''CSV Source '' @ [CHR 0x27] @ or_else (label (data n)) x @ [CHR 0x27]
           @ '' has no uploaded data or readable path.'')))"
  by (auto simp: eval_node_def Let_def bind_err_def or_else_def)

lemma fi_select_fails:
  "(ntype (data n) = ''transform.select'' \<and> strip (or_else (columns (data n)) ''*'') \<noteq> [] \<and> strip (or_else (columns (data n)) ''*'') \<noteq> ''*''
   \<and> pd_getitem eng p0 (comma_list (strip (or_else (columns (data n)) ''*''))) = Inl e \<longrightarrow>
 eval_node eng (p0 # rest) x n = Inl e)"
  by (simp add: eval_node_def Let_def bind_err_def index_def)

lemma fi_cast_fails:
  "(ntype (data n) = ''transform.select''
   \<and> (if strip (or_else (columns (data n)) ''*'') = [] \<or> strip (or_else (columns (data n)) ''*'') = ''*'' then Inr p0
       else pd_getitem eng p0 (comma_list (strip (or_else (columns (data n)) ''*'')))) = Inr df
   \<and> schema (data n) = s # ss
   \<and> strip (or_else (map_of s ''name'') []) \<in> set (map fst (cols df))
   \<and> strip (or_else (map_of s ''name'') []) \<noteq> []
   \<and> pd_cast eng df (strip (or_else (map_of s ''name'') []))
        (lower (strip (or_else (map_of s ''dtype'') ''string''))) = Inl e \<longrightarrow>
 eval_node eng (p0 # rest) x n = Inl e)"
  by (simp add: eval_node_def Let_def bind_err_def index_def)

lemma fi_summarize_fails:
  "(ntype (data n) = ''transform.summarize''
   \<and> pd_summarize eng p0 (comma_list (or_else (groupBy (data n)) [])) (measures (data n)) = Inl e \<longrightarrow>
 eval_node eng (p0 # rest) x n = Inl e)"
  by (simp add: eval_node_def Let_def bind_err_def index_def)

lemma fi_sort_fails:
  "(ntype (data n) = ''transform.sort'' \<and> strip (or_else (sortSpec (data n)) []) \<noteq> []
   \<and> pd_sort_values eng p0 (map first_word (comma_list (strip (or_else (sortSpec (data n)) []))))
        (map (\<lambda>p. \<not> endswith (lower p) ''desc'') (comma_list (strip (or_else (sortSpec (data n)) [])))) = Inl e \<longrightarrow>
 eval_node eng (p0 # rest) x n = Inl e)"
  by (simp add: eval_node_def Let_def bind_err_def index_def)

lemma fi_sample_conversion_fails:
  "(ntype (data n) = ''transform.sample''
   \<and> (if or_else (mode (data n)) ''rows'' = ''fraction''
       then sample_frac (builtins eng) n = Inl e
       else sample_size (builtins eng) n = Inl e) \<longrightarrow>
 eval_node eng ps x n = Inl e)"
  by (simp add: eval_node_def Let_def bind_err_def split: if_splits)

lemma fi_sample_no_parent:
  "(ntype (data n) = ''transform.sample''
   \<and> (if or_else (mode (data n)) ''rows'' = ''fraction''
       then sample_frac (builtins eng) n = Inr f
       else sample_size (builtins eng) n = Inr N) \<longrightarrow>
 eval_node eng [] x n = Inl IndexError)"
  by (simp add: eval_node_def Let_def bind_err_def index_def split: if_splits)

lemma fi_sample_rows_fails:
  "(ntype (data n) = ''transform.sample'' \<and> or_else (mode (data n)) ''rows'' \<noteq> ''fraction''
   \<and> sample_size (builtins eng) n = Inr N
   \<and> pd_sample_n eng p0 (min N (int (nrows p0))) = Inl e \<longrightarrow>
 eval_node eng (p0 # rest) x n = Inl e)"
  by (simp add: eval_node_def Let_def bind_err_def index_def exec_sample_rows_def)

lemma fi_sample_fraction_fails:
  "(ntype (data n) = ''transform.sample'' \<and> or_else (mode (data n)) ''rows'' = ''fraction''
   \<and> sample_frac (builtins eng) n = Inr f
   \<and> pd_sample_frac eng p0 f = Inl e \<longrightarrow>
 eval_node eng (p0 # rest) x n = Inl e)"
  by (simp add: eval_node_def Let_def bind_err_def index_def)

lemma fi_join_one_parent:
  "(ntype (data n) = ''transform.join'' \<and> length ps < 2 \<longrightarrow>
 eval_node eng ps x n = Inl IndexError)"
  by (auto simp: eval_node_def Let_def bind_err_def index_def)

lemma fi_join_fails:
  "(ntype (data n) = ''transform.join''
   \<and> key_of (comma_list (or_else (left_on (data n)) ''id'')) = Inr lkey
   \<and> key_of (comma_list (or_else (right_on (data n)) ''id'')) = Inr rkey
   \<and> pd_merge eng p0 p1 (or_else (how (data n)) ''inner'') lkey rkey = Inl e \<longrightarrow>
 eval_node eng (p0 # p1 # rest) x n = Inl e)"
  by (simp add: eval_node_def Let_def bind_err_def index_def)

lemma fi_sink_fails:
  "(ntype (data n) = ''sink.csv''
   \<and> pd_to_csv eng p0 (or_else (path (data n)) ''out.csv'') = Inl e \<longrightarrow>
 eval_node eng (p0 # rest) x n = Inl e)"
  by (simp add: eval_node_def Let_def bind_err_def index_def)

lemma fi_no_parent:
  "(ntype (data n) \<in> {''transform.select'', ''transform.filter'', ''transform.formula'',
     ''transform.sort'', ''transform.join'', ''sink.csv''} \<longrightarrow>
 eval_node eng [] x n = Inl IndexError)"
  using eval_node_no_parent [of n eng x] by blast

text \<open>
  Claim C1. In a run of the interpreter's loop, what the round of a node \<open>x\<close> stores
  for \<open>x\<close> is what the run ends with for \<open>x\<close>, and the tables and entries of the nodes
  visited before \<open>x\<close> are final when \<open>x\<close> is visited. If the evaluation of \<open>x\<close> raises
  \<open>e\<close>, the run ends with the empty table for \<open>x\<close> and the entry \<open>name: message\<close> of
  \<open>e\<close>. A filter node whose query raises ends with the table its parent had, as it is,
  and an entry; a formula node whose evaluation raises ends with its parent's table, the
  new column holding a null for every row and the other columns as they were, and an
  entry. A node whose evaluation succeeds ends with its table and no entry. Execution
  continues: the loop returns for every order made of nodes of the graph, with a table for
  every node of the order, and on a well-formed graph \<open>exec_workflow_pandas\<close> returns the
  table of the last node of the topological order and the error map of the loop.

  An evaluation raises when the source has no path that exists or pandas cannot read it,
  when pandas refuses the selection, a cast, the aggregation, the sort, the sample, the
  merge or the write, when the sample size or fraction does not convert to a number, when
  a join has fewer than two parents, and when a node that reads its parent has none.
\<close>

theorem fault_isolation_spec:
  "(visits eng id2 parents pre x post (frames, errs) (framesF, errsF)
      \<and> map_of id2 x = Some n \<and> map_of parents x = Some pids
      \<and> eval_node eng (map (\<lambda>p. dict_get frames p empty_table) pids) x n = Inl e \<longrightarrow>
    map_of framesF x = Some empty_table
    \<and> map_of errsF x = Some (error_name e @ '': '' @ error_str e))
   \<and> (visits eng id2 parents pre x post (frames, errs) (framesF, errsF)
      \<and> map_of id2 x = Some n \<and> map_of parents x = Some (pid # pids)
      \<and> ntype (data n) = ''transform.filter''
      \<and> pd_query eng (dict_get frames pid empty_table) (or_else (expr (data n)) ''True'') = Inl e \<longrightarrow>
    map_of framesF x = Some (dict_get frames pid empty_table)
    \<and> map_of errsF x =
        Some (''Filter expression failed; returned input unchanged. expr=''
              @ [CHR 0x27] @ or_else (expr (data n)) ''True'' @ [CHR 0x27]))
   \<and> (visits eng id2 parents pre x post (frames, errs) (framesF, errsF)
      \<and> map_of id2 x = Some n \<and> map_of parents x = Some (pid # pids)
      \<and> ntype (data n) = ''transform.formula''
      \<and> pd_eval_assign eng (dict_get frames pid empty_table) (or_else (newCol (data n)) ''new_column'')
           (or_else (expr (data n)) ''0'') = Inl e \<longrightarrow>
    map_of framesF x = Some (fill_nulls (or_else (newCol (data n)) ''new_column'') (dict_get frames pid empty_table))
    \<and> map_of errsF x =
        Some (''Formula evaluation failed; filled '' @ [CHR 0x27] @ or_else (newCol (data n)) ''new_column''
              @ [CHR 0x27] @ '' with nulls. expr='' @ [CHR 0x27] @ or_else (expr (data n)) ''0''
              @ [CHR 0x27])
    \<and> nrows (fill_nulls (or_else (newCol (data n)) ''new_column'') (dict_get frames pid empty_table)) = nrows (dict_get frames pid empty_table)
    \<and> map_of (cols (fill_nulls (or_else (newCol (data n)) ''new_column'') (dict_get frames pid empty_table))) (or_else (newCol (data n)) ''new_column'')
        = Some (replicate (nrows (dict_get frames pid empty_table)) Null)
    \<and> (\<forall>k. k \<noteq> or_else (newCol (data n)) ''new_column'' \<longrightarrow>
          map_of (cols (fill_nulls (or_else (newCol (data n)) ''new_column'') (dict_get frames pid empty_table))) k = map_of (cols (dict_get frames pid empty_table)) k))
   \<and> (visits eng id2 parents pre x post (frames, errs) (framesF, errsF)
      \<and> map_of id2 x = Some n \<and> map_of parents x = Some pids
      \<and> eval_node eng (map (\<lambda>p. dict_get frames p empty_table) pids) x n = Inr (df, None) \<longrightarrow>
    map_of framesF x = Some df \<and> map_of errsF x = None)
   \<and> (visits eng id2 parents pre x post (frames, errs) (framesF, errsF) \<longrightarrow>
    (\<forall>y \<in> set pre. map_of framesF y = map_of frames y \<and> map_of errsF y = map_of errs y))
   \<and> ((\<forall>y \<in> set order. y \<in> dom (map_of id2)) \<longrightarrow>
    (\<exists>framesF errsF. exec_loop eng id2 parents order ([], []) = Inr (framesF, errsF)
       \<and> dom (map_of framesF) = set order \<and> dom (map_of errsF) \<subseteq> set order))
   \<and> (distinct (ids_of nodes) \<and> closed_edges nodes edges \<longrightarrow>
    (\<exists>n2 e2 order parents framesF errsF.
       subgraph_up_to nodes edges preview_id = Inr (n2, e2)
       \<and> topo_sort n2 e2 = Inr order \<and> distinct order \<and> set order = set (ids_of n2)
       \<and> subgraph_preds e2 (fold (\<lambda>n d. AList.update (nid n) [] d) n2 []) = Inr parents
       \<and> (\<forall>v \<in> set order. map_of (id_map n2) v \<noteq> None
             \<and> map_of parents v = Some (map source [e \<leftarrow> e2. target e = v]))
       \<and> exec_loop eng (id_map n2) parents order ([], []) = Inr (framesF, errsF)
       \<and> dom (map_of framesF) = set order
       \<and> exec_workflow_pandas eng nodes edges preview_id =
           Inr (if order = [] then empty_table else dict_get framesF (last order) empty_table,
                errsF)))
   \<and> (ntype (data n) = ''source.csv'' \<and> fileText (data n) = None
      \<and> strip (or_else (path (data n)) []) \<noteq> [] \<and> os_path_exists eng (strip (or_else (path (data n)) []))
      \<and> pd_read_csv_path eng (strip (or_else (path (data n)) [])) = Inl e \<longrightarrow>
    eval_node eng ps x n = Inl e)
   \<and> (ntype (data n) = ''source.csv'' \<and> fileText (data n) = None
      \<and> (strip (or_else (path (data n)) []) = [] \<or> \<not> os_path_exists eng (strip (or_else (path (data n)) []))) \<longrightarrow>
    eval_node eng ps x n =
      Inl (Raised ''FileNotFoundError''
             (''CSV Source '' @ [CHR 0x27] @ or_else (label (data n)) x @ [CHR 0x27]
              @ '' has no uploaded data or readable path.'')))
   \<and> (ntype (data n) = ''transform.select'' \<and> strip (or_else (columns (data n)) ''*'') \<noteq> [] \<and> strip (or_else (columns (data n)) ''*'') \<noteq> ''*''
      \<and> pd_getitem eng p0 (comma_list (strip (or_else (columns (data n)) ''*''))) = Inl e \<longrightarrow>
    eval_node eng (p0 # rest) x n = Inl e)
   \<and> (ntype (data n) = ''transform.select''
      \<and> (if strip (or_else (columns (data n)) ''*'') = [] \<or> strip (or_else (columns (data n)) ''*'') = ''*'' then Inr p0
          else pd_getitem eng p0 (comma_list (strip (or_else (columns (data n)) ''*'')))) = Inr df
      \<and> schema (data n) = s # ss
      \<and> strip (or_else (map_of s ''name'') []) \<in> set (map fst (cols df))
      \<and> strip (or_else (map_of s ''name'') []) \<noteq> []
      \<and> pd_cast eng df (strip (or_else (map_of s ''name'') []))
           (lower (strip (or_else (map_of s ''dtype'') ''string''))) = Inl e \<longrightarrow>
    eval_node eng (p0 # rest) x n = Inl e)
   \<and> (ntype (data n) = ''transform.summarize''
      \<and> pd_summarize eng p0 (comma_list (or_else (groupBy (data n)) [])) (measures (data n)) = Inl e \<longrightarrow>
    eval_node eng (p0 # rest) x n = Inl e)
   \<and> (ntype (data n) = ''transform.sort'' \<and> strip (or_else (sortSpec (data n)) []) \<noteq> []
      \<and> pd_sort_values eng p0 (map first_word (comma_list (strip (or_else (sortSpec (data n)) []))))
           (map (\<lambda>p. \<not> endswith (lower p) ''desc'') (comma_list (strip (or_else (sortSpec (data n)) [])))) = Inl e \<longrightarrow>
    eval_node eng (p0 # rest) x n = Inl e)
   \<and> (ntype (data n) = ''transform.sample''
      \<and> (if or_else (mode (data n)) ''rows'' = ''fraction''
          then sample_frac (builtins eng) n = Inl e
          else sample_size (builtins eng) n = Inl e) \<longrightarrow>
    eval_node eng ps x n = Inl e)
   \<and> (ntype (data n) = ''transform.sample''
      \<and> (if or_else (mode (data n)) ''rows'' = ''fraction''
          then sample_frac (builtins eng) n = Inr f
          else sample_size (builtins eng) n = Inr N) \<longrightarrow>
    eval_node eng [] x n = Inl IndexError)
   \<and> (ntype (data n) = ''transform.sample'' \<and> or_else (mode (data n)) ''rows'' \<noteq> ''fraction''
      \<and> sample_size (builtins eng) n = Inr N
      \<and> pd_sample_n eng p0 (min N (int (nrows p0))) = Inl e \<longrightarrow>
    eval_node eng (p0 # rest) x n = Inl e)
   \<and> (ntype (data n) = ''transform.sample'' \<and> or_else (mode (data n)) ''rows'' = ''fraction''
      \<and> sample_frac (builtins eng) n = Inr f
      \<and> pd_sample_frac eng p0 f = Inl e \<longrightarrow>
    eval_node eng (p0 # rest) x n = Inl e)
   \<and> (ntype (data n) = ''transform.join'' \<and> length ps < 2 \<longrightarrow>
    eval_node eng ps x n = Inl IndexError)
   \<and> (ntype (data n) = ''transform.join''
      \<and> key_of (comma_list (or_else (left_on (data n)) ''id'')) = Inr lkey
      \<and> key_of (comma_list (or_else (right_on (data n)) ''id'')) = Inr rkey
      \<and> pd_merge eng p0 p1 (or_else (how (data n)) ''inner'') lkey rkey = Inl e \<longrightarrow>
    eval_node eng (p0 # p1 # rest) x n = Inl e)
   \<and> (ntype (data n) = ''sink.csv''
      \<and> pd_to_csv eng p0 (or_else (path (data n)) ''out.csv'') = Inl e \<longrightarrow>
    eval_node eng (p0 # rest) x n = Inl e)
   \<and> (ntype (data n) \<in> {''transform.select'', ''transform.filter'', ''transform.formula'',
        ''transform.sort'', ''transform.join'', ''sink.csv''} \<longrightarrow>
    eval_node eng [] x n = Inl IndexError)"
  apply (intro conjI)
  apply (rule fi_run_raises)
  apply (rule fi_run_filter)
  apply (rule fi_run_formula)
  apply (rule fi_run_ok)
  apply (rule fi_run_earlier)
  apply (rule fi_run_total)
  apply (rule fi_run_whole)
  apply (rule fi_source_read_fails)
  apply (rule fi_source_missing)
  apply (rule fi_select_fails)
  apply (rule fi_cast_fails)
  apply (rule fi_summarize_fails)
  apply (rule fi_sort_fails)
  apply (rule fi_sample_conversion_fails)
  apply (rule fi_sample_no_parent)
  apply (rule fi_sample_rows_fails)
  apply (rule fi_sample_fraction_fails)
  apply (rule fi_join_one_parent)
  apply (rule fi_join_fails)
  apply (rule fi_sink_fails)
  apply (rule fi_no_parent)
  done

text \<open>
  The theorem at the example run, in the order \<open>L\<close>, \<open>O\<close>, \<open>Q\<close>, \<open>S\<close>, \<open>F\<close>,
  \<open>G\<close>: the source \<open>L\<close> ends with its two rows and no entry; the filter \<open>O\<close> without
  a parent, the sample node \<open>Q\<close> whose size does not convert and the select node \<open>S\<close>
  end with the empty table and an entry; the filter \<open>F\<close> ends with the two rows of \<open>L\<close>
  and the formula node \<open>G\<close> with them and a column \<open>c\<close> of two nulls, both with an
  entry; the run returns the table of \<open>G\<close> and the five entries. Then one node for
  each way of raising.
\<close>

theorem fault_isolation_spec_witness:
  "exec_loop demo_engine (id_map demo_nodes) demo_parents [''L'', ''O'', ''Q'', ''S'', ''F'',
      ''G''] ([], [])
       = Inr (demo_frames, demo_errors)
   \<and> exec_workflow_pandas demo_engine demo_nodes demo_edges None
       = Inr (\<lparr> nrows = 2, cols = [(''a'', [Val ''1'', Val ''2'']), (''c'', [Null,
           Null])] \<rparr>, demo_errors)
   \<and> map_of demo_frames ''S'' = Some empty_table
   \<and> map_of demo_errors ''S'' = Some ''ValueError: bad''
   \<and> map_of demo_frames ''O'' = Some empty_table
   \<and> map_of demo_errors ''O'' = Some ''IndexError: list index out of range''
   \<and> map_of demo_frames ''Q'' = Some empty_table
   \<and> map_of demo_errors ''Q'' = Some ''ValueError: bad''
   \<and> map_of demo_frames ''F'' = Some two_rows
   \<and> map_of demo_errors ''F'' = Some
       (''Filter expression failed; returned input unchanged. expr='' @ [CHR 0x27]
       @ ''age > 1'' @ [CHR 0x27])
   \<and> map_of demo_frames ''G'' = Some (fill_nulls ''c'' two_rows)
   \<and> map_of demo_errors ''G'' = Some (''Formula evaluation failed; filled '' @ [CHR 0x27]
       @ ''c'' @ [CHR 0x27] @ '' with nulls. expr='' @ [CHR 0x27] @ ''a + 1'' @ [CHR 0x27])
   \<and> nrows (fill_nulls ''c'' two_rows) = nrows two_rows
   \<and> map_of (cols (fill_nulls ''c'' two_rows)) ''c'' = Some (replicate
       (nrows two_rows) Null)
   \<and> map_of demo_frames ''L'' = Some two_rows
   \<and> map_of demo_errors ''L'' = None
   \<and> (\<exists>framesF errsF. exec_loop demo_engine
       (id_map demo_nodes) demo_parents [''L'', ''O'', ''Q'', ''S'', ''F'', ''G''] ([], [])
       = Inr (framesF, errsF)
      \<and> dom (map_of framesF) = set [''L'', ''O'', ''Q'', ''S'', ''F'', ''G'']
      \<and> dom (map_of errsF) \<subseteq> set [''L'', ''O'', ''Q'', ''S'', ''F'', ''G''])
   \<and> eval_node demo_engine [] ''B'' (source_node ''B'' ''bad.csv'') = Inl
       (Raised ''ValueError'' ''bad'')
   \<and> eval_node demo_engine [] ''B'' (plain_node ''B'' ''source.csv'') = Inl
       (Raised ''FileNotFoundError'' (''CSV Source '' @ [CHR 0x27] @ ''B'' @ [CHR 0x27]
       @ '' has no uploaded data or readable path.''))
   \<and> eval_node demo_engine [two_rows] ''S'' (select_node ''S'' ''zz'') = Inl
       (Raised ''ValueError'' ''bad'')
   \<and> eval_node demo_engine [two_rows] ''C'' (cast_node ''C'' ''a'' ''integer'') = Inl
       (Raised ''ValueError'' ''bad'')
   \<and> eval_node demo_engine [two_rows] ''U'' (plain_node ''U'' ''transform.summarize'')
       = Inl (Raised ''ValueError'' ''bad'')
   \<and> eval_node demo_engine [two_rows] ''T'' (sort_node ''T'' ''a desc'') = Inl
       (Raised ''ValueError'' ''bad'')
   \<and> eval_node demo_engine [two_rows] ''Q'' (any_sample_node ''Q'' ''rows'' (PyStr ''abc'')
       (PyFloat ''0.5'')) = Inl (Raised ''ValueError'' ''bad'')
   \<and> eval_node demo_engine [] ''Q'' (any_sample_node ''Q'' ''fraction'' (PyInt 5)
       (PyStr ''half'')) = Inl (Raised ''ValueError'' ''bad'')
   \<and> eval_node demo_engine [] ''R'' (sample_node ''R'' 10) = Inl IndexError
   \<and> eval_node demo_engine [three_rows] ''R'' (sample_node ''R'' 10) = Inl
       (Raised ''ValueError'' ''bad'')
   \<and> eval_node demo_engine [two_rows] ''H'' (any_sample_node ''H'' ''fraction'' (PyInt 5)
       (PyFloat ''0.5'')) = Inl (Raised ''ValueError'' ''bad'')
   \<and> eval_node demo_engine [two_rows] ''J'' (join_node ''J'' ''a'' ''a'') = Inl IndexError
   \<and> eval_node demo_engine [two_rows, three_rows] ''J'' (join_node ''J'' ''a'' ''a'') = Inl
       (Raised ''ValueError'' ''bad'')
   \<and> eval_node demo_engine [two_rows] ''K'' (plain_node ''K'' ''sink.csv'') = Inl
       (Raised ''ValueError'' ''bad'')
   \<and> eval_node demo_engine [] ''G'' (formula_node ''G'' ''c'' ''a + 1'') = Inl IndexError"
proof -
  note t_s = fault_isolation_spec [where eng = "demo_engine"
      and ?id2.0 = "id_map demo_nodes"
      and parents = "demo_parents"
      and pre = "[''L'', ''O'', ''Q'']"
      and x = "''S''"
      and post = "[''F'', ''G'']"
      and frames = "[(''L'', two_rows), (''O'', empty_table), (''Q'', empty_table)]"
      and errs = "[(''O'', ''IndexError: list index out of range''), (''Q'',
          ''ValueError: bad'')]"
      and framesF = "demo_frames"
      and errsF = "demo_errors"
      and n = "select_node ''S'' ''zz''"
      and pids = "[''L'']"
      and e = "Raised ''ValueError'' ''bad''", THEN conjunct1]
  have h_s: "visits demo_engine (id_map demo_nodes) demo_parents ([''L'', ''O'', ''Q'']) ''S''
      ([''F'', ''G'']) (([(''L'', two_rows), (''O'', empty_table), (''Q'', empty_table)]),
      ([(''O'', ''IndexError: list index out of range''), (''Q'', ''ValueError: bad'')]))
      (demo_frames, demo_errors)
         \<and> map_of (id_map demo_nodes) ''S'' = Some (select_node ''S'' ''zz'')
             \<and> map_of demo_parents ''S'' = Some ([''L''])
         \<and> eval_node demo_engine (map (\<lambda>p. dict_get ([(''L'', two_rows), (''O'',
             empty_table), (''Q'', empty_table)]) p empty_table) ([''L''])) ''S''
             (select_node ''S'' ''zz'') = Inl (Raised ''ValueError'' ''bad'')"
    by code_simp
  note c_s = t_s [THEN mp, OF h_s]
  have w_s: "map_of demo_frames ''S'' = Some empty_table \<and> map_of demo_errors ''S''
      = Some ''ValueError: bad''"
    using c_s by simp
  note t_o = fault_isolation_spec [where eng = "demo_engine"
      and ?id2.0 = "id_map demo_nodes"
      and parents = "demo_parents"
      and pre = "[''L'']"
      and x = "''O''"
      and post = "[''Q'', ''S'', ''F'', ''G'']"
      and frames = "[(''L'', two_rows)]"
      and errs = "[]"
      and framesF = "demo_frames"
      and errsF = "demo_errors"
      and n = "filter_node ''O'' ''x > 0''"
      and pids = "[]"
      and e = "IndexError", THEN conjunct1]
  have h_o: "visits demo_engine (id_map demo_nodes) demo_parents ([''L'']) ''O'' ([''Q'', ''S'',
      ''F'', ''G'']) (([(''L'', two_rows)]), ([] :: (string, string) dict)) (demo_frames,
      demo_errors)
         \<and> map_of (id_map demo_nodes) ''O'' = Some (filter_node ''O'' ''x > 0'')
             \<and> map_of demo_parents ''O'' = Some ([] :: string list)
         \<and> eval_node demo_engine (map (\<lambda>p. dict_get ([(''L'',
             two_rows)]) p empty_table) ([] :: string list)) ''O''
             (filter_node ''O'' ''x > 0'') = Inl IndexError"
    by code_simp
  note c_o = t_o [THEN mp, OF h_o]
  have w_o: "map_of demo_frames ''O'' = Some empty_table \<and> map_of demo_errors ''O''
      = Some ''IndexError: list index out of range''"
    using c_o by simp
  note t_q = fault_isolation_spec [where eng = "demo_engine"
      and ?id2.0 = "id_map demo_nodes"
      and parents = "demo_parents"
      and pre = "[''L'', ''O'']"
      and x = "''Q''"
      and post = "[''S'', ''F'', ''G'']"
      and frames = "[(''L'', two_rows), (''O'', empty_table)]"
      and errs = "[(''O'', ''IndexError: list index out of range'')]"
      and framesF = "demo_frames"
      and errsF = "demo_errors"
      and n = "any_sample_node ''Q'' ''rows'' (PyStr ''abc'') (PyFloat ''0.5'')"
      and pids = "[]"
      and e = "Raised ''ValueError'' ''bad''", THEN conjunct1]
  have h_q: "visits demo_engine (id_map demo_nodes) demo_parents ([''L'', ''O'']) ''Q'' ([''S'',
      ''F'', ''G'']) (([(''L'', two_rows), (''O'', empty_table)]), ([(''O'',
      ''IndexError: list index out of range'')])) (demo_frames, demo_errors)
         \<and> map_of (id_map demo_nodes) ''Q'' = Some (any_sample_node ''Q'' ''rows''
             (PyStr ''abc'') (PyFloat ''0.5'')) \<and> map_of demo_parents ''Q'' = Some
             ([] :: string list)
         \<and> eval_node demo_engine (map (\<lambda>p. dict_get ([(''L'', two_rows), (''O'',
             empty_table)]) p empty_table) ([] :: string list)) ''Q''
             (any_sample_node ''Q'' ''rows'' (PyStr ''abc'') (PyFloat ''0.5'')) = Inl
             (Raised ''ValueError'' ''bad'')"
    by code_simp
  note c_q = t_q [THEN mp, OF h_q]
  have w_q: "map_of demo_frames ''Q'' = Some empty_table \<and> map_of demo_errors ''Q''
      = Some ''ValueError: bad''"
    using c_q by simp
  note t_f = fault_isolation_spec [where eng = "demo_engine"
      and ?id2.0 = "id_map demo_nodes"
      and parents = "demo_parents"
      and pre = "[''L'', ''O'', ''Q'', ''S'']"
      and x = "''F''"
      and post = "[''G'']"
      and frames = "[(''L'', two_rows), (''O'', empty_table), (''Q'', empty_table), (''S'',
          empty_table)]"
      and errs = "[(''O'', ''IndexError: list index out of range''), (''Q'',
          ''ValueError: bad''), (''S'', ''ValueError: bad'')]"
      and framesF = "demo_frames"
      and errsF = "demo_errors"
      and n = "filter_node ''F'' ''age > 1''"
      and pids = "[]"
      and pid = "''L''"
      and e = "Raised ''ValueError'' ''bad''", THEN conjunct2, THEN conjunct1]
  have h_f: "visits demo_engine (id_map demo_nodes) demo_parents ([''L'', ''O'', ''Q'',
      ''S'']) ''F'' ([''G'']) (([(''L'', two_rows), (''O'', empty_table), (''Q'', empty_table),
      (''S'', empty_table)]), ([(''O'', ''IndexError: list index out of range''), (''Q'',
      ''ValueError: bad''), (''S'', ''ValueError: bad'')])) (demo_frames, demo_errors)
         \<and> map_of (id_map demo_nodes) ''F'' = Some (filter_node ''F'' ''age > 1'')
             \<and> map_of demo_parents ''F'' = Some (''L'' # ([] :: string list))
         \<and> ntype (data (filter_node ''F'' ''age > 1'')) = ''transform.filter''
         \<and> pd_query demo_engine (dict_get ([(''L'', two_rows), (''O'', empty_table),
             (''Q'', empty_table), (''S'', empty_table)]) ''L'' empty_table) (or_else (expr
             (data (filter_node ''F'' ''age > 1''))) ''True'') = Inl
             (Raised ''ValueError'' ''bad'')"
    by code_simp
  note c_f = t_f [THEN mp, OF h_f]
  have x_f: "dict_get [(''L'', two_rows), (''O'', empty_table), (''Q'', empty_table), (''S'',
      empty_table)] ''L'' empty_table = two_rows" "or_else (expr (data
      (filter_node ''F'' ''age > 1''))) ''True'' = ''age > 1''"
    by code_simp+
  have w_f: "map_of demo_frames ''F'' = Some two_rows \<and> map_of demo_errors ''F'' = Some
      (''Filter expression failed; returned input unchanged. expr='' @ [CHR 0x27] @ ''age > 1''
      @ [CHR 0x27])"
    using c_f unfolding x_f by simp
  note t_g = fault_isolation_spec [where eng = "demo_engine"
      and ?id2.0 = "id_map demo_nodes"
      and parents = "demo_parents"
      and pre = "[''L'', ''O'', ''Q'', ''S'', ''F'']"
      and x = "''G''"
      and post = "[]"
      and frames = "[(''L'', two_rows), (''O'', empty_table), (''Q'', empty_table), (''S'',
          empty_table), (''F'', two_rows)]"
      and errs = "[(''O'', ''IndexError: list index out of range''), (''Q'',
          ''ValueError: bad''), (''S'', ''ValueError: bad''), (''F'',
          ''Filter expression failed; returned input unchanged. expr='' @ [CHR 0x27]
          @ ''age > 1'' @ [CHR 0x27])]"
      and framesF = "demo_frames"
      and errsF = "demo_errors"
      and n = "formula_node ''G'' ''c'' ''a + 1''"
      and pids = "[]"
      and pid = "''L''"
      and e = "Raised ''ValueError'' ''bad''", THEN conjunct2, THEN conjunct2, THEN conjunct1]
  have h_g: "visits demo_engine (id_map demo_nodes) demo_parents ([''L'', ''O'', ''Q'', ''S'',
      ''F'']) ''G'' ([] :: string list) (([(''L'', two_rows), (''O'', empty_table), (''Q'',
      empty_table), (''S'', empty_table), (''F'', two_rows)]), ([(''O'',
      ''IndexError: list index out of range''), (''Q'', ''ValueError: bad''), (''S'',
      ''ValueError: bad''), (''F'',
      ''Filter expression failed; returned input unchanged. expr='' @ [CHR 0x27] @ ''age > 1''
      @ [CHR 0x27])])) (demo_frames, demo_errors)
         \<and> map_of (id_map demo_nodes) ''G'' = Some (formula_node ''G'' ''c'' ''a + 1'')
             \<and> map_of demo_parents ''G'' = Some (''L'' # ([] :: string list))
         \<and> ntype (data (formula_node ''G'' ''c'' ''a + 1'')) = ''transform.formula''
         \<and> pd_eval_assign demo_engine (dict_get ([(''L'', two_rows), (''O'', empty_table),
             (''Q'', empty_table), (''S'', empty_table), (''F'', two_rows)]) ''L'' empty_table)
             (or_else (newCol (data (formula_node ''G'' ''c'' ''a + 1''))) ''new_column'')
              (or_else (expr (data (formula_node ''G'' ''c'' ''a + 1''))) ''0'') = Inl
                  (Raised ''ValueError'' ''bad'')"
    by code_simp
  note c_g = t_g [THEN mp, OF h_g]
  have x_g: "dict_get [(''L'', two_rows), (''O'', empty_table), (''Q'', empty_table), (''S'',
      empty_table), (''F'', two_rows)] ''L'' empty_table = two_rows" "or_else (newCol (data
      (formula_node ''G'' ''c'' ''a + 1''))) ''new_column'' = ''c''" "or_else (expr (data
      (formula_node ''G'' ''c'' ''a + 1''))) ''0'' = ''a + 1''"
    by code_simp+
  have w_g: "map_of demo_frames ''G'' = Some (fill_nulls ''c'' two_rows)
      \<and> map_of demo_errors ''G'' = Some (''Formula evaluation failed; filled ''
      @ [CHR 0x27] @ ''c'' @ [CHR 0x27] @ '' with nulls. expr='' @ [CHR 0x27] @ ''a + 1''
      @ [CHR 0x27]) \<and> nrows (fill_nulls ''c'' two_rows) = nrows two_rows \<and> map_of
      (cols (fill_nulls ''c'' two_rows)) ''c'' = Some (replicate (nrows two_rows) Null)"
    using c_g unfolding x_g by simp
  note t_l = fault_isolation_spec [where eng = "demo_engine"
      and ?id2.0 = "id_map demo_nodes"
      and parents = "demo_parents"
      and pre = "[]"
      and x = "''L''"
      and post = "[''O'', ''Q'', ''S'', ''F'', ''G'']"
      and frames = "[]"
      and errs = "[]"
      and framesF = "demo_frames"
      and errsF = "demo_errors"
      and n = "source_node ''L'' ''in.csv''"
      and pids = "[]"
      and df = "two_rows", THEN conjunct2, THEN conjunct2, THEN conjunct2, THEN conjunct1]
  have h_l: "visits demo_engine (id_map demo_nodes) demo_parents ([] :: string list) ''L''
      ([''O'', ''Q'', ''S'', ''F'', ''G'']) (([] :: (string, table) dict), ([] :: (string,
      string) dict)) (demo_frames, demo_errors)
         \<and> map_of (id_map demo_nodes) ''L'' = Some (source_node ''L'' ''in.csv'')
             \<and> map_of demo_parents ''L'' = Some ([] :: string list)
         \<and> eval_node demo_engine (map (\<lambda>p. dict_get ([] :: (string,
             table) dict) p empty_table) ([] :: string list)) ''L''
             (source_node ''L'' ''in.csv'') = Inr (two_rows, None)"
    by code_simp
  note c_l = t_l [THEN mp, OF h_l]
  have w_l: "map_of demo_frames ''L'' = Some two_rows \<and> map_of demo_errors ''L'' = None"
    using c_l by simp
  note t_y = fault_isolation_spec [where eng = "demo_engine"
      and ?id2.0 = "id_map demo_nodes"
      and parents = "demo_parents"
      and pre = "[''L'', ''O'', ''Q'', ''S'', ''F'']"
      and x = "''G''"
      and post = "[]"
      and frames = "[(''L'', two_rows), (''O'', empty_table), (''Q'', empty_table), (''S'',
          empty_table), (''F'', two_rows)]"
      and errs = "[(''O'', ''IndexError: list index out of range''), (''Q'',
          ''ValueError: bad''), (''S'', ''ValueError: bad''), (''F'',
          ''Filter expression failed; returned input unchanged. expr='' @ [CHR 0x27]
          @ ''age > 1'' @ [CHR 0x27])]"
      and framesF = "demo_frames"
      and errsF = "demo_errors", THEN conjunct2, THEN conjunct2, THEN conjunct2, THEN conjunct2,
          THEN conjunct1]
  have h_y: "visits demo_engine (id_map demo_nodes) demo_parents ([''L'', ''O'', ''Q'', ''S'',
      ''F'']) ''G'' ([] :: string list) (([(''L'', two_rows), (''O'', empty_table), (''Q'',
      empty_table), (''S'', empty_table), (''F'', two_rows)]), ([(''O'',
      ''IndexError: list index out of range''), (''Q'', ''ValueError: bad''), (''S'',
      ''ValueError: bad''), (''F'',
      ''Filter expression failed; returned input unchanged. expr='' @ [CHR 0x27] @ ''age > 1''
      @ [CHR 0x27])])) (demo_frames, demo_errors)"
    by code_simp
  note c_y = t_y [THEN mp, OF h_y]
  have w_y0: "\<forall>y \<in> set [''L'', ''O'', ''Q'', ''S'', ''F'']. map_of demo_frames y
      = map_of [(''L'', two_rows), (''O'', empty_table), (''Q'', empty_table), (''S'',
      empty_table), (''F'', two_rows)] y \<and> map_of demo_errors y = map_of [(''O'',
      ''IndexError: list index out of range''), (''Q'', ''ValueError: bad''), (''S'',
      ''ValueError: bad''), (''F'',
      ''Filter expression failed; returned input unchanged. expr='' @ [CHR 0x27] @ ''age > 1''
      @ [CHR 0x27])] y"
    by (rule c_y)
  note t_t = fault_isolation_spec [where eng = "demo_engine"
      and ?id2.0 = "id_map demo_nodes"
      and parents = "demo_parents"
      and order = "[''L'', ''O'', ''Q'', ''S'', ''F'', ''G'']", THEN conjunct2, THEN conjunct2,
          THEN conjunct2, THEN conjunct2, THEN conjunct2, THEN conjunct1]
  have h_t: "(\<forall>y \<in> set ([''L'', ''O'', ''Q'', ''S'', ''F'', ''G'']). y \<in> dom
      (map_of (id_map demo_nodes)))"
    by code_simp
  note c_t = t_t [THEN mp, OF h_t]
  have w_t: "\<exists>framesF errsF. exec_loop demo_engine
      (id_map demo_nodes) demo_parents [''L'', ''O'', ''Q'', ''S'', ''F'', ''G''] ([], [])
      = Inr (framesF, errsF) \<and> dom (map_of framesF) = set [''L'', ''O'', ''Q'', ''S'',
      ''F'', ''G''] \<and> dom (map_of errsF) \<subseteq> set [''L'', ''O'', ''Q'', ''S'',
      ''F'', ''G'']"
    by (rule c_t)
  note t_a1 = fault_isolation_spec [where eng = "demo_engine"
      and x = "''B''"
      and n = "source_node ''B'' ''bad.csv''"
      and e = "Raised ''ValueError'' ''bad''"
      and ps = "[]", THEN conjunct2, THEN conjunct2, THEN conjunct2, THEN conjunct2,
          THEN conjunct2, THEN conjunct2, THEN conjunct2, THEN conjunct1]
  have h_a1: "ntype (data (source_node ''B'' ''bad.csv'')) = ''source.csv'' \<and> fileText
      (data (source_node ''B'' ''bad.csv'')) = None
         \<and> strip (or_else (path (data (source_node ''B'' ''bad.csv''))) []) \<noteq> []
             \<and> os_path_exists demo_engine (strip (or_else (path (data
             (source_node ''B'' ''bad.csv''))) []))
         \<and> pd_read_csv_path demo_engine (strip (or_else (path (data
             (source_node ''B'' ''bad.csv''))) [])) = Inl (Raised ''ValueError'' ''bad'')"
    by code_simp
  note c_a1 = t_a1 [THEN mp, OF h_a1]
  have w_a1: "eval_node demo_engine [] ''B'' (source_node ''B'' ''bad.csv'') = Inl
      (Raised ''ValueError'' ''bad'')"
    by (rule c_a1)
  note t_a2 = fault_isolation_spec [where eng = "demo_engine"
      and x = "''B''"
      and n = "plain_node ''B'' ''source.csv''"
      and ps = "[]", THEN conjunct2, THEN conjunct2, THEN conjunct2, THEN conjunct2,
          THEN conjunct2, THEN conjunct2, THEN conjunct2, THEN conjunct2, THEN conjunct1]
  have h_a2: "ntype (data (plain_node ''B'' ''source.csv'')) = ''source.csv'' \<and> fileText
      (data (plain_node ''B'' ''source.csv'')) = None
         \<and> (strip (or_else (path (data (plain_node ''B'' ''source.csv''))) [])
             = [] \<or> \<not> os_path_exists demo_engine (strip (or_else (path (data
             (plain_node ''B'' ''source.csv''))) [])))"
    by code_simp
  note c_a2 = t_a2 [THEN mp, OF h_a2]
  have x_a2: "or_else (label (data (plain_node ''B'' ''source.csv''))) ''B'' = ''B''"
    by code_simp+
  have w_a2: "eval_node demo_engine [] ''B'' (plain_node ''B'' ''source.csv'') = Inl
      (Raised ''FileNotFoundError'' (''CSV Source '' @ [CHR 0x27] @ ''B'' @ [CHR 0x27]
      @ '' has no uploaded data or readable path.''))"
    using c_a2 unfolding x_a2 by simp
  note t_a3 = fault_isolation_spec [where eng = "demo_engine"
      and x = "''S''"
      and n = "select_node ''S'' ''zz''"
      and e = "Raised ''ValueError'' ''bad''"
      and ?p0.0 = "two_rows"
      and rest = "[]", THEN conjunct2, THEN conjunct2, THEN conjunct2, THEN conjunct2,
          THEN conjunct2, THEN conjunct2, THEN conjunct2, THEN conjunct2, THEN conjunct2,
          THEN conjunct1]
  have h_a3: "ntype (data (select_node ''S'' ''zz'')) = ''transform.select'' \<and> strip
      (or_else (columns (data (select_node ''S'' ''zz''))) ''*'') \<noteq> [] \<and> strip
      (or_else (columns (data (select_node ''S'' ''zz''))) ''*'') \<noteq> ''*''
         \<and> pd_getitem demo_engine two_rows (comma_list (strip (or_else (columns (data
             (select_node ''S'' ''zz''))) ''*''))) = Inl (Raised ''ValueError'' ''bad'')"
    by code_simp
  note c_a3 = t_a3 [THEN mp, OF h_a3]
  have w_a3: "eval_node demo_engine [two_rows] ''S'' (select_node ''S'' ''zz'') = Inl
      (Raised ''ValueError'' ''bad'')"
    by (rule c_a3)
  note t_a4 = fault_isolation_spec [where eng = "demo_engine"
      and x = "''C''"
      and n = "cast_node ''C'' ''a'' ''integer''"
      and e = "Raised ''ValueError'' ''bad''"
      and df = "two_rows"
      and ?p0.0 = "two_rows"
      and rest = "[]"
      and s = "[(''name'', ''a''), (''dtype'', ''integer'')]"
      and ss = "[]", THEN conjunct2, THEN conjunct2, THEN conjunct2, THEN conjunct2,
          THEN conjunct2, THEN conjunct2, THEN conjunct2, THEN conjunct2, THEN conjunct2,
          THEN conjunct2, THEN conjunct1]
  have h_a4: "ntype (data (cast_node ''C'' ''a'' ''integer'')) = ''transform.select''
         \<and> (if strip (or_else (columns (data (cast_node ''C'' ''a'' ''integer''))) ''*'')
             = [] \<or> strip (or_else (columns (data
             (cast_node ''C'' ''a'' ''integer''))) ''*'') = ''*'' then Inr two_rows
             else pd_getitem demo_engine two_rows (comma_list (strip (or_else (columns (data
                 (cast_node ''C'' ''a'' ''integer''))) ''*'')))) = Inr two_rows
         \<and> schema (data (cast_node ''C'' ''a'' ''integer'')) = ([(''name'', ''a''),
             (''dtype'', ''integer'')]) # ([] :: (string, string) dict list)
         \<and> strip (or_else (map_of ([(''name'', ''a''), (''dtype'',
             ''integer'')]) ''name'') []) \<in> set (map fst (cols two_rows))
         \<and> strip (or_else (map_of ([(''name'', ''a''), (''dtype'',
             ''integer'')]) ''name'') []) \<noteq> []
         \<and> pd_cast demo_engine two_rows (strip (or_else (map_of ([(''name'', ''a''),
             (''dtype'', ''integer'')]) ''name'') []))
              (lower (strip (or_else (map_of ([(''name'', ''a''), (''dtype'',
                  ''integer'')]) ''dtype'') ''string''))) = Inl
                  (Raised ''ValueError'' ''bad'')"
    by code_simp
  note c_a4 = t_a4 [THEN mp, OF h_a4]
  have w_a4: "eval_node demo_engine [two_rows] ''C'' (cast_node ''C'' ''a'' ''integer'') = Inl
      (Raised ''ValueError'' ''bad'')"
    by (rule c_a4)
  note t_a5 = fault_isolation_spec [where eng = "demo_engine"
      and x = "''U''"
      and n = "plain_node ''U'' ''transform.summarize''"
      and e = "Raised ''ValueError'' ''bad''"
      and ?p0.0 = "two_rows"
      and rest = "[]", THEN conjunct2, THEN conjunct2, THEN conjunct2, THEN conjunct2,
          THEN conjunct2, THEN conjunct2, THEN conjunct2, THEN conjunct2, THEN conjunct2,
          THEN conjunct2, THEN conjunct2, THEN conjunct1]
  have h_a5: "ntype (data (plain_node ''U'' ''transform.summarize'')) = ''transform.summarize''
         \<and> pd_summarize demo_engine two_rows (comma_list (or_else (groupBy (data
             (plain_node ''U'' ''transform.summarize''))) [])) (measures (data
             (plain_node ''U'' ''transform.summarize''))) = Inl
             (Raised ''ValueError'' ''bad'')"
    by code_simp
  note c_a5 = t_a5 [THEN mp, OF h_a5]
  have w_a5: "eval_node demo_engine [two_rows] ''U'' (plain_node ''U'' ''transform.summarize'')
      = Inl (Raised ''ValueError'' ''bad'')"
    by (rule c_a5)
  note t_a6 = fault_isolation_spec [where eng = "demo_engine"
      and x = "''T''"
      and n = "sort_node ''T'' ''a desc''"
      and e = "Raised ''ValueError'' ''bad''"
      and ?p0.0 = "two_rows"
      and rest = "[]", THEN conjunct2, THEN conjunct2, THEN conjunct2, THEN conjunct2,
          THEN conjunct2, THEN conjunct2, THEN conjunct2, THEN conjunct2, THEN conjunct2,
          THEN conjunct2, THEN conjunct2, THEN conjunct2, THEN conjunct1]
  have h_a6: "ntype (data (sort_node ''T'' ''a desc'')) = ''transform.sort'' \<and> strip
      (or_else (sortSpec (data (sort_node ''T'' ''a desc''))) []) \<noteq> []
         \<and> pd_sort_values demo_engine two_rows (map first_word (comma_list (strip (or_else
             (sortSpec (data (sort_node ''T'' ''a desc''))) []))))
              (map (\<lambda>p. \<not> endswith (lower p) ''desc'') (comma_list (strip (or_else
                  (sortSpec (data (sort_node ''T'' ''a desc''))) [])))) = Inl
                  (Raised ''ValueError'' ''bad'')"
    by code_simp
  note c_a6 = t_a6 [THEN mp, OF h_a6]
  have w_a6: "eval_node demo_engine [two_rows] ''T'' (sort_node ''T'' ''a desc'') = Inl
      (Raised ''ValueError'' ''bad'')"
    by (rule c_a6)
  note t_a7 = fault_isolation_spec [where eng = "demo_engine"
      and x = "''Q''"
      and n = "any_sample_node ''Q'' ''rows'' (PyStr ''abc'') (PyFloat ''0.5'')"
      and e = "Raised ''ValueError'' ''bad''"
      and ps = "[two_rows]", THEN conjunct2, THEN conjunct2, THEN conjunct2, THEN conjunct2,
          THEN conjunct2, THEN conjunct2, THEN conjunct2, THEN conjunct2, THEN conjunct2,
          THEN conjunct2, THEN conjunct2, THEN conjunct2, THEN conjunct2, THEN conjunct1]
  have h_a7: "ntype (data (any_sample_node ''Q'' ''rows'' (PyStr ''abc'') (PyFloat ''0.5'')))
      = ''transform.sample''
         \<and> (if or_else (mode (data (any_sample_node ''Q'' ''rows'' (PyStr ''abc'')
             (PyFloat ''0.5'')))) ''rows'' = ''fraction''
             then sample_frac (builtins demo_engine) (any_sample_node ''Q'' ''rows''
                 (PyStr ''abc'') (PyFloat ''0.5'')) = Inl (Raised ''ValueError'' ''bad'')
             else sample_size (builtins demo_engine) (any_sample_node ''Q'' ''rows''
                 (PyStr ''abc'') (PyFloat ''0.5'')) = Inl (Raised ''ValueError'' ''bad''))"
    by code_simp
  note c_a7 = t_a7 [THEN mp, OF h_a7]
  have w_a7: "eval_node demo_engine [two_rows] ''Q'' (any_sample_node ''Q'' ''rows''
      (PyStr ''abc'') (PyFloat ''0.5'')) = Inl (Raised ''ValueError'' ''bad'')"
    by (rule c_a7)
  note t_a7b = fault_isolation_spec [where eng = "demo_engine"
      and x = "''Q''"
      and n = "any_sample_node ''Q'' ''fraction'' (PyInt 5) (PyStr ''half'')"
      and e = "Raised ''ValueError'' ''bad''"
      and ps = "[]", THEN conjunct2, THEN conjunct2, THEN conjunct2, THEN conjunct2,
          THEN conjunct2, THEN conjunct2, THEN conjunct2, THEN conjunct2, THEN conjunct2,
          THEN conjunct2, THEN conjunct2, THEN conjunct2, THEN conjunct2, THEN conjunct1]
  have h_a7b: "ntype (data (any_sample_node ''Q'' ''fraction'' (PyInt 5) (PyStr ''half'')))
      = ''transform.sample''
         \<and> (if or_else (mode (data (any_sample_node ''Q'' ''fraction'' (PyInt 5)
             (PyStr ''half'')))) ''rows'' = ''fraction''
             then sample_frac (builtins demo_engine) (any_sample_node ''Q'' ''fraction''
                 (PyInt 5) (PyStr ''half'')) = Inl (Raised ''ValueError'' ''bad'')
             else sample_size (builtins demo_engine) (any_sample_node ''Q'' ''fraction''
                 (PyInt 5) (PyStr ''half'')) = Inl (Raised ''ValueError'' ''bad''))"
    by code_simp
  note c_a7b = t_a7b [THEN mp, OF h_a7b]
  have w_a7b: "eval_node demo_engine [] ''Q'' (any_sample_node ''Q'' ''fraction'' (PyInt 5)
      (PyStr ''half'')) = Inl (Raised ''ValueError'' ''bad'')"
    by (rule c_a7b)
  note t_a8 = fault_isolation_spec [where eng = "demo_engine"
      and x = "''R''"
      and n = "sample_node ''R'' 10"
      and f = "''0.1''"
      and N = "10", THEN conjunct2, THEN conjunct2, THEN conjunct2, THEN conjunct2,
          THEN conjunct2, THEN conjunct2, THEN conjunct2, THEN conjunct2, THEN conjunct2,
          THEN conjunct2, THEN conjunct2, THEN conjunct2, THEN conjunct2, THEN conjunct2,
          THEN conjunct1]
  have h_a8: "ntype (data (sample_node ''R'' 10)) = ''transform.sample''
         \<and> (if or_else (mode (data (sample_node ''R'' 10))) ''rows'' = ''fraction''
             then sample_frac (builtins demo_engine) (sample_node ''R'' 10) = Inr ''0.1''
             else sample_size (builtins demo_engine) (sample_node ''R'' 10) = Inr 10)"
    by code_simp
  note c_a8 = t_a8 [THEN mp, OF h_a8]
  have w_a8: "eval_node demo_engine [] ''R'' (sample_node ''R'' 10) = Inl IndexError"
    by (rule c_a8)
  note t_a9 = fault_isolation_spec [where eng = "demo_engine"
      and x = "''R''"
      and n = "sample_node ''R'' 10"
      and e = "Raised ''ValueError'' ''bad''"
      and ?p0.0 = "three_rows"
      and rest = "[]"
      and N = "10", THEN conjunct2, THEN conjunct2, THEN conjunct2, THEN conjunct2,
          THEN conjunct2, THEN conjunct2, THEN conjunct2, THEN conjunct2, THEN conjunct2,
          THEN conjunct2, THEN conjunct2, THEN conjunct2, THEN conjunct2, THEN conjunct2,
          THEN conjunct2, THEN conjunct1]
  have h_a9: "ntype (data (sample_node ''R'' 10)) = ''transform.sample'' \<and> or_else (mode
      (data (sample_node ''R'' 10))) ''rows'' \<noteq> ''fraction''
         \<and> sample_size (builtins demo_engine) (sample_node ''R'' 10) = Inr 10
         \<and> pd_sample_n demo_engine three_rows (min 10 (int (nrows three_rows))) = Inl
             (Raised ''ValueError'' ''bad'')"
    by code_simp
  note c_a9 = t_a9 [THEN mp, OF h_a9]
  have w_a9: "eval_node demo_engine [three_rows] ''R'' (sample_node ''R'' 10) = Inl
      (Raised ''ValueError'' ''bad'')"
    by (rule c_a9)
  note t_a10 = fault_isolation_spec [where eng = "demo_engine"
      and x = "''H''"
      and n = "any_sample_node ''H'' ''fraction'' (PyInt 5) (PyFloat ''0.5'')"
      and e = "Raised ''ValueError'' ''bad''"
      and ?p0.0 = "two_rows"
      and rest = "[]"
      and f = "''0.5''", THEN conjunct2, THEN conjunct2, THEN conjunct2, THEN conjunct2,
          THEN conjunct2, THEN conjunct2, THEN conjunct2, THEN conjunct2, THEN conjunct2,
          THEN conjunct2, THEN conjunct2, THEN conjunct2, THEN conjunct2, THEN conjunct2,
          THEN conjunct2, THEN conjunct2, THEN conjunct1]
  have h_a10: "ntype (data (any_sample_node ''H'' ''fraction'' (PyInt 5) (PyFloat ''0.5'')))
      = ''transform.sample'' \<and> or_else (mode (data (any_sample_node ''H'' ''fraction''
      (PyInt 5) (PyFloat ''0.5'')))) ''rows'' = ''fraction''
         \<and> sample_frac (builtins demo_engine) (any_sample_node ''H'' ''fraction'' (PyInt 5)
             (PyFloat ''0.5'')) = Inr ''0.5''
         \<and> pd_sample_frac demo_engine two_rows ''0.5'' = Inl
             (Raised ''ValueError'' ''bad'')"
    by code_simp
  note c_a10 = t_a10 [THEN mp, OF h_a10]
  have w_a10: "eval_node demo_engine [two_rows] ''H'' (any_sample_node ''H'' ''fraction''
      (PyInt 5) (PyFloat ''0.5'')) = Inl (Raised ''ValueError'' ''bad'')"
    by (rule c_a10)
  note t_a11 = fault_isolation_spec [where eng = "demo_engine"
      and x = "''J''"
      and n = "join_node ''J'' ''a'' ''a''"
      and ps = "[two_rows]", THEN conjunct2, THEN conjunct2, THEN conjunct2, THEN conjunct2,
          THEN conjunct2, THEN conjunct2, THEN conjunct2, THEN conjunct2, THEN conjunct2,
          THEN conjunct2, THEN conjunct2, THEN conjunct2, THEN conjunct2, THEN conjunct2,
          THEN conjunct2, THEN conjunct2, THEN conjunct2, THEN conjunct1]
  have h_a11: "ntype (data (join_node ''J'' ''a'' ''a'')) = ''transform.join'' \<and> length
      ([two_rows]) < 2"
    by code_simp
  note c_a11 = t_a11 [THEN mp, OF h_a11]
  have w_a11: "eval_node demo_engine [two_rows] ''J'' (join_node ''J'' ''a'' ''a'')
      = Inl IndexError"
    by (rule c_a11)
  note t_a12 = fault_isolation_spec [where eng = "demo_engine"
      and x = "''J''"
      and n = "join_node ''J'' ''a'' ''a''"
      and e = "Raised ''ValueError'' ''bad''"
      and ?p0.0 = "two_rows"
      and ?p1.0 = "three_rows"
      and rest = "[]"
      and lkey = "Key ''a''"
      and rkey = "Key ''a''", THEN conjunct2, THEN conjunct2, THEN conjunct2, THEN conjunct2,
          THEN conjunct2, THEN conjunct2, THEN conjunct2, THEN conjunct2, THEN conjunct2,
          THEN conjunct2, THEN conjunct2, THEN conjunct2, THEN conjunct2, THEN conjunct2,
          THEN conjunct2, THEN conjunct2, THEN conjunct2, THEN conjunct2, THEN conjunct1]
  have h_a12: "ntype (data (join_node ''J'' ''a'' ''a'')) = ''transform.join''
         \<and> key_of (comma_list (or_else (left_on (data
             (join_node ''J'' ''a'' ''a''))) ''id'')) = Inr (Key ''a'')
         \<and> key_of (comma_list (or_else (right_on (data
             (join_node ''J'' ''a'' ''a''))) ''id'')) = Inr (Key ''a'')
         \<and> pd_merge demo_engine two_rows three_rows (or_else (how (data
             (join_node ''J'' ''a'' ''a''))) ''inner'') (Key ''a'') (Key ''a'') = Inl
             (Raised ''ValueError'' ''bad'')"
    by code_simp
  note c_a12 = t_a12 [THEN mp, OF h_a12]
  have w_a12: "eval_node demo_engine [two_rows, three_rows] ''J'' (join_node ''J'' ''a'' ''a'')
      = Inl (Raised ''ValueError'' ''bad'')"
    by (rule c_a12)
  note t_a13 = fault_isolation_spec [where eng = "demo_engine"
      and x = "''K''"
      and n = "plain_node ''K'' ''sink.csv''"
      and e = "Raised ''ValueError'' ''bad''"
      and ?p0.0 = "two_rows"
      and rest = "[]", THEN conjunct2, THEN conjunct2, THEN conjunct2, THEN conjunct2,
          THEN conjunct2, THEN conjunct2, THEN conjunct2, THEN conjunct2, THEN conjunct2,
          THEN conjunct2, THEN conjunct2, THEN conjunct2, THEN conjunct2, THEN conjunct2,
          THEN conjunct2, THEN conjunct2, THEN conjunct2, THEN conjunct2, THEN conjunct2,
          THEN conjunct1]
  have h_a13: "ntype (data (plain_node ''K'' ''sink.csv'')) = ''sink.csv''
         \<and> pd_to_csv demo_engine two_rows (or_else (path (data
             (plain_node ''K'' ''sink.csv''))) ''out.csv'') = Inl
             (Raised ''ValueError'' ''bad'')"
    by code_simp
  note c_a13 = t_a13 [THEN mp, OF h_a13]
  have w_a13: "eval_node demo_engine [two_rows] ''K'' (plain_node ''K'' ''sink.csv'') = Inl
      (Raised ''ValueError'' ''bad'')"
    by (rule c_a13)
  note t_a14 = fault_isolation_spec [where eng = "demo_engine"
      and x = "''G''"
      and n = "formula_node ''G'' ''c'' ''a + 1''", THEN conjunct2, THEN conjunct2,
          THEN conjunct2, THEN conjunct2, THEN conjunct2, THEN conjunct2, THEN conjunct2,
          THEN conjunct2, THEN conjunct2, THEN conjunct2, THEN conjunct2, THEN conjunct2,
          THEN conjunct2, THEN conjunct2, THEN conjunct2, THEN conjunct2, THEN conjunct2,
          THEN conjunct2, THEN conjunct2, THEN conjunct2]
  have h_a14: "ntype (data (formula_node ''G'' ''c'' ''a + 1'')) \<in> {''transform.select'',
      ''transform.filter'', ''transform.formula'',
           ''transform.sort'', ''transform.join'', ''sink.csv''}"
    by code_simp
  note c_a14 = t_a14 [THEN mp, OF h_a14]
  have w_a14: "eval_node demo_engine [] ''G'' (formula_node ''G'' ''c'' ''a + 1'')
      = Inl IndexError"
    by (rule c_a14)
  have m_y: "''L'' \<in> set [''L'', ''O'', ''Q'', ''S'', ''F'']" by simp
  have w_y: "map_of demo_frames ''L'' = Some two_rows"
    using c_y [THEN bspec, OF m_y] by simp
  note t_w = fault_isolation_spec [where nodes = demo_nodes and edges = demo_edges
      and preview_id = None and eng = demo_engine, THEN conjunct2, THEN conjunct2,
          THEN conjunct2, THEN conjunct2, THEN conjunct2, THEN conjunct2, THEN conjunct1]
  have h_w: "distinct (ids_of demo_nodes) \<and> closed_edges demo_nodes demo_edges"
    by code_simp
  from t_w [THEN mp, OF h_w] obtain n2 e2 order parents framesF errsF where
    sg: "subgraph_up_to demo_nodes demo_edges None = Inr (n2, e2)"
    and ts: "topo_sort n2 e2 = Inr order"
    and sp: "subgraph_preds e2 (fold (\<lambda>n d. AList.update (nid n) [] d) n2 [])
        = Inr parents"
    and el: "exec_loop demo_engine (id_map n2) parents order ([], []) = Inr (framesF, errsF)"
    and res: "exec_workflow_pandas demo_engine demo_nodes demo_edges None =
        Inr (if order = [] then empty_table else dict_get framesF (last order) empty_table,
             errsF)"
    by blast
  have e_sg: "subgraph_up_to demo_nodes demo_edges None = Inr (demo_nodes, demo_edges)"
    by code_simp
  with sg have n2: "n2 = demo_nodes" "e2 = demo_edges" by simp_all
  have e_ts: "topo_sort demo_nodes demo_edges = Inr [''L'', ''O'', ''Q'', ''S'', ''F'', ''G'']"
    by code_simp
  with ts n2 have o: "order = [''L'', ''O'', ''Q'', ''S'', ''F'', ''G'']" by simp
  have e_sp: "subgraph_preds demo_edges (fold (\<lambda>n d. AList.update
      (nid n) [] d) demo_nodes [])
               = Inr demo_parents"
    by code_simp
  with sp n2 have p: "parents = demo_parents" by simp
  have w_e: "exec_loop demo_engine (id_map demo_nodes) demo_parents [''L'', ''O'', ''Q'', ''S'',
      ''F'', ''G''] ([], [])
               = Inr (demo_frames, demo_errors)"
    by code_simp
  with el n2 o p have fe: "framesF = demo_frames" "errsF = demo_errors" by simp_all
  have e_last: "(if [''L'', ''O'', ''Q'', ''S'', ''F'', ''G''] = [] then empty_table
                 else dict_get demo_frames (last [''L'', ''O'', ''Q'', ''S'', ''F'',
                     ''G'']) empty_table) = \<lparr> nrows = 2, cols = [(''a'', [Val ''1'',
                     Val ''2'']), (''c'', [Null, Null])] \<rparr>"
    by code_simp
  from res have w_w: "exec_workflow_pandas demo_engine demo_nodes demo_edges None
               = Inr (\<lparr> nrows = 2, cols = [(''a'', [Val ''1'', Val ''2'']), (''c'',
                   [Null, Null])] \<rparr>, demo_errors)"
    unfolding o fe e_last .
  from w_e w_w w_s w_o w_q w_f w_g w_l w_t w_a1 w_a2 w_a3 w_a4 w_a5 w_a6 w_a7 w_a7b w_a8 w_a9 w_a10 w_a11 w_a12 w_a13 w_a14 w_y
  show ?thesis by (simp only: simp_thms)
qed

end
